(* ===== verification/Prelude.thy ===== *)
theory Prelude
  imports Main "HOL-Library.Word" "HOL-Library.Monad_Syntax"
begin

text \<open>
  What the components share: the machine integers of \<^verbatim>\<open>emu/util/unsigned.hpp\<close> as words, the
  collections of simplification rules the component theories fill, and generic lemmas on
  words, bits and the option monad.

  Conventions of the whole development.
  \<^item> \<open>None\<close> is an execution that C++ gives no result: an access outside an array, a call of an
    empty \<^verbatim>\<open>std::function\<close>, a failing \<^verbatim>\<open>assert\<close>, a signed overflow.
  \<^item> A value that C++ leaves indeterminate or unspecified (the contents of \<^verbatim>\<open>new T[n]\<close>, the
    result of a shift by a negative count) is a parameter of the model, so that a theorem
    holds whatever that value is.
  \<^item> A \<^verbatim>\<open>bool\<close> used as an integer is \<open>of_bool\<close>, an integer used as a \<^verbatim>\<open>bool\<close> is \<open>\<noteq> 0\<close>.
\<close>

unbundle bit_operations_syntax

type_synonym uint8 = "8 word"
type_synonym uint16 = "16 word"
type_synonym uint32 = "32 word"
type_synonym uint64 = "64 word"

named_theorems mask_simps \<open>tests of one bit of a word against a numeral mask\<close>
named_theorems reg_simps \<open>registers and their halves\<close>
named_theorems cpu_defs \<open>operations of the processor\<close>
named_theorems ppu_defs \<open>operations of the picture unit\<close>

section \<open>Single bits\<close>

lemma and_mask_bit [mask_simps]:
  "(w AND 0x01 \<noteq> 0) = bit w 0" "(w AND 0x02 \<noteq> 0) = bit w 1"
  "(w AND 0x04 \<noteq> 0) = bit w 2" "(w AND 0x08 \<noteq> 0) = bit w 3"
  "(w AND 0x10 \<noteq> 0) = bit w 4" "(w AND 0x20 \<noteq> 0) = bit w 5"
  "(w AND 0x40 \<noteq> 0) = bit w 6" "(w AND 0x80 \<noteq> 0) = bit w 7"
  for w :: "'a::len word"
  using and_exp_eq_0_iff_not_bit [of w 0] and_exp_eq_0_iff_not_bit [of w 1]
    and_exp_eq_0_iff_not_bit [of w 2] and_exp_eq_0_iff_not_bit [of w 3]
    and_exp_eq_0_iff_not_bit [of w 4] and_exp_eq_0_iff_not_bit [of w 5]
    and_exp_eq_0_iff_not_bit [of w 6] and_exp_eq_0_iff_not_bit [of w 7]
  by simp_all

lemma unat_uint8_less: "unat (a :: uint8) < 256"
  using unsigned_less [of a, where ?'a = nat] by simp

lemma unat_uint16_less: "unat (b :: uint16) < 65536"
  using unsigned_less [of b, where ?'a = nat] by simp

lemma uint_uint8_less: "uint (a :: uint8) < 256"
  using unsigned_less [of a, where ?'a = int] by simp

lemma uint_uint16_less: "uint (b :: uint16) < 65536"
  using unsigned_less [of b, where ?'a = int] by simp

lemmas word_bounds [simp] = unat_uint8_less unat_uint16_less uint_uint8_less uint_uint16_less

lemma div_128: "n < 256 \<Longrightarrow> n div 128 = (if 128 \<le> n then 1 else (0::nat))"
  by (auto intro: div_nat_eqI)

lemma bit_uint8_7: "bit (w :: uint8) 7 \<longleftrightarrow> 128 \<le> unat w"
proof -
  have "bit (unat w) 7 \<longleftrightarrow> odd (unat w div 128)" by (simp add: bit_iff_odd)
  also have "\<dots> \<longleftrightarrow> 128 \<le> unat w" by (simp add: div_128)
  finally show ?thesis by (simp add: bit_unsigned_iff)
qed

lemma less_8_cases: "n < 8 \<Longrightarrow> n = 0 \<or> n = 1 \<or> n = 2 \<or> n = 3 \<or> n = 4 \<or> n = 5 \<or> n = 6 \<or> n = (7::nat)"
  by presburger

lemma uint8_eqI:
  fixes v w :: uint8
  assumes "bit v 0 = bit w 0" "bit v 1 = bit w 1" "bit v 2 = bit w 2" "bit v 3 = bit w 3"
    "bit v 4 = bit w 4" "bit v 5 = bit w 5" "bit v 6 = bit w 6" "bit v 7 = bit w 7"
  shows "v = w"
proof (rule bit_word_eqI)
  fix n assume "n < LENGTH(8)"
  then show "bit v n = bit w n" using less_8_cases [of n] assms by auto
qed

lemma sint_uint8: "sint (w :: uint8) = (if bit w 7 then uint w - 256 else uint w)"
proof -
  have "take_bit 8 (uint w) = uint w" by (simp add: take_bit_int_eq_self)
  then show ?thesis
    by (simp add: sint_uint signed_take_bit_eq_take_bit_minus bit_uint_iff)
qed

text \<open>A statement about all bytes is a statement about a list of 256 of them.\<close>

definition all_bytes :: "uint8 list" where
  "all_bytes = map word_of_nat [0..<256]"

lemma all_bytes_exhaust: "list_all P all_bytes \<Longrightarrow> P w"
proof -
  assume "list_all P all_bytes"
  moreover have "word_of_nat (unat w) \<in> set all_bytes"
    unfolding all_bytes_def set_map set_upt by (rule imageI) simp
  ultimately show ?thesis by (simp add: list_all_iff)
qed

lemma empty_range [simp]: "\<not> (i \<le> k \<and> k < (i::nat))"
  by simp

lemma all_range_Suc:
  "(\<forall>k. i \<le> k \<and> k < i + Suc n \<longrightarrow> P k) \<longleftrightarrow>
   P i \<and> (\<forall>k. Suc i \<le> k \<and> k < Suc i + n \<longrightarrow> P k)" (is "?l \<longleftrightarrow> ?r")
proof
  assume r: ?r
  show ?l
  proof (intro allI impI)
    fix k assume "i \<le> k \<and> k < i + Suc n"
    with r show "P k" by (cases "k = i") auto
  qed
qed auto

section \<open>Bytes and words of two bytes\<close>

lemma uint_ucast_8_16 [simp]: "uint (ucast (w :: uint8) :: uint16) = uint w"
  by (simp add: uint_up_ucast is_up)

lemma unat_ucast_8_16 [simp]: "unat (ucast (w :: uint8) :: uint16) = unat w"
  
proof -
  have "unat w < 2 ^ 16" by (rule less_trans [OF word_bounds(1)]) simp
  then show ?thesis by (simp add: unsigned_ucast_eq take_bit_nat_eq_self)
qed

lemma ucast_8_16_8 [simp]: "ucast (ucast (w :: uint8) :: uint16) = w"
  by (simp add: ucast_up_ucast_id is_up)

end
