(* ===== verification/HeapArray.thy ===== *)
theory HeapArray
  imports Prelude
begin

text \<open>
  The fixed-size array of \<^verbatim>\<open>emu/util/heaparray.hpp\<close>. An array is its length and its cells; the
  cells of a fresh \<^verbatim>\<open>new T[len]\<close> are indeterminate and come from a parameter \<open>junk\<close>. An access
  outside the length is \<open>None\<close>. Memory is never freed by the class (\<^verbatim>\<open>reset\<close> drops the old block),
  so ownership is not modelled.
\<close>

section \<open>The class\<close>

record 'a heaparray =
  ha_len :: nat
  ha_elems :: "nat \<Rightarrow> 'a"

definition ha_new :: "nat \<Rightarrow> (nat \<Rightarrow> 'a) \<Rightarrow> 'a heaparray" where
  "ha_new l junk = \<lparr>ha_len = l, ha_elems = junk\<rparr>"

definition ha_default :: "(nat \<Rightarrow> 'a) \<Rightarrow> 'a heaparray" where
  "ha_default junk = ha_new 0 junk"

definition ha_get :: "'a heaparray \<Rightarrow> nat \<Rightarrow> 'a option" where
  "ha_get a i = (if i < ha_len a then Some (ha_elems a i) else None)"

definition ha_set :: "nat \<Rightarrow> 'a \<Rightarrow> 'a heaparray \<Rightarrow> 'a heaparray option" where
  "ha_set i v a = (if i < ha_len a then Some (a\<lparr>ha_elems := (ha_elems a)(i := v)\<rparr>) else None)"

definition ha_size :: "'a heaparray \<Rightarrow> nat" where
  "ha_size a = ha_len a"

definition ha_is_empty :: "'a heaparray \<Rightarrow> bool" where
  "ha_is_empty a \<longleftrightarrow> ha_len a = 0"

definition ha_reset :: "nat \<Rightarrow> (nat \<Rightarrow> 'a) \<Rightarrow> 'a heaparray \<Rightarrow> 'a heaparray" where
  "ha_reset newlen junk a = a\<lparr>ha_len := newlen, ha_elems := junk\<rparr>"

text \<open>The constructor from an initializer list stores one element after the other.\<close>

fun ha_store :: "nat \<Rightarrow> 'a list \<Rightarrow> 'a heaparray \<Rightarrow> 'a heaparray option" where
  "ha_store i [] a = Some a"
| "ha_store i (x # xs) a = do { a \<leftarrow> ha_set i x a; ha_store (Suc i) xs a }"

definition ha_of_list :: "(nat \<Rightarrow> 'a) \<Rightarrow> 'a list \<Rightarrow> 'a heaparray option" where
  "ha_of_list junk xs = ha_store 0 xs (ha_new (length xs) junk)"

text \<open>Copy assignment: a fresh block of the source's size, then element by element.\<close>

fun ha_copy_loop :: "nat \<Rightarrow> nat \<Rightarrow> 'a heaparray \<Rightarrow> 'a heaparray \<Rightarrow> 'a heaparray option" where
  "ha_copy_loop i 0 arr a = Some a"
| "ha_copy_loop i (Suc n) arr a =
     do { v \<leftarrow> ha_get arr i; a \<leftarrow> ha_set i v a; ha_copy_loop (Suc i) n arr a }"

definition ha_assign :: "(nat \<Rightarrow> 'a) \<Rightarrow> 'a heaparray \<Rightarrow> 'a heaparray \<Rightarrow> 'a heaparray option" where
  "ha_assign junk arr a = ha_copy_loop 0 (ha_size arr) arr (ha_reset (ha_size arr) junk a)"

text \<open>\<^verbatim>\<open>operator==\<close> runs over the size of its argument and returns at the first difference.\<close>

fun ha_eq_loop :: "nat \<Rightarrow> nat \<Rightarrow> 'a heaparray \<Rightarrow> 'a heaparray \<Rightarrow> bool option" where
  "ha_eq_loop i 0 a arr = Some True"
| "ha_eq_loop i (Suc n) a arr =
     do { v \<leftarrow> ha_get a i; w \<leftarrow> ha_get arr i;
          if v \<noteq> w then Some False else ha_eq_loop (Suc i) n a arr }"

definition ha_eq :: "'a heaparray \<Rightarrow> 'a heaparray \<Rightarrow> bool option" where
  "ha_eq a arr = ha_eq_loop 0 (ha_size arr) a arr"

fun ha_clear_loop :: "nat \<Rightarrow> nat \<Rightarrow> 'a::zero heaparray \<Rightarrow> 'a heaparray option" where
  "ha_clear_loop i 0 a = Some a"
| "ha_clear_loop i (Suc n) a = do { a \<leftarrow> ha_set i 0 a; ha_clear_loop (Suc i) n a }"

definition ha_clear :: "'a::zero heaparray \<Rightarrow> 'a heaparray option" where
  "ha_clear a = ha_clear_loop 0 (ha_len a) a"

text \<open>
  \<^verbatim>\<open>std::fill\<close> over the iterators \<^verbatim>\<open>begin() + start\<close> and \<^verbatim>\<open>begin() + end\<close>: the index runs up until the
  iterators are equal. From \<open>j < i\<close> the loop runs out of the array.
\<close>

function ha_fill :: "nat \<Rightarrow> nat \<Rightarrow> 'a \<Rightarrow> 'a heaparray \<Rightarrow> 'a heaparray option" where
  "ha_fill i j v a =
     (if i = j then Some a
      else if i < j then do { a \<leftarrow> ha_set i v a; ha_fill (Suc i) j v a }
      else None)"
  by pat_completeness auto
termination
  by (relation "measure (\<lambda>(i, j, v, a). j - i)") auto

declare ha_fill.simps [simp del]

section \<open>Iterators\<close>

text \<open>
  An iterator is the address of its array and an index of type \<^verbatim>\<open>std::size_t\<close>, whose arithmetic wraps
  around. The postfix operators and \<^verbatim>\<open>operator->\<close> are ill-typed in the source, so that no program can use
  them, and are left out.
\<close>

record iterator =
  it_arr :: nat
  it_index :: nat

definition it_begin :: "nat \<Rightarrow> iterator" where
  "it_begin this = \<lparr>it_arr = this, it_index = 0\<rparr>"

definition it_end :: "nat \<Rightarrow> 'a heaparray \<Rightarrow> iterator" where
  "it_end this a = \<lparr>it_arr = this, it_index = ha_len a\<rparr>"

definition it_plus :: "iterator \<Rightarrow> nat \<Rightarrow> iterator" where
  "it_plus it n = it\<lparr>it_index := (it_index it + n) mod 2 ^ 64\<rparr>"

definition it_minus :: "iterator \<Rightarrow> nat \<Rightarrow> iterator" where
  "it_minus it n = it\<lparr>it_index := nat ((int (it_index it) - int n) mod 2 ^ 64)\<rparr>"

definition it_inc :: "iterator \<Rightarrow> iterator" where
  "it_inc it = it_plus it 1"

definition it_dec :: "iterator \<Rightarrow> iterator" where
  "it_dec it = it_minus it 1"

definition it_sum :: "iterator \<Rightarrow> iterator \<Rightarrow> nat" where
  "it_sum it i = (it_index it + it_index i) mod 2 ^ 64"

definition it_diff :: "iterator \<Rightarrow> iterator \<Rightarrow> nat" where
  "it_diff it i = nat ((int (it_index it) - int (it_index i)) mod 2 ^ 64)"

definition it_eq :: "iterator \<Rightarrow> iterator \<Rightarrow> bool" where
  "it_eq it i \<longleftrightarrow> it_arr it = it_arr i \<and> it_index it = it_index i"

definition it_neq :: "iterator \<Rightarrow> iterator \<Rightarrow> bool" where
  "it_neq it i \<longleftrightarrow> it_arr it \<noteq> it_arr i \<or> it_index it \<noteq> it_index i"

definition it_less :: "iterator \<Rightarrow> iterator \<Rightarrow> bool" where
  "it_less it i \<longleftrightarrow> it_index it < it_index i"

definition it_deref :: "(nat \<Rightarrow> 'a heaparray) \<Rightarrow> iterator \<Rightarrow> 'a option" where
  "it_deref heap it = ha_get (heap (it_arr it)) (it_index it)"

section \<open>What the loops compute\<close>

lemma ha_get_new [simp]: "ha_get (ha_new l junk) i = (if i < l then Some (junk i) else None)"
  by (simp add: ha_get_def ha_new_def)

lemma ha_len_new [simp]: "ha_len (ha_new l junk) = l"
  by (simp add: ha_new_def)

lemma ha_set_in [simp]:
  "i < ha_len a \<Longrightarrow> ha_set i v a = Some (a\<lparr>ha_elems := (ha_elems a)(i := v)\<rparr>)"
  by (simp add: ha_set_def)

lemma ha_fill_eq:
  "i \<le> j \<Longrightarrow> j \<le> ha_len a \<Longrightarrow>
   ha_fill i j v a = Some (a\<lparr>ha_elems := (\<lambda>k. if i \<le> k \<and> k < j then v else ha_elems a k)\<rparr>)"
proof (induction i j v a rule: ha_fill.induct)
  case (1 i j v a)
  show ?case
  proof (cases "i = j")
    case True
    then show ?thesis by (subst ha_fill.simps) simp
  next
    case False
    let ?a = "a\<lparr>ha_elems := (ha_elems a)(i := v)\<rparr>"
    have "ha_fill (Suc i) j v ?a =
        Some (?a\<lparr>ha_elems := (\<lambda>k. if Suc i \<le> k \<and> k < j then v else ha_elems ?a k)\<rparr>)"
      using "1.IH" [of ?a] False "1.prems" by simp
    moreover have "(\<lambda>k. if Suc i \<le> k \<and> k < j then v else ha_elems ?a k) =
        (\<lambda>k. if i \<le> k \<and> k < j then v else ha_elems a k)"
      using False "1.prems" by (auto simp: fun_eq_iff)
    ultimately show ?thesis
      using False "1.prems" by (subst ha_fill.simps) simp
  qed
qed

lemma ha_fill_outside: "i < j \<Longrightarrow> ha_len a < j \<Longrightarrow> ha_fill i j v a = None"
proof (induction i j v a rule: ha_fill.induct)
  case (1 i j v a)
  show ?case
  proof (cases "i < ha_len a")
    case True
    let ?a = "a\<lparr>ha_elems := (ha_elems a)(i := v)\<rparr>"
    have "ha_fill (Suc i) j v ?a = None"
      using "1.IH" [of ?a] True "1.prems" by simp
    then show ?thesis using True "1.prems" by (subst ha_fill.simps) simp
  next
    case False
    then show ?thesis using "1.prems" by (subst ha_fill.simps) (simp add: ha_set_def)
  qed
qed

lemma ha_store_eq:
  "i + length xs \<le> ha_len a \<Longrightarrow>
   ha_store i xs a = Some (a\<lparr>ha_elems :=
     (\<lambda>k. if i \<le> k \<and> k < i + length xs then xs ! (k - i) else ha_elems a k)\<rparr>)"
proof (induction xs arbitrary: i a)
  case Nil
  then show ?case by simp
next
  case (Cons x xs)
  have "(\<lambda>k. if Suc i \<le> k \<and> k < Suc i + length xs then xs ! (k - Suc i)
             else ((ha_elems a)(i := x)) k) =
        (\<lambda>k. if i \<le> k \<and> k < i + length (x # xs) then (x # xs) ! (k - i) else ha_elems a k)"
    by (auto simp: fun_eq_iff nth_Cons' Suc_diff_Suc)
  then show ?case using Cons.prems by (simp add: Cons.IH cong: if_cong)
qed

lemma ha_copy_loop_eq:
  "i + n \<le> ha_len a \<Longrightarrow> i + n \<le> ha_len arr \<Longrightarrow>
   ha_copy_loop i n arr a = Some (a\<lparr>ha_elems :=
     (\<lambda>k. if i \<le> k \<and> k < i + n then ha_elems arr k else ha_elems a k)\<rparr>)"
proof (induction n arbitrary: i a)
  case 0
  then show ?case by simp
next
  case (Suc n)
  have "(\<lambda>k. if Suc i \<le> k \<and> k < Suc i + n then ha_elems arr k
             else ((ha_elems a)(i := ha_elems arr i)) k) =
        (\<lambda>k. if i \<le> k \<and> k < i + Suc n then ha_elems arr k else ha_elems a k)"
    by (auto simp: fun_eq_iff)
  then show ?case using Suc.prems by (simp add: Suc.IH ha_get_def cong: if_cong)
qed

lemma ha_assign_get:
  "\<exists>a'. ha_assign junk arr a = Some a' \<and> ha_size a' = ha_size arr \<and> (\<forall>i. ha_get a' i = ha_get arr i)"
  by (simp add: ha_assign_def ha_copy_loop_eq ha_reset_def ha_size_def ha_get_def)

lemma ha_eq_loop_iff:
  "i + n \<le> ha_len a \<Longrightarrow> i + n \<le> ha_len arr \<Longrightarrow>
   ha_eq_loop i n a arr = Some (\<forall>k. i \<le> k \<and> k < i + n \<longrightarrow> ha_elems a k = ha_elems arr k)"
proof (induction n arbitrary: i)
  case 0
  then show ?case by simp
next
  case (Suc n)
  then show ?case by (simp add: ha_get_def all_range_Suc del: add_Suc_right)
qed

lemma ha_clear_loop_eq:
  "i + n \<le> ha_len a \<Longrightarrow>
   ha_clear_loop i n a = Some (a\<lparr>ha_elems := (\<lambda>k. if i \<le> k \<and> k < i + n then 0 else ha_elems a k)\<rparr>)"
proof (induction n arbitrary: i a)
  case 0
  then show ?case by simp
next
  case (Suc n)
  have "(\<lambda>k. if Suc i \<le> k \<and> k < Suc i + n then 0 else ((ha_elems a)(i := 0)) k) =
        (\<lambda>k. if i \<le> k \<and> k < i + Suc n then 0 else ha_elems a k)"
    by (auto simp: fun_eq_iff)
  then show ?case using Suc.prems by (simp add: Suc.IH cong: if_cong)
qed

text \<open>
  \<^verbatim>\<open>operator==\<close> of \<^verbatim>\<open>HeapArray\<close> decides whether the array starts with the contents of its
  argument; it never compares the two sizes.
\<close>

theorem ha_eq_prefix:
  assumes "ha_size arr \<le> ha_size a"
  shows "ha_eq a arr = Some (\<forall>k < ha_size arr. ha_get a k = ha_get arr k)"
proof -
  have "ha_eq a arr = Some (\<forall>k < ha_len arr. ha_elems a k = ha_elems arr k)"
    using assms by (simp add: ha_eq_def ha_size_def ha_eq_loop_iff)
  moreover have "(\<forall>k < ha_size arr. ha_get a k = ha_get arr k) \<longleftrightarrow>
      (\<forall>k < ha_len arr. ha_elems a k = ha_elems arr k)"
    using assms by (auto simp: ha_get_def ha_size_def)
  ultimately show ?thesis by simp
qed

theorem ha_eq_prefix_witness:
  "ha_eq (ha_new 3 (\<lambda>_. 7 :: nat)) (ha_new 1 (\<lambda>_. 7)) = Some True"
proof -
  have "ha_size (ha_new 1 (\<lambda>_. 7 :: nat)) \<le> ha_size (ha_new 3 (\<lambda>_. 7 :: nat))"
    by (simp add: ha_size_def)
  from ha_eq_prefix [OF this] show ?thesis by (simp add: ha_size_def)
qed

section \<open>Walking through an array\<close>

text \<open>The loop \<^verbatim>\<open>for (it = begin(); it != end(); ++it)\<close>, at most \<open>n\<close> turns.\<close>

fun it_walk :: "nat \<Rightarrow> (nat \<Rightarrow> 'a heaparray) \<Rightarrow> iterator \<Rightarrow> iterator \<Rightarrow> 'a list option" where
  "it_walk n heap it stop =
     (if it_eq it stop then Some []
      else case n of
             0 \<Rightarrow> None
           | Suc n \<Rightarrow> do { x \<leftarrow> it_deref heap it; xs \<leftarrow> it_walk n heap (it_inc it) stop; Some (x # xs) })"

declare it_walk.simps [simp del]

lemma it_neq_eq: "it_neq it i \<longleftrightarrow> \<not> it_eq it i"
  by (auto simp: it_neq_def it_eq_def)

lemma it_plus_minus:
  assumes "it_index it < 2 ^ 64"
  shows "it_minus (it_plus it n) n = it"
proof -
  have "(int ((it_index it + n) mod 2 ^ 64) - int n) mod 2 ^ 64 = int (it_index it) mod 2 ^ 64"
    by (simp add: zmod_int mod_simps)
  then show ?thesis using assms by (simp add: it_minus_def it_plus_def)
qed

text \<open>From \<^verbatim>\<open>begin()\<close> to \<^verbatim>\<open>end()\<close> every element is visited once, in order.\<close>

lemma it_walk_all:
  assumes "ha_len (heap p) < 2 ^ 64"
  shows "it_walk (ha_len (heap p)) heap (it_begin p) (it_end p (heap p)) = Some (map (ha_elems (heap p)) [0..<ha_len (heap p)])"
proof -
  have "it_walk n heap \<lparr>it_arr = p, it_index = i\<rparr> (it_end p (heap p)) = Some (map (ha_elems (heap p)) [i..<ha_len (heap p)])"
    if "i + n = ha_len (heap p)" for i n
    using that
  proof (induction n arbitrary: i)
    case 0
    then show ?case by (simp add: it_walk.simps it_eq_def it_end_def)
  next
    case (Suc n)
    then have "i < ha_len (heap p)" "Suc i + n = ha_len (heap p)" by simp_all
    then show ?case
      using Suc.IH [of "Suc i"] assms
      by (simp add: it_walk.simps [of "Suc n"] it_eq_def it_end_def it_deref_def ha_get_def it_inc_def it_plus_def upt_conv_Cons)
  qed
  then show ?thesis by (simp add: it_begin_def)
qed

end
