(* ===== verification/Bus.thy ===== *)
theory Bus
  imports HeapArray
begin

text \<open>
  The bus of \<^verbatim>\<open>emu/core/bus.hpp\<close> and \<^verbatim>\<open>emu/core/bus.cpp\<close>: a table from addresses to small
  identifiers, and for each identifier a reader and a writer. The readers and writers are
  closures in the program; the model keeps them abstract (types \<open>'r\<close> and \<open>'w\<close>) and the
  emulator supplies what they do. An empty \<^verbatim>\<open>std::function\<close> is \<open>None\<close>.

  The theorems: mapping a region makes exactly that region answer to the new handlers
  (refinement of a plain map from addresses to handlers), remapping replaces the handlers of
  a whole region, and the search for an identifier in a full bus leaves the table of flags.
\<close>

section \<open>The class\<close>

definition TABSIZ :: nat where "TABSIZ = 16"

record ('r, 'w) bus =
  lookup_ids :: "nat heaparray"
  readtab :: "nat \<Rightarrow> 'r option"
  writetab :: "nat \<Rightarrow> 'w option"
  assigned :: "nat \<Rightarrow> bool"

text \<open>The diagnostics of the class; every operation returns one beside the new state.\<close>

datatype bus_msg = BusOk | MappingExhausted | NotRealStart uint16 | NotRealEnd uint32

definition bus_reset :: "nat \<Rightarrow> (nat \<Rightarrow> nat) \<Rightarrow> ('r, 'w) bus \<Rightarrow> ('r, 'w) bus" where
  "bus_reset newsize junk b =
     b\<lparr>lookup_ids := ha_reset newsize junk (lookup_ids b), assigned := (\<lambda>_. False)\<rparr>"

definition bus_new :: "uint32 \<Rightarrow> (nat \<Rightarrow> nat) \<Rightarrow> ('r, 'w) bus" where
  "bus_new size_arg junk = bus_reset (unat size_arg) junk
     \<lparr>lookup_ids = ha_default junk, readtab = Map.empty, writetab = Map.empty,
      assigned = (\<lambda>_. False)\<rparr>"

definition bus_move :: "(nat \<Rightarrow> nat) \<Rightarrow> ('r, 'w) bus \<Rightarrow> ('r, 'w) bus \<Rightarrow> ('r, 'w) bus option" where
  "bus_move junk b this =
     do { l \<leftarrow> ha_assign junk (lookup_ids b) (lookup_ids this);
          Some (this\<lparr>lookup_ids := l,
            readtab := (\<lambda>i. if i < TABSIZ then readtab b i else readtab this i),
            writetab := (\<lambda>i. if i < TABSIZ then writetab b i else writetab this i),
            assigned := (\<lambda>i. if i < TABSIZ then assigned b i else assigned this i)\<rparr>) }"

text \<open>
  The search loop of \<^verbatim>\<open>Bus::map\<close>: it reads \<^verbatim>\<open>assigned[ident]\<close> before it compares the incremented
  identifier with \<^verbatim>\<open>TABSIZ\<close>.
\<close>

datatype search = Found nat | Exhausted

function map_search :: "(nat \<Rightarrow> bool) \<Rightarrow> nat \<Rightarrow> search option" where
  "map_search flags ident =
     (if \<not> ident < TABSIZ then None
      else if flags ident then (if ident + 1 > TABSIZ then Some Exhausted else map_search flags (ident + 1))
      else Some (Found ident))"
  by pat_completeness auto
termination
  by (relation "measure (\<lambda>(flags, ident). TABSIZ - ident)") auto

declare map_search.simps [simp del]

definition bus_map ::
  "uint16 \<Rightarrow> uint32 \<Rightarrow> 'r \<Rightarrow> 'w \<Rightarrow> ('r, 'w) bus \<Rightarrow> (bus_msg \<times> ('r, 'w) bus) option" where
  "bus_map start end reader writer b =
     do { res \<leftarrow> map_search (assigned b) 0;
          case res of
            Exhausted \<Rightarrow> Some (MappingExhausted, b)
          | Found ident \<Rightarrow>
              do { l \<leftarrow> ha_fill (unat start) (unat end) ident (lookup_ids b);
                   Some (BusOk, b\<lparr>assigned := (assigned b)(ident := True),
                                  readtab := (readtab b)(ident := Some reader),
                                  writetab := (writetab b)(ident := Some writer),
                                  lookup_ids := l\<rparr>) } }"

definition bus_remap ::
  "uint16 \<Rightarrow> uint32 \<Rightarrow> 'r \<Rightarrow> 'w \<Rightarrow> ('r, 'w) bus \<Rightarrow> (bus_msg \<times> ('r, 'w) bus) option" where
  "bus_remap start end reader writer b =
     do { ident \<leftarrow> ha_get (lookup_ids b) (unat start);
          before \<leftarrow> (if start \<noteq> 0
                     then do { p \<leftarrow> ha_get (lookup_ids b) (unat (start - 1)); Some (p = ident) }
                     else Some False);
          if before then Some (NotRealStart start, b)
          else do { last \<leftarrow> ha_get (lookup_ids b) (unat (end - 1));
                    if last \<noteq> ident then Some (NotRealEnd end, b)
                    else if ident < TABSIZ
                    then Some (BusOk, b\<lparr>readtab := (readtab b)(ident := Some reader),
                                       writetab := (writetab b)(ident := Some writer)\<rparr>)
                    else None } }"

text \<open>Reading and writing look the handler up; running it is up to the owner of the closures.\<close>

definition reader_of :: "('r, 'w) bus \<Rightarrow> uint16 \<Rightarrow> 'r option" where
  "reader_of b addr =
     do { ident \<leftarrow> ha_get (lookup_ids b) (unat addr); if ident < TABSIZ then readtab b ident else None }"

definition writer_of :: "('r, 'w) bus \<Rightarrow> uint16 \<Rightarrow> 'w option" where
  "writer_of b addr =
     do { ident \<leftarrow> ha_get (lookup_ids b) (unat addr); if ident < TABSIZ then writetab b ident else None }"

definition bus_read :: "('r \<Rightarrow> uint16 \<Rightarrow> 'x option) \<Rightarrow> ('r, 'w) bus \<Rightarrow> uint16 \<Rightarrow> 'x option" where
  "bus_read run b addr = do { f \<leftarrow> reader_of b addr; run f addr }"

definition bus_write ::
  "('w \<Rightarrow> uint16 \<Rightarrow> uint8 \<Rightarrow> 'x option) \<Rightarrow> ('r, 'w) bus \<Rightarrow> uint16 \<Rightarrow> uint8 \<Rightarrow> 'x option" where
  "bus_write run b addr data = do { f \<leftarrow> writer_of b addr; run f addr data }"

definition bus_size :: "('r, 'w) bus \<Rightarrow> nat" where
  "bus_size b = ha_size (lookup_ids b)"

section \<open>The search for a free identifier\<close>

lemma map_search_Found:
  "map_search flags i = Some (Found j) \<Longrightarrow> i \<le> j \<and> j < TABSIZ \<and> \<not> flags j"
  by (induction flags i rule: map_search.induct)
     (subst (asm) (2) map_search.simps, auto split: if_splits)

lemma map_search_free:
  "i \<le> j \<Longrightarrow> j < TABSIZ \<Longrightarrow> \<not> flags j \<Longrightarrow> \<exists>k. map_search flags i = Some (Found k)"
proof (induction flags i rule: map_search.induct)
  case (1 flags i)
  show ?case
  proof (cases "flags i")
    case True
    with "1.prems" have "i \<noteq> j" by auto
    with "1.prems" have "i + 1 \<le> j" by simp
    with "1.IH" True "1.prems" obtain k where "map_search flags (i + 1) = Some (Found k)" by force
    with True "1.prems" show ?thesis by (subst map_search.simps) simp
  next
    case False
    with "1.prems" show ?thesis by (subst map_search.simps) simp
  qed
qed

lemma map_search_full:
  "(\<forall>j. i \<le> j \<and> j < TABSIZ \<longrightarrow> flags j) \<Longrightarrow> map_search flags i = None"
  by (induction flags i rule: map_search.induct) (subst map_search.simps, auto)

section \<open>Mapping refines a map from addresses to handlers\<close>

text \<open>
  \<open>mapped M b\<close>: every address of \<open>M\<close> is inside the table and holds an identifier in use that has
  both handlers. Addresses outside \<open>M\<close> hold whatever the allocation left there.
\<close>

definition mapped :: "nat set \<Rightarrow> ('r, 'w) bus \<Rightarrow> bool" where
  "mapped M b \<longleftrightarrow> (\<forall>a \<in> M. a < bus_size b \<and>
     (let ident = ha_elems (lookup_ids b) a
      in ident < TABSIZ \<and> assigned b ident \<and> readtab b ident \<noteq> None \<and> writetab b ident \<noteq> None))"

text \<open>The bus after a region was given to the handlers \<open>r\<close> and \<open>w\<close> under one identifier.\<close>

definition region_bus ::
  "uint16 \<Rightarrow> uint32 \<Rightarrow> nat \<Rightarrow> 'r \<Rightarrow> 'w \<Rightarrow> ('r, 'w) bus \<Rightarrow> ('r, 'w) bus" where
  "region_bus start end ident r w b = b\<lparr>assigned := (assigned b)(ident := True),
     readtab := (readtab b)(ident := Some r), writetab := (writetab b)(ident := Some w),
     lookup_ids := (lookup_ids b)\<lparr>ha_elems :=
       (\<lambda>k. if unat start \<le> k \<and> k < unat end then ident else ha_elems (lookup_ids b) k)\<rparr>\<rparr>"

lemma bus_map_Ok:
  assumes "map_search (assigned b) 0 = Some (Found ident)"
    and "unat start \<le> unat end" "unat end \<le> bus_size b"
  shows "bus_map start end r w b = Some (BusOk, region_bus start end ident r w b)"
  using assms by (simp add: bus_map_def ha_fill_eq bus_size_def ha_size_def region_bus_def)

lemma bus_map_OkE:
  assumes "bus_map start end r w b = Some (BusOk, b')"
    and "unat start \<le> unat end" "unat end \<le> bus_size b"
  obtains ident where "ident < TABSIZ" "\<not> assigned b ident"
    "b' = region_bus start end ident r w b"
proof -
  from assms(1) obtain ident where s: "map_search (assigned b) 0 = Some (Found ident)"
    by (auto simp: bus_map_def split: search.splits Option.bind_splits)
  show thesis
    by (rule that [of ident])
       (use map_search_Found [OF s] bus_map_Ok [OF s assms(2,3), of r w] assms(1) in auto)
qed

lemma bus_map_mapped:
  assumes "mapped M b" "bus_map start end r w b = Some (BusOk, b')"
    and "unat start \<le> unat end" "unat end \<le> bus_size b"
  shows "mapped (M \<union> {unat start..<unat end}) b' \<and> bus_size b' = bus_size b"
proof -
  obtain ident where "ident < TABSIZ" "\<not> assigned b ident"
    and b': "b' = region_bus start end ident r w b"
    using assms(2-4) by (rule bus_map_OkE)
  then show ?thesis
    using assms(1,3,4) by (auto simp: region_bus_def mapped_def Let_def bus_size_def ha_size_def)
qed

lemma reader_of_mapped:
  "mapped M b \<Longrightarrow> unat a \<in> M \<Longrightarrow> reader_of b a = readtab b (ha_elems (lookup_ids b) (unat a))"
  by (auto simp: reader_of_def mapped_def Let_def ha_get_def bus_size_def ha_size_def)

lemma writer_of_mapped:
  "mapped M b \<Longrightarrow> unat a \<in> M \<Longrightarrow> writer_of b a = writetab b (ha_elems (lookup_ids b) (unat a))"
  by (auto simp: writer_of_def mapped_def Let_def ha_get_def bus_size_def ha_size_def)

lemma mapped_not_free:
  "mapped M b \<Longrightarrow> a \<in> M \<Longrightarrow> \<not> assigned b ident \<Longrightarrow> ha_elems (lookup_ids b) a \<noteq> ident"
  by (auto simp: mapped_def Let_def)

lemma bus_map_dispatch:
  assumes "mapped M b" "bus_map start end r w b = Some (BusOk, b')"
    and "unat start \<le> unat end" "unat end \<le> bus_size b"
    and a: "unat a \<in> M \<union> {unat start..<unat end}"
  shows "(reader_of b' a, writer_of b' a) =
      (if unat a \<in> {unat start..<unat end} then (Some r, Some w) else (reader_of b a, writer_of b a))"
proof -
  obtain ident where free: "\<not> assigned b ident"
    and b': "b' = region_bus start end ident r w b"
    using assms(2-4) by (rule bus_map_OkE)
  have m: "mapped (M \<union> {unat start..<unat end}) b'"
    using bus_map_mapped [OF assms(1-4)] by simp
  have "reader_of b' a = readtab b' (ha_elems (lookup_ids b') (unat a))"
    "writer_of b' a = writetab b' (ha_elems (lookup_ids b') (unat a))"
    using reader_of_mapped [OF m a] writer_of_mapped [OF m a] by simp_all
  moreover have "unat a \<in> M \<Longrightarrow> ha_elems (lookup_ids b) (unat a) \<noteq> ident"
    using mapped_not_free [OF assms(1) _ free] .
  ultimately show ?thesis
    using a reader_of_mapped [OF assms(1), of a] writer_of_mapped [OF assms(1), of a]
    by (auto simp: b' region_bus_def)
qed

lemma bus_map_succeeds:
  assumes "j < TABSIZ" "\<not> assigned b j" "unat start \<le> unat end" "unat end \<le> bus_size b"
  shows "\<exists>b'. bus_map start end r w b = Some (BusOk, b')"
proof -
  obtain k where "map_search (assigned b) 0 = Some (Found k)"
    using map_search_free [of 0 j "assigned b"] assms(1,2) by auto
  from bus_map_Ok [OF this assms(3,4)] show ?thesis by blast
qed

text \<open>Identifiers are handed out in order: with the first \<open>k\<close> in use, the next mapping gets \<open>k\<close>.\<close>

lemma map_search_next: "i \<le> k \<Longrightarrow> k < TABSIZ \<Longrightarrow> map_search (\<lambda>j. j < k) i = Some (Found k)"
proof (induction "k - i" arbitrary: i)
  case 0
  then show ?case by (subst map_search.simps) auto
next
  case (Suc d)
  then have "map_search (\<lambda>j. j < k) (i + 1) = Some (Found k)" by auto
  with Suc show ?case by (subst map_search.simps) auto
qed

definition uses :: "nat \<Rightarrow> ('r, 'w) bus \<Rightarrow> bool" where
  "uses k b \<longleftrightarrow> (\<forall>j. assigned b j = (j < k))"

lemma bus_map_next:
  assumes "uses k b" "k < TABSIZ" "unat start \<le> unat end" "unat end \<le> bus_size b"
  shows "bus_map start end r w b = Some (BusOk, region_bus start end k r w b)"
proof -
  have "assigned b = (\<lambda>j. j < k)" using assms(1) by (auto simp: uses_def)
  with map_search_next [of 0 k] assms show ?thesis by (intro bus_map_Ok) simp_all
qed

lemma region_bus_size [simp]: "bus_size (region_bus start end k r w b) = bus_size b"
  by (simp add: region_bus_def bus_size_def ha_size_def)

lemma uses_region: "uses k b \<Longrightarrow> uses (Suc k) (region_bus start end k r w b)"
  unfolding uses_def by (simp add: region_bus_def less_Suc_eq)

lemma uses_new: "uses 0 (bus_new n junk)"
  by (simp add: uses_def bus_new_def bus_reset_def)

text \<open>
  C11: \<^verbatim>\<open>Bus::map\<close> on a bus with a free identifier succeeds, and afterwards the addresses of the
  region answer to the new handlers while every address mapped before keeps its own.
\<close>

theorem bus_map_refines:
  assumes "mapped M b" "j < TABSIZ" "\<not> assigned b j"
    and "unat start \<le> unat end" "unat end \<le> bus_size b"
  shows "\<exists>b'. bus_map start end r w b = Some (BusOk, b') \<and>
     mapped (M \<union> {unat start..<unat end}) b' \<and>
     (\<forall>a. unat a \<in> M \<union> {unat start..<unat end} \<longrightarrow>
        (reader_of b' a, writer_of b' a) =
        (if unat a \<in> {unat start..<unat end} then (Some r, Some w)
         else (reader_of b a, writer_of b a)))"
proof -
  obtain b' where b': "bus_map start end r w b = Some (BusOk, b')"
    using bus_map_succeeds [OF assms(2-5)] by blast
  with bus_map_mapped [OF assms(1) b' assms(4,5)] bus_map_dispatch [OF assms(1) b' assms(4,5)]
  show ?thesis by blast
qed

theorem bus_map_refines_witness:
  "\<exists>b'. bus_map 0 0x2000 ''ram'' ''ram'' (bus_new 0x10000 (\<lambda>_. 99)) = Some (BusOk, b') \<and>
     reader_of b' 0x1234 = Some ''ram''"
proof -
  have "mapped {} (bus_new 0x10000 (\<lambda>_. 99))" by (simp add: mapped_def)
  from bus_map_refines [OF this, of 0 0 "0x2000" "''ram''" "''ram''"]
  show ?thesis
    by (fastforce simp: bus_new_def bus_reset_def bus_size_def ha_size_def ha_reset_def TABSIZ_def)
qed

text \<open>
  C29: a seventeenth mapping is not reported as exhausted: the search of \<^verbatim>\<open>Bus::map\<close> compares with
  \<^verbatim>\<open>> TABSIZ\<close>, so it first reads the flag one past the end of \<^verbatim>\<open>assigned\<close>.
\<close>

theorem bus_map_full_out_of_range:
  assumes "\<forall>j < TABSIZ. assigned b j"
  shows "bus_map start end r w b = None"
  using assms map_search_full [of 0 "assigned b"] by (simp add: bus_map_def)

theorem bus_map_full_out_of_range_witness:
  "bus_map 0 16 () () ((bus_new 16 (\<lambda>_. 0))\<lparr>assigned := (\<lambda>_. True)\<rparr>) = None"
  by (rule bus_map_full_out_of_range) simp

section \<open>Remapping\<close>

text \<open>
  \<^verbatim>\<open>Bus::remap\<close> of a region mapped as a whole replaces exactly the handlers of that region.
\<close>

theorem bus_remap_replaces:
  assumes "bus_remap start end r w b = Some (BusOk, b')" "mapped M b" "unat a \<in> M"
  shows "(reader_of b' a, writer_of b' a) =
     (if ha_get (lookup_ids b) (unat a) = ha_get (lookup_ids b) (unat start)
      then (Some r, Some w) else (reader_of b a, writer_of b a))"
proof -
  from assms(1) obtain ident where i: "ha_get (lookup_ids b) (unat start) = Some ident"
    and b': "b' = b\<lparr>readtab := (readtab b)(ident := Some r), writetab := (writetab b)(ident := Some w)\<rparr>"
    by (auto simp: bus_remap_def split: Option.bind_splits if_splits)
  have m: "mapped M b'" using assms(2) by (auto simp: b' mapped_def Let_def bus_size_def)
  have in_range: "unat a < ha_len (lookup_ids b)"
    using assms(2,3) by (auto simp: mapped_def bus_size_def ha_size_def)
  have "reader_of b' a = readtab b' (ha_elems (lookup_ids b') (unat a))"
    "writer_of b' a = writetab b' (ha_elems (lookup_ids b') (unat a))"
    using reader_of_mapped [OF m assms(3)] writer_of_mapped [OF m assms(3)] by simp_all
  then show ?thesis
    using i in_range reader_of_mapped [OF assms(2,3)] writer_of_mapped [OF assms(2,3)]
    by (simp add: b' ha_get_def split: if_splits)
qed

definition two_regions :: "(string, string) bus" where
  "two_regions = region_bus 0x2000 0x4000 1 ''nt'' ''nt'' (region_bus 0 0x2000 0 ''chr'' ''chr'' (bus_new 0x4000 (\<lambda>_. 0)))"

theorem bus_remap_replaces_witness:
  "\<exists>b'. bus_remap 0x2000 0x4000 ''new'' ''new'' two_regions = Some (BusOk, b') \<and>
     reader_of b' 0x2345 = Some ''new'' \<and> reader_of b' 0x1234 = Some ''chr''"
proof -
  have e: "ha_elems (lookup_ids two_regions) i = (if 0x2000 \<le> i \<and> i < 0x4000 then 1 else 0)" for i
    by (simp add: two_regions_def region_bus_def bus_new_def bus_reset_def ha_reset_def)
  have g: "ha_len (lookup_ids two_regions) = 0x4000"
    by (simp add: two_regions_def region_bus_def bus_new_def bus_reset_def ha_reset_def)
  have m: "mapped {0..<0x4000} two_regions"
    by (auto simp: mapped_def e g bus_size_def ha_size_def TABSIZ_def Let_def)
       (simp_all add: two_regions_def region_bus_def)
  obtain b' where b': "bus_remap 0x2000 0x4000 ''new'' ''new'' two_regions = Some (BusOk, b')"
    by (simp add: bus_remap_def ha_get_def e g TABSIZ_def)
  have r: "reader_of two_regions 0x1234 = Some ''chr''"
    by (simp add: reader_of_def ha_get_def e g TABSIZ_def) (simp add: two_regions_def region_bus_def)
  from bus_remap_replaces [OF b' m, of "0x2345"] bus_remap_replaces [OF b' m, of "0x1234"] b' r
  show ?thesis by (simp add: ha_get_def e g)
qed

end
