(* ===== verification/InstrInfo.thy ===== *)
theory InstrInfo
  imports Prelude
begin

text \<open>
  \<^verbatim>\<open>emu/core/instrinfo.hpp\<close> and \<^verbatim>\<open>emu/core/instrinfo.cpp\<close>: the two-byte register union \<^verbatim>\<open>Reg16\<close>, the
  processor status \<^verbatim>\<open>ProcStatus\<close>, the table of opcodes with their mnemonics and addressing modes,
  the disassembler and the helpers of the debugger that predict branches.

  \<^verbatim>\<open>fmt\<close> is a library outside the repository: the three format specifications the disassembler
  uses are fields of a record \<open>formatter\<close> and every function that prints takes one. The macro
  \<^verbatim>\<open>INSTR_DESC\<close> and the commented-out description table are not expanded anywhere.
\<close>

unbundle bit_operations_syntax

section \<open>Reg16\<close>

text \<open>
  The union of \<^verbatim>\<open>full\<close> with the bytes \<^verbatim>\<open>low\<close>, \<^verbatim>\<open>high\<close> on a little-endian machine: the register is
  the full word, its halves are read and replaced.
\<close>

definition low :: "uint16 \<Rightarrow> uint8" where
  "low r = ucast r"

definition high :: "uint16 \<Rightarrow> uint8" where
  "high r = ucast (drop_bit 8 r)"

definition set_low :: "uint8 \<Rightarrow> uint16 \<Rightarrow> uint16" where
  "set_low v r = (r AND 0xFF00) OR ucast v"

definition set_high :: "uint8 \<Rightarrow> uint16 \<Rightarrow> uint16" where
  "set_high v r = (r AND 0x00FF) OR push_bit 8 (ucast v)"

definition reg16_and :: "uint16 \<Rightarrow> uint16 \<Rightarrow> uint16" where
  "reg16_and val r = r AND val"

definition reg16_or :: "uint16 \<Rightarrow> uint16 \<Rightarrow> uint16" where
  "reg16_or val r = r OR val"

text \<open>The word with the given halves.\<close>

definition mk16 :: "uint8 \<Rightarrow> uint8 \<Rightarrow> uint16" where
  "mk16 h l = push_bit 8 (ucast h) OR ucast l"

lemma half_masks: "(0xFF00 :: uint16) = push_bit 8 (mask 8)" "(0x00FF :: uint16) = mask 8"
  by (simp_all add: mask_eq_exp_minus_1)

lemma bit_low: "bit (low r) n \<longleftrightarrow> n < 8 \<and> bit r n"
  by (auto simp: low_def bit_simps)

lemma bit_high: "bit (high r) n \<longleftrightarrow> n < 8 \<and> bit r (8 + n)"
  by (auto simp: high_def bit_simps)

lemma bit_set_low: "bit (set_low v r) n \<longleftrightarrow> (if n < 8 then bit v n else bit r n)"
  unfolding set_low_def half_masks by (auto simp: bit_simps dest: bit_imp_le_length)

lemma bit_set_high: "bit (set_high v r) n \<longleftrightarrow> (if n < 8 then bit r n else bit v (n - 8))"
  unfolding set_high_def half_masks by (auto simp: bit_simps dest: bit_imp_le_length)

lemma bit_mk16: "bit (mk16 h l) n \<longleftrightarrow> (if n < 8 then bit l n else bit h (n - 8))"
  by (auto simp: mk16_def bit_simps dest: bit_imp_le_length)

lemmas bit_reg16 = bit_low bit_high bit_set_low bit_set_high bit_mk16

lemma low_set_low [simp, reg_simps]: "low (set_low v r) = v"
  and low_set_high [simp, reg_simps]: "low (set_high v r) = low r"
  and high_set_low [simp, reg_simps]: "high (set_low v r) = high r"
  and high_set_high [simp, reg_simps]: "high (set_high v r) = v"
  and low_mk16 [simp, reg_simps]: "low (mk16 v w) = w"
  and high_mk16 [simp, reg_simps]: "high (mk16 v w) = v"
  by (rule bit_word_eqI, auto simp: bit_reg16)+

lemma mk16_high_low [simp, reg_simps]: "mk16 (high r) (low r) = r"
  and set_low_mk16 [simp, reg_simps]: "set_low v (mk16 h l) = mk16 h v"
  and set_high_mk16 [simp, reg_simps]: "set_high v (mk16 h l) = mk16 v l"
  and set_high_set_low [simp, reg_simps]: "set_high h (set_low l r) = mk16 h l"
  and set_low_set_high [simp, reg_simps]: "set_low l (set_high h r) = mk16 h l"
  by (rule bit_word_eqI, auto simp: bit_reg16)+

lemma mk16_inject [simp]: "mk16 h l = mk16 h' l' \<longleftrightarrow> h = h' \<and> l = l'"
  by (metis low_mk16 high_mk16)

lemma unat_mk16: "unat (mk16 h l) = 256 * unat h + unat l"
proof -
  have "mk16 h l = (push_bit 8 (ucast h) + ucast l :: uint16)"
    unfolding mk16_def
    by (rule disjunctive_add [symmetric]) (auto simp: bit_simps dest: bit_imp_le_length)
  moreover have "256 * unat h + unat l < 65536"
    using unat_uint8_less [of h] unat_uint8_less [of l] by linarith
  ultimately show ?thesis
    by (simp add: push_bit_eq_mult unat_word_ariths)
qed

section \<open>ProcStatus\<close>

record procstatus =
  f_carry :: bool
  f_zero :: bool
  f_intdis :: bool
  f_decimal :: bool
  f_breakf :: bool
  f_unused :: bool
  f_ov :: bool
  f_neg :: bool

definition ps_default :: procstatus where
  "ps_default = \<lparr>f_carry = False, f_zero = False, f_intdis = False, f_decimal = False,
     f_breakf = False, f_unused = True, f_ov = False, f_neg = False\<rparr>"

definition ps_to_uint8 :: "procstatus \<Rightarrow> uint8" where
  "ps_to_uint8 ps =
     push_bit 0 (of_bool (f_carry ps)) OR push_bit 1 (of_bool (f_zero ps)) OR
     push_bit 2 (of_bool (f_intdis ps)) OR push_bit 3 (of_bool (f_decimal ps)) OR
     push_bit 4 (of_bool (f_breakf ps)) OR push_bit 5 (of_bool (f_unused ps)) OR
     push_bit 6 (of_bool (f_ov ps)) OR push_bit 7 (of_bool (f_neg ps))"

definition ps_of_uint8 :: "uint8 \<Rightarrow> procstatus" where
  "ps_of_uint8 data =
     \<lparr>f_carry = (data AND 0x01 \<noteq> 0), f_zero = (data AND 0x02 \<noteq> 0),
      f_intdis = (data AND 0x04 \<noteq> 0), f_decimal = (data AND 0x08 \<noteq> 0),
      f_breakf = (data AND 0x10 \<noteq> 0), f_unused = (data AND 0x20 \<noteq> 0),
      f_ov = (data AND 0x40 \<noteq> 0), f_neg = (data AND 0x80 \<noteq> 0)\<rparr>"

definition ps_reset :: "procstatus \<Rightarrow> procstatus" where
  "ps_reset ps = ps\<lparr>f_carry := False, f_zero := False, f_intdis := False, f_decimal := False,
     f_breakf := False, f_ov := False, f_neg := False, f_unused := True\<rparr>"

lemma ps_of_uint8_bits:
  "ps_of_uint8 d = \<lparr>f_carry = bit d 0, f_zero = bit d 1, f_intdis = bit d 2, f_decimal = bit d 3,
     f_breakf = bit d 4, f_unused = bit d 5, f_ov = bit d 6, f_neg = bit d 7\<rparr>"
  unfolding ps_of_uint8_def and_mask_bit ..

lemma bit_ps_to_uint8:
  "bit (ps_to_uint8 ps) 0 = f_carry ps" "bit (ps_to_uint8 ps) 1 = f_zero ps"
  "bit (ps_to_uint8 ps) 2 = f_intdis ps" "bit (ps_to_uint8 ps) 3 = f_decimal ps"
  "bit (ps_to_uint8 ps) 4 = f_breakf ps" "bit (ps_to_uint8 ps) 5 = f_unused ps"
  "bit (ps_to_uint8 ps) 6 = f_ov ps" "bit (ps_to_uint8 ps) 7 = f_neg ps"
  by (simp_all add: ps_to_uint8_def bit_simps)

lemma ps_of_to [simp]: "ps_of_uint8 (ps_to_uint8 ps) = ps"
  unfolding ps_of_uint8_bits bit_ps_to_uint8 by simp

lemma ps_to_of [simp]: "ps_to_uint8 (ps_of_uint8 d) = d"
  by (rule uint8_eqI) (simp_all only: ps_of_uint8_bits bit_ps_to_uint8 procstatus.simps)

section \<open>The table of opcodes\<close>

datatype mode = Impld | Accum | Branch | Imm | Zero | Zerox | Zeroy | Indx | Indy
  | Abs | Absx | Absy | Ind

definition instr_mode :: "(uint8 \<times> string \<times> mode) list" where
  "instr_mode =
  [(0x00, ''brk'', Impld), (0x01, ''ora'', Indx), (0x05, ''ora'', Zero), (0x06, ''asl'', Zero),
   (0x08, ''php'', Impld), (0x09, ''ora'', Imm), (0x0A, ''asl'', Accum), (0x0D, ''ora'', Abs),
   (0x0E, ''asl'', Abs), (0x10, ''bpl'', Branch), (0x11, ''ora'', Indy), (0x15, ''ora'', Zerox),
   (0x16, ''asl'', Zerox), (0x18, ''clc'', Impld), (0x19, ''ora'', Absy), (0x1D, ''ora'', Absx),
   (0x1E, ''asl'', Absx), (0x20, ''jsr'', Abs), (0x21, ''and'', Indx), (0x24, ''bit'', Zero),
   (0x25, ''and'', Zero), (0x26, ''rol'', Zero), (0x28, ''plp'', Impld), (0x29, ''and'', Imm),
   (0x2A, ''rol'', Accum), (0x2C, ''bit'', Abs), (0x2D, ''and'', Abs), (0x2E, ''rol'', Abs),
   (0x30, ''bmi'', Branch), (0x31, ''and'', Indy), (0x35, ''and'', Zerox), (0x36, ''rol'', Zerox),
   (0x38, ''sec'', Impld), (0x39, ''and'', Absy), (0x3D, ''and'', Absx), (0x3E, ''rol'', Absx),
   (0x40, ''rti'', Impld), (0x41, ''eor'', Indx), (0x45, ''eor'', Zero), (0x46, ''lsr'', Zero),
   (0x48, ''pha'', Impld), (0x49, ''eor'', Imm), (0x4A, ''lsr'', Accum), (0x4C, ''jmp'', Abs),
   (0x4D, ''eor'', Abs), (0x4E, ''lsr'', Abs), (0x50, ''bvc'', Branch), (0x51, ''eor'', Indy),
   (0x55, ''eor'', Zerox), (0x56, ''lsr'', Zerox), (0x58, ''cli'', Impld), (0x59, ''eor'', Absy),
   (0x5D, ''eor'', Absx), (0x5E, ''lsr'', Absx), (0x60, ''rts'', Impld), (0x61, ''adc'', Indx),
   (0x65, ''adc'', Zero), (0x66, ''ror'', Zero), (0x68, ''pla'', Impld), (0x69, ''adc'', Imm),
   (0x6A, ''ror'', Accum), (0x6C, ''jmp'', Ind), (0x6D, ''adc'', Abs), (0x6E, ''ror'', Abs),
   (0x70, ''bvs'', Branch), (0x71, ''adc'', Indy), (0x75, ''adc'', Zerox), (0x76, ''ror'', Zerox),
   (0x78, ''sei'', Impld), (0x79, ''adc'', Absy), (0x7D, ''adc'', Absx), (0x7E, ''ror'', Absx),
   (0x81, ''sta'', Indx), (0x84, ''sty'', Zero), (0x85, ''sta'', Zero), (0x86, ''stx'', Zero),
   (0x88, ''dey'', Impld), (0x8A, ''txa'', Impld), (0x8C, ''sty'', Abs), (0x8D, ''sta'', Abs),
   (0x8E, ''stx'', Abs), (0x90, ''bcc'', Branch), (0x91, ''sta'', Indy), (0x94, ''sta'', Zerox),
   (0x95, ''sta'', Zerox), (0x96, ''stx'', Zeroy), (0x98, ''tya'', Impld), (0x99, ''sta'', Absy),
   (0x9A, ''txs'', Impld), (0x9D, ''sta'', Absx), (0xA0, ''ldy'', Imm), (0xA1, ''lda'', Indx),
   (0xA2, ''ldx'', Imm), (0xA4, ''ldy'', Zero), (0xA5, ''lda'', Zero), (0xA6, ''ldx'', Zero),
   (0xA8, ''tay'', Impld), (0xA9, ''lda'', Imm), (0xAA, ''tax'', Impld), (0xAC, ''ldy'', Abs),
   (0xAD, ''lda'', Abs), (0xAE, ''ldx'', Abs), (0xB0, ''bcs'', Branch), (0xB1, ''lda'', Indy),
   (0xB4, ''ldy'', Zerox), (0xB5, ''lda'', Zerox), (0xB6, ''ldx'', Zeroy), (0xB8, ''clv'', Impld),
   (0xB9, ''lda'', Absy), (0xBA, ''tsx'', Impld), (0xBC, ''ldy'', Absx), (0xBD, ''lda'', Absx),
   (0xBE, ''ldx'', Absy), (0xC0, ''cpy'', Imm), (0xC1, ''cmp'', Indx), (0xC4, ''cpy'', Zero),
   (0xC5, ''cmp'', Zero), (0xC6, ''dec'', Zero), (0xC8, ''iny'', Impld), (0xC9, ''cmp'', Imm),
   (0xCA, ''dex'', Impld), (0xCC, ''cpy'', Abs), (0xCD, ''cmp'', Abs), (0xCE, ''dec'', Abs),
   (0xD0, ''bne'', Branch), (0xD1, ''cmp'', Indy), (0xD5, ''cmp'', Zerox), (0xD6, ''dec'', Zerox),
   (0xD8, ''cld'', Impld), (0xD9, ''cmp'', Absy), (0xDD, ''cmp'', Absx), (0xDE, ''dec'', Absx),
   (0xE0, ''cpx'', Imm), (0xE1, ''sbc'', Indx), (0xE4, ''cpx'', Zero), (0xE5, ''sbc'', Zero),
   (0xE6, ''inc'', Zero), (0xE8, ''inx'', Impld), (0xE9, ''sbc'', Imm), (0xEA, ''nop'', Impld),
   (0xEC, ''cpx'', Abs), (0xED, ''sbc'', Abs), (0xEE, ''inc'', Abs), (0xF0, ''beq'', Branch),
   (0xF1, ''sbc'', Indy), (0xF5, ''sbc'', Zerox), (0xF6, ''inc'', Zerox), (0xF9, ''sbc'', Absy),
   (0xFD, ''sbc'', Absx), (0xFE, ''inc'', Absx)]"

primrec nb :: "mode \<Rightarrow> nat" where
  "nb Impld = 1" | "nb Accum = 1" | "nb Branch = 2" | "nb Imm = 2" | "nb Zero = 2"
| "nb Zerox = 2" | "nb Zeroy = 2" | "nb Indx = 2" | "nb Indy = 2" | "nb Abs = 3"
| "nb Absx = 3" | "nb Absy = 3" | "nb Ind = 3"

definition num_bytes :: "uint8 \<Rightarrow> nat" where
  "num_bytes ident = (case map_of instr_mode ident of None \<Rightarrow> 1 | Some (name, m) \<Rightarrow> nb m)"

section \<open>Disassembling\<close>

text \<open>\<open>{:02X}\<close>, \<open>{:04X}\<close> and \<open>{}\<close> on integers.\<close>

record formatter =
  fmt02X :: "nat \<Rightarrow> string"
  fmt04X :: "nat \<Rightarrow> string"
  fmtdec :: "int \<Rightarrow> string"

primrec disass :: "formatter \<Rightarrow> mode \<Rightarrow> string \<Rightarrow> uint8 \<Rightarrow> uint8 \<Rightarrow> string" where
  "disass F Impld name oplow ophigh = name"
| "disass F Accum name oplow ophigh = name @ '' A''"
| "disass F Branch name oplow ophigh = name @ '' '' @ fmtdec F (sint oplow)"
| "disass F Imm name oplow ophigh = name @ '' #$'' @ fmt02X F (unat oplow)"
| "disass F Zero name oplow ophigh = name @ '' $'' @ fmt02X F (unat oplow)"
| "disass F Zerox name oplow ophigh = name @ '' $'' @ fmt02X F (unat oplow) @ '',x''"
| "disass F Zeroy name oplow ophigh = name @ '' $'' @ fmt02X F (unat oplow) @ '',y''"
| "disass F Indx name oplow ophigh = name @ '' ($'' @ fmt02X F (unat oplow) @ '',x)''"
| "disass F Indy name oplow ophigh = name @ '' ($'' @ fmt02X F (unat oplow) @ ''),y''"
| "disass F Abs name oplow ophigh =
     name @ '' $'' @ fmt02X F (unat ophigh) @ fmt02X F (unat oplow)"
| "disass F Absx name oplow ophigh =
     name @ '' $'' @ fmt02X F (unat ophigh) @ fmt02X F (unat oplow) @ '',x''"
| "disass F Absy name oplow ophigh =
     name @ '' $'' @ fmt02X F (unat ophigh) @ fmt02X F (unat oplow) @ '',y''"
| "disass F Ind name oplow ophigh =
     name @ '' ($'' @ fmt02X F (unat ophigh) @ fmt02X F (unat oplow) @ '')''"

definition disassemble :: "formatter \<Rightarrow> uint8 \<Rightarrow> uint8 \<Rightarrow> uint8 \<Rightarrow> string" where
  "disassemble F instr oplow ophigh =
     (case map_of instr_mode instr of
        None \<Rightarrow> ''[Unknown]''
      | Some (name, m) \<Rightarrow> disass F m name oplow ophigh)"

section \<open>Branches and jumps\<close>

definition is_branch :: "uint8 \<Rightarrow> bool" where
  "is_branch instr \<longleftrightarrow> instr AND 0x1F = 0x10"

definition took_branch :: "uint8 \<Rightarrow> procstatus \<Rightarrow> bool" where
  "took_branch instr ps =
     (if instr = 0x10 then f_neg ps = False
      else if instr = 0x30 then f_neg ps = True
      else if instr = 0x50 then f_ov ps = False
      else if instr = 0x70 then f_ov ps = True
      else if instr = 0x90 then f_carry ps = False
      else if instr = 0xB0 then f_carry ps = True
      else if instr = 0xD0 then f_zero ps = False
      else if instr = 0xF0 then f_zero ps = True
      else False)"

definition branch_pointer :: "uint8 \<Rightarrow> uint16 \<Rightarrow> uint16" where
  "branch_pointer branch_arg pc = pc + 2 + scast branch_arg"

definition is_jump :: "uint8 \<Rightarrow> bool" where
  "is_jump instr \<longleftrightarrow> instr = 0x20 \<or> instr = 0x4C \<or> instr = 0x6C"

definition format_flags :: "procstatus \<Rightarrow> string" where
  "format_flags flags =
     [if f_neg flags then CHR ''N'' else CHR ''n'', if f_ov flags then CHR ''V'' else CHR ''v'',
      if f_unused flags then CHR ''U'' else CHR ''u'', if f_breakf flags then CHR ''B'' else CHR ''b'',
      if f_decimal flags then CHR ''D'' else CHR ''d'', if f_intdis flags then CHR ''I'' else CHR ''i'',
      if f_zero flags then CHR ''Z'' else CHR ''z'', if f_carry flags then CHR ''C'' else CHR ''c'']"

definition format_instr ::
  "formatter \<Rightarrow> uint8 \<Rightarrow> uint8 \<Rightarrow> uint8 \<Rightarrow> uint16 \<Rightarrow> procstatus \<Rightarrow> string" where
  "format_instr F ident oplow ophigh pc flags =
     (let instr_str = disassemble F ident oplow ophigh;
          instr_str = (if is_branch ident
            then instr_str @ '' ['' @ fmt02X F (unat (branch_pointer oplow pc)) @ ''] ['' @
                 (if took_branch ident flags then ''Branch taken'' else ''Branch not taken'') @ '']''
            else instr_str)
      in ''[$'' @ fmt02X F (unat ident) @ ''] '' @ instr_str)"

section \<open>Disassembling a block\<close>

text \<open>
  The loop of \<^verbatim>\<open>disassemble_block\<close> steps a 16-bit address by the length of each instruction; it may
  not end, so a run has fuel. \<open>readval\<close> reads memory, which may change it; the calls of
  \<^verbatim>\<open>process\<close> are collected in order.
\<close>

datatype 'a outcome = Done 'a | Fault | OutOfFuel

fun disassemble_block ::
  "formatter \<Rightarrow> (uint16 \<Rightarrow> 'm \<Rightarrow> (uint8 \<times> 'm) option) \<Rightarrow> nat \<Rightarrow> uint16 \<Rightarrow> uint16 \<Rightarrow>
   (uint16 \<times> string) list \<Rightarrow> 'm \<Rightarrow> ((uint16 \<times> string) list \<times> 'm) outcome" where
  "disassemble_block F readval 0 start end out m = OutOfFuel"
| "disassemble_block F readval (Suc fuel) start end out m =
     (if start \<le> end then
        (case do { (i, m) \<leftarrow> readval start m;
                   (l, m) \<leftarrow> readval (start + 1) m;
                   (h, m) \<leftarrow> readval (start + 2) m;
                   Some (i, l, h, m) } of
           None \<Rightarrow> Fault
         | Some (i, l, h, m) \<Rightarrow>
             disassemble_block F readval fuel (start + of_nat (num_bytes i)) end
               (out @ [(start, disassemble F i l h)]) m)
      else Done (out, m))"

section \<open>Facts about the table\<close>

lemma nb_range: "1 \<le> nb m \<and> nb m \<le> 3"
  by (cases m) simp_all

lemma word_max_le: "(w :: uint16) \<le> 0xFFFF"
proof -
  have "unat w \<le> 65535" using unat_uint16_less [of w] by linarith
  then show ?thesis by (simp add: word_le_nat_alt)
qed

lemma num_bytes_range: "1 \<le> num_bytes i \<and> num_bytes i \<le> 3"
  using nb_range by (auto simp: num_bytes_def split: option.splits)

lemma unat_step:
  "unat (start + of_nat n :: uint16) = unat start + n" if "unat start + n < 65536"
  using that by (simp add: unat_word_ariths unat_of_nat)

lemma disassemble_block_ends:
  assumes "unat end \<le> 0xFFFC" "unat end + 1 - unat start < fuel"
  shows "disassemble_block F readval fuel start end out m \<noteq> OutOfFuel"
  using assms(2)
proof (induction fuel arbitrary: start out m)
  case 0
  then show ?case by simp
next
  case (Suc fuel)
  have "disassemble_block F readval fuel (start + of_nat (num_bytes i)) end out' m' \<noteq> OutOfFuel"
    if "start \<le> end" for i out' m'
  proof (rule Suc.IH)
    have "unat start \<le> unat end" using that by (simp add: word_le_nat_alt)
    moreover from this have "unat (start + of_nat (num_bytes i)) = unat start + num_bytes i"
      using num_bytes_range [of i] assms(1) by (intro unat_step) linarith
    ultimately show "unat end + 1 - unat (start + of_nat (num_bytes i)) < fuel"
      using num_bytes_range [of i] Suc.prems by linarith
  qed
  then show ?case by (auto split: option.splits)
qed

text \<open>
  C27: \<^verbatim>\<open>disassemble_block\<close> ends for every block whose last address is at most \<^verbatim>\<open>0xFFFC\<close>: as many
  iterations as the block has bytes are enough, whatever the memory holds.
\<close>

theorem disassemble_block_terminates:
  assumes "unat end \<le> 0xFFFC" "unat end + 1 - unat start < fuel"
  shows "disassemble_block F readval fuel start end out m \<noteq> OutOfFuel"
  using assms by (rule disassemble_block_ends)

theorem disassemble_block_terminates_witness:
  "\<forall>F. disassemble_block F (\<lambda>a m. Some (0xEA, m)) 4 0x8000 0x8001 [] () \<noteq> OutOfFuel"
  by (rule allI, rule disassemble_block_terminates) simp_all

text \<open>
  C28: for a block that ends at \<^verbatim>\<open>0xFFFF\<close> the test \<^verbatim>\<open>start <= end\<close> of \<^verbatim>\<open>disassemble_block\<close> always holds:
  with a memory that can be read everywhere, no amount of fuel ends the loop.
\<close>

theorem disassemble_block_diverges:
  assumes "\<And>a m. readval a m \<noteq> None"
  shows "disassemble_block F readval fuel start 0xFFFF out m = OutOfFuel"
proof (induction fuel arbitrary: start out m)
  case 0
  then show ?case by simp
next
  case (Suc fuel)
  have "start \<le> 0xFFFF" by (rule word_max_le)
  moreover obtain i m1 where 1: "readval start m = Some (i, m1)"
    using assms [of start m] by auto
  moreover obtain l m2 where 2: "readval (start + 1) m1 = Some (l, m2)"
    using assms [of "start + 1" m1] by auto
  moreover obtain h m3 where 3: "readval (start + 2) m2 = Some (h, m3)"
    using assms [of "start + 2" m2] by auto
  ultimately show ?case by (simp add: Suc.IH)
qed

theorem disassemble_block_diverges_witness:
  "\<forall>F. disassemble_block F (\<lambda>a m. Some (0xEA, m)) 1000 0x8000 0xFFFF [] () = OutOfFuel"
  by (rule allI, rule disassemble_block_diverges) simp

lemma branch_ids:
  assumes "is_branch i"
  shows "i \<in> {0x10, 0x30, 0x50, 0x70, 0x90, 0xB0, 0xD0, 0xF0}"
proof -
  from assms have *: "bit (i AND 0x1F) n = bit (0x10 :: uint8) n" for n
    by (simp add: is_branch_def)
  have b: "\<not> bit i 0" "\<not> bit i 1" "\<not> bit i 2" "\<not> bit i 3" "bit i 4"
    using * [of 0] * [of 1] * [of 2] * [of 3] * [of 4] by (simp_all add: bit_simps)
  have "i = (if bit i 7 then 0x80 else 0) OR (if bit i 6 then 0x40 else 0) OR
            (if bit i 5 then 0x20 else 0) OR 0x10"
    by (rule uint8_eqI) (use b in \<open>simp_all add: bit_simps\<close>)
  then show ?thesis by (simp split: if_splits)
qed

lemma instr_mode_branches:
  "list_all (\<lambda>(i, name, m). (m = Branch) = is_branch i) instr_mode"
  by (simp add: instr_mode_def is_branch_def)

end
