(* ===== verification/Cpu.thy ===== *)
theory Cpu
  imports InstrInfo
begin

text \<open>
  The processor of \<^verbatim>\<open>emu/core/cpu.hpp\<close> and \<^verbatim>\<open>emu/core/cpu.cpp\<close> without its instructions: registers,
  interrupt lines, the stack, memory accesses, the interrupt sequence.

  The class holds a pointer to the bus and a callback for the debugger. Both are fields of
  the record \<open>cpu_ports\<close>, over a type \<open>'m\<close> of everything the bus reaches; the RAM array
  \<^verbatim>\<open>rammem\<close>, which only the closures given to the bus touch, belongs to that side. An operation
  takes the ports, the processor and the memory side and returns the new pair, or \<open>None\<close> when an
  access through the ports has no result.
\<close>

unbundle bit_operations_syntax

section \<open>State\<close>

definition RAM_SIZE :: nat where "RAM_SIZE = 0x800"
definition STACK_BASE :: uint16 where "STACK_BASE = 0x0100"
definition NMI_VEC :: uint16 where "NMI_VEC = 0xFFFA"
definition RESET_VEC :: uint16 where "RESET_VEC = 0xFFFC"
definition IRQ_BRK_VEC :: uint16 where "IRQ_BRK_VEC = 0xFFFE"

record regs =
  r_pc :: uint16
  r_acc :: uint8
  r_x :: uint8
  r_y :: uint8
  r_sp :: uint8
  r_flags :: procstatus
  r_cycles :: uint64

record cpu = regs +
  nmipending :: bool
  irqpending :: bool
  resetpending :: bool
  execnmi :: bool
  execirq :: bool
  opargs :: uint16

record cpu_status =
  st_regs :: regs
  st_id :: uint8
  st_op :: uint16

record 'm cpu_ports =
  port_read :: "uint16 \<Rightarrow> 'm \<Rightarrow> (uint8 \<times> 'm) option"
  port_write :: "uint16 \<Rightarrow> uint8 \<Rightarrow> 'm \<Rightarrow> 'm option"
  port_callback :: "(cpu_status \<Rightarrow> uint16 \<Rightarrow> char \<Rightarrow> cpu \<Rightarrow> 'm \<Rightarrow> 'm option) option"

text \<open>The state of a fresh object.\<close>

definition cpu_default :: cpu where
  "cpu_default = \<lparr>r_pc = 0, r_acc = 0, r_x = 0, r_y = 0, r_sp = 0, r_flags = ps_default, r_cycles = 0,
     nmipending = False, irqpending = False, resetpending = False, execnmi = False, execirq = False,
     opargs = 0\<rparr>"

definition set_flags :: "(procstatus \<Rightarrow> procstatus) \<Rightarrow> cpu \<Rightarrow> cpu" where
  "set_flags f c = c\<lparr>r_flags := f (r_flags c)\<rparr>"

section \<open>Signals and cycles\<close>

definition fire_irq :: "cpu \<Rightarrow> cpu" where
  "fire_irq c = c\<lparr>irqpending := True\<rparr>"

definition fire_nmi :: "cpu \<Rightarrow> cpu" where
  "fire_nmi c = c\<lparr>nmipending := True\<rparr>"

definition cycle :: "cpu \<Rightarrow> cpu" where
  "cycle c = c\<lparr>r_cycles := r_cycles c + 1\<rparr>"

definition irqpoll :: "cpu \<Rightarrow> cpu" where
  "irqpoll c = (if \<not> execirq c \<and> \<not> f_intdis (r_flags c) \<and> irqpending c
                then c\<lparr>execirq := True\<rparr> else c)"

definition nmipoll :: "cpu \<Rightarrow> cpu" where
  "nmipoll c = (if \<not> execnmi c \<and> nmipending c then c\<lparr>execnmi := True\<rparr> else c)"

definition last_cycle :: "cpu \<Rightarrow> cpu" where
  "last_cycle c = irqpoll (nmipoll c)"

section \<open>Memory accesses\<close>

definition status :: "'m cpu_ports \<Rightarrow> cpu \<Rightarrow> 'm \<Rightarrow> (cpu_status \<times> 'm) option" where
  "status P c m =
     do { (i, m) \<leftarrow> port_read P (r_pc c) m;
          (l, m) \<leftarrow> port_read P (r_pc c + 1) m;
          (h, m) \<leftarrow> port_read P (r_pc c + 2) m;
          Some (\<lparr>st_regs = regs.truncate c, st_id = i, st_op = set_high h (set_low l 0)\<rparr>, m) }"

definition notify :: "'m cpu_ports \<Rightarrow> uint16 \<Rightarrow> char \<Rightarrow> cpu \<Rightarrow> 'm \<Rightarrow> 'm option" where
  "notify P addr mode c m =
     (case port_callback P of
        None \<Rightarrow> Some m
      | Some callback \<Rightarrow> do { (st, m) \<leftarrow> status P c m; callback st addr mode c m })"

definition fetch :: "'m cpu_ports \<Rightarrow> cpu \<Rightarrow> 'm \<Rightarrow> (uint8 \<times> cpu \<times> 'm) option" where
  "fetch P c m =
     do { m \<leftarrow> notify P (r_pc c) (CHR ''x'') c m;
          let c = cycle c;
          (v, m) \<leftarrow> port_read P (r_pc c) m;
          Some (v, c\<lparr>r_pc := r_pc c + 1\<rparr>, m) }"

definition fetchop :: "'m cpu_ports \<Rightarrow> cpu \<Rightarrow> 'm \<Rightarrow> (uint8 \<times> cpu \<times> 'm) option" where
  "fetchop P c m =
     do { let c = cycle c;
          (v, m) \<leftarrow> port_read P (r_pc c) m;
          Some (v, c\<lparr>r_pc := r_pc c + 1\<rparr>, m) }"

definition readmem :: "'m cpu_ports \<Rightarrow> uint16 \<Rightarrow> cpu \<Rightarrow> 'm \<Rightarrow> (uint8 \<times> cpu \<times> 'm) option" where
  "readmem P addr c m =
     do { m \<leftarrow> notify P addr (CHR ''r'') c m;
          let c = cycle c;
          (v, m) \<leftarrow> port_read P addr m;
          Some (v, c, m) }"

definition writemem :: "'m cpu_ports \<Rightarrow> uint16 \<Rightarrow> uint8 \<Rightarrow> cpu \<Rightarrow> 'm \<Rightarrow> (cpu \<times> 'm) option" where
  "writemem P addr data c m =
     do { m \<leftarrow> notify P addr (CHR ''w'') c m;
          let c = cycle c;
          m \<leftarrow> port_write P addr data m;
          Some (c, m) }"

definition push :: "'m cpu_ports \<Rightarrow> uint8 \<Rightarrow> cpu \<Rightarrow> 'm \<Rightarrow> (cpu \<times> 'm) option" where
  "push P val c m =
     do { (c, m) \<leftarrow> writemem P (ucast (r_sp c) + STACK_BASE) val c m;
          Some (c\<lparr>r_sp := r_sp c - 1\<rparr>, m) }"

definition pull :: "'m cpu_ports \<Rightarrow> cpu \<Rightarrow> 'm \<Rightarrow> (uint8 \<times> cpu \<times> 'm) option" where
  "pull P c m =
     do { let c = c\<lparr>r_sp := r_sp c + 1\<rparr>;
          readmem P (ucast (r_sp c) + STACK_BASE) c m }"

section \<open>The interrupt sequence\<close>

definition take_vector :: "cpu \<Rightarrow> uint16 \<times> cpu" where
  "take_vector c =
     (if resetpending c then (RESET_VEC, c\<lparr>resetpending := False\<rparr>)
      else if nmipending c then (NMI_VEC, c\<lparr>nmipending := False\<rparr>)
      else if irqpending c then (IRQ_BRK_VEC, c\<lparr>irqpending := False\<rparr>)
      else (IRQ_BRK_VEC, c))"

definition interrupt :: "'m cpu_ports \<Rightarrow> cpu \<Rightarrow> 'm \<Rightarrow> (cpu \<times> 'm) option" where
  "interrupt P c m =
     do { let c = cycle c;
          (c, m) \<leftarrow> push P (high (r_pc c)) c m;
          (c, m) \<leftarrow> push P (low (r_pc c)) c m;
          (c, m) \<leftarrow> push P (ps_to_uint8 (r_flags c)) c m;
          let c = set_flags (\<lambda>f. f\<lparr>f_breakf := False, f_intdis := True\<rparr>) c;
          let (vec, c) = take_vector c;
          (l, c, m) \<leftarrow> readmem P vec c m;
          let c = c\<lparr>r_pc := set_low l (r_pc c)\<rparr>;
          (h, c, m) \<leftarrow> readmem P (vec + 1) c m;
          Some (c\<lparr>r_pc := set_high h (r_pc c)\<rparr>, m) }"

section \<open>Power and reset\<close>

fun write_zeros :: "'m cpu_ports \<Rightarrow> nat \<Rightarrow> uint16 \<Rightarrow> 'm \<Rightarrow> 'm option" where
  "write_zeros P 0 i m = Some m"
| "write_zeros P (Suc n) i m = do { m \<leftarrow> port_write P i 0 m; write_zeros P n (i + 1) m }"

definition cpu_power :: "'m cpu_ports \<Rightarrow> cpu \<Rightarrow> 'm \<Rightarrow> (cpu \<times> 'm) option" where
  "cpu_power P c m =
     do { let c = c\<lparr>r_acc := 0, r_x := 0, r_y := 0\<rparr>;
          m \<leftarrow> write_zeros P 0x800 0 m;
          let c = set_flags ps_reset c;
          m \<leftarrow> port_write P 0x4017 0 m;
          m \<leftarrow> port_write P 0x4015 0 m;
          m \<leftarrow> write_zeros P (0x4013 - 0x4000) 0x4000 m;
          let c = c\<lparr>r_sp := 0, resetpending := True\<rparr>;
          interrupt P c m }"

definition cpu_reset :: "'m cpu_ports \<Rightarrow> cpu \<Rightarrow> 'm \<Rightarrow> (cpu \<times> 'm) option" where
  "cpu_reset P c m =
     do { m \<leftarrow> port_write P 0x4015 0 m;
          interrupt P (c\<lparr>resetpending := True\<rparr>) m }"

section \<open>The prediction of the next instruction address\<close>

text \<open>
  The operands of \<^verbatim>\<open>|\<close> are read from left to right. The language leaves their order open; it makes no difference where
  reads have no effects.
\<close>

definition read16 :: "'m cpu_ports \<Rightarrow> uint16 \<Rightarrow> uint16 \<Rightarrow> 'm \<Rightarrow> (uint16 \<times> 'm) option" where
  "read16 P lo_addr hi_addr m =
     do { (l, m) \<leftarrow> port_read P lo_addr m;
          (h, m) \<leftarrow> port_read P hi_addr m;
          Some (ucast l OR push_bit 8 (ucast h), m) }"

definition nextaddr :: "'m cpu_ports \<Rightarrow> cpu \<Rightarrow> 'm \<Rightarrow> (uint16 \<times> 'm) option" where
  "nextaddr P c m =
     do { (i, m) \<leftarrow> port_read P (r_pc c) m;
          (l, m) \<leftarrow> port_read P (r_pc c + 1) m;
          (h, m) \<leftarrow> port_read P (r_pc c + 2) m;
          let opr = set_high h (set_low l 0);
          if i = 0x00 then
            Some (if resetpending c then RESET_VEC else if nmipending c then NMI_VEC else IRQ_BRK_VEC, m)
          else if i = 0x20 \<or> i = 0x4C then Some (opr, m)
          else if i = 0x6C then
            (if low opr = 0xFF then read16 P opr (opr AND 0xFF00) m else read16 P opr (opr + 1) m)
          else if i = 0x60 then
            do { (a, m) \<leftarrow> read16 P (ucast (r_sp c) + 1 + STACK_BASE) (ucast (r_sp c) + 2 + STACK_BASE) m;
                 Some (1 + a, m) }
          else if i = 0x40 then
            read16 P (ucast (r_sp c) + 1 + STACK_BASE) (ucast (r_sp c) + 2 + STACK_BASE) m
          else if took_branch i (r_flags c) then Some (branch_pointer l (r_pc c), m)
          else Some (r_pc c + of_nat (num_bytes i), m) }"

lemmas cpu_access_defs =
  fetch_def fetchop_def readmem_def writemem_def push_def pull_def

lemmas poll_defs = last_cycle_def irqpoll_def nmipoll_def cycle_def set_flags_def

end
