(* ===== verification/Instructions.thy ===== *)
theory Instructions
  imports Cpu
begin

text \<open>
  The instructions of \<^verbatim>\<open>emu/core/instructions.cpp\<close> and the dispatch of \<^verbatim>\<open>CPU::execute\<close> and
  \<^verbatim>\<open>CPU::run\<close>. An addressing-mode function fetches operands, calls an instruction function and
  polls the interrupt lines; an instruction function works on the registers alone. The
  operand \<^verbatim>\<open>opargs\<close> keeps its old high byte in the modes that fetch one byte, as in the code.
  Arithmetic that the code does in \<^verbatim>\<open>int\<close> is done on \<open>int\<close>.
\<close>

unbundle bit_operations_syntax

section \<open>Instruction functions\<close>

text \<open>The pair of flags most instructions set from a byte.\<close>

definition set_zn :: "uint8 \<Rightarrow> cpu \<Rightarrow> cpu" where
  "set_zn v = set_flags (\<lambda>f. f\<lparr>f_zero := (v = 0), f_neg := (v AND 0x80 \<noteq> 0)\<rparr>)"

definition instr_lda :: "uint8 \<Rightarrow> cpu \<Rightarrow> cpu" where
  "instr_lda val c = set_zn val (c\<lparr>r_acc := val\<rparr>)"

definition instr_ldx :: "uint8 \<Rightarrow> cpu \<Rightarrow> cpu" where
  "instr_ldx val c = set_zn val (c\<lparr>r_x := val\<rparr>)"

definition instr_ldy :: "uint8 \<Rightarrow> cpu \<Rightarrow> cpu" where
  "instr_ldy val c = set_zn val (c\<lparr>r_y := val\<rparr>)"

definition compare :: "uint8 \<Rightarrow> uint8 \<Rightarrow> cpu \<Rightarrow> cpu" where
  "compare reg val c =
     (let res = uint reg - uint val
      in set_flags (\<lambda>f. f\<lparr>f_zero := (res = 0), f_neg := (res AND 0x80 \<noteq> 0), f_carry := (res \<ge> 0)\<rparr>) c)"

definition instr_cmp :: "uint8 \<Rightarrow> cpu \<Rightarrow> cpu" where
  "instr_cmp val c = compare (r_acc c) val c"

definition instr_cpx :: "uint8 \<Rightarrow> cpu \<Rightarrow> cpu" where
  "instr_cpx val c = compare (r_x c) val c"

definition instr_cpy :: "uint8 \<Rightarrow> cpu \<Rightarrow> cpu" where
  "instr_cpy val c = compare (r_y c) val c"

definition instr_adc :: "uint8 \<Rightarrow> cpu \<Rightarrow> cpu" where
  "instr_adc val c =
     (let acc = uint (r_acc c);
          sum = acc + uint val + of_bool (f_carry (r_flags c))
      in (set_flags (\<lambda>f. f\<lparr>f_zero := (word_of_int sum = (0 :: uint8)),
            f_neg := (sum AND 0x80 \<noteq> 0), f_carry := (sum > 0xFF),
            f_ov := ((acc XOR sum) AND NOT (acc XOR uint val) AND 0x80 \<noteq> 0)\<rparr>) c)
         \<lparr>r_acc := word_of_int sum\<rparr>)"

definition instr_sbc :: "uint8 \<Rightarrow> cpu \<Rightarrow> cpu" where
  "instr_sbc val c =
     (let tmp = NOT val;
          acc = uint (r_acc c);
          sum = acc + uint tmp + of_bool (f_carry (r_flags c))
      in (set_flags (\<lambda>f. f\<lparr>f_zero := (word_of_int sum = (0 :: uint8)),
            f_neg := (sum AND 0x80 \<noteq> 0), f_carry := (sum > 0xFF),
            f_ov := ((acc XOR sum) AND NOT (acc XOR uint val) AND 0x80 \<noteq> 0)\<rparr>) c)
         \<lparr>r_acc := word_of_int sum\<rparr>)"

definition instr_ora :: "uint8 \<Rightarrow> cpu \<Rightarrow> cpu" where
  "instr_ora val c = (let v = r_acc c OR val in set_zn v (c\<lparr>r_acc := v\<rparr>))"

definition instr_and :: "uint8 \<Rightarrow> cpu \<Rightarrow> cpu" where
  "instr_and val c = (let v = r_acc c AND val in set_zn v (c\<lparr>r_acc := v\<rparr>))"

definition instr_eor :: "uint8 \<Rightarrow> cpu \<Rightarrow> cpu" where
  "instr_eor val c = (let v = r_acc c XOR val in set_zn v (c\<lparr>r_acc := v\<rparr>))"

definition instr_bit :: "uint8 \<Rightarrow> cpu \<Rightarrow> cpu" where
  "instr_bit val c =
     set_flags (\<lambda>f. f\<lparr>f_neg := (r_acc c AND val = 0), f_zero := (val = 0), f_ov := (val AND 0x40 \<noteq> 0)\<rparr>) c"

definition instr_inc :: "uint8 \<Rightarrow> cpu \<Rightarrow> uint8 \<times> cpu" where
  "instr_inc val c = (let val = val + 1 in (val, set_zn val c))"

definition instr_dec :: "uint8 \<Rightarrow> cpu \<Rightarrow> uint8 \<times> cpu" where
  "instr_dec val c = (let val = val - 1 in (val, set_zn val c))"

definition set_carry :: "bool \<Rightarrow> cpu \<Rightarrow> cpu" where
  "set_carry b = set_flags (\<lambda>f. f\<lparr>f_carry := b\<rparr>)"

definition instr_asl :: "uint8 \<Rightarrow> cpu \<Rightarrow> uint8 \<times> cpu" where
  "instr_asl val c =
     (let c = set_carry (val AND 0x80 \<noteq> 0) c; val = push_bit 1 val in (val, set_zn val c))"

definition instr_lsr :: "uint8 \<Rightarrow> cpu \<Rightarrow> uint8 \<times> cpu" where
  "instr_lsr val c =
     (let c = set_carry (val AND 1 \<noteq> 0) c; val = drop_bit 1 val in (val, set_zn val c))"

definition instr_rol :: "uint8 \<Rightarrow> cpu \<Rightarrow> uint8 \<times> cpu" where
  "instr_rol val c =
     (let cy = f_carry (r_flags c);
          c = set_carry (val AND 0x80 \<noteq> 0) c;
          val = push_bit 1 val OR of_bool cy
      in (val, set_zn val c))"

definition instr_ror :: "uint8 \<Rightarrow> cpu \<Rightarrow> uint8 \<times> cpu" where
  "instr_ror val c =
     (let cy = f_carry (r_flags c);
          c = set_carry (val AND 1 \<noteq> 0) c;
          val = drop_bit 1 val OR push_bit 7 (of_bool cy)
      in (val, set_zn val c))"

section \<open>Addressing modes that read\<close>

text \<open>Fetching an operand byte into \<^verbatim>\<open>opargs.low\<close> or \<^verbatim>\<open>opargs.high\<close>.\<close>

definition fetch_low :: "'m cpu_ports \<Rightarrow> cpu \<Rightarrow> 'm \<Rightarrow> (cpu \<times> 'm) option" where
  "fetch_low P c m = do { (v, c, m) \<leftarrow> fetchop P c m; Some (c\<lparr>opargs := set_low v (opargs c)\<rparr>, m) }"

definition fetch_high :: "'m cpu_ports \<Rightarrow> cpu \<Rightarrow> 'm \<Rightarrow> (cpu \<times> 'm) option" where
  "fetch_high P c m = do { (v, c, m) \<leftarrow> fetchop P c m; Some (c\<lparr>opargs := set_high v (opargs c)\<rparr>, m) }"

text \<open>\<^verbatim>\<open>opargs.low\<close> as a bus address, and the same plus an index: no carry is dropped.\<close>

definition op_low :: "cpu \<Rightarrow> uint16" where
  "op_low c = ucast (low (opargs c))"

definition addrmode_imm_read :: "'m cpu_ports \<Rightarrow> (uint8 \<Rightarrow> cpu \<Rightarrow> cpu) \<Rightarrow> cpu \<Rightarrow> 'm \<Rightarrow> (cpu \<times> 'm) option" where
  "addrmode_imm_read P f c m =
     do { (c, m) \<leftarrow> fetch_low P c m;
          let c = f (low (opargs c)) c;
          Some (last_cycle c, m) }"

definition addrmode_zero_read :: "'m cpu_ports \<Rightarrow> (uint8 \<Rightarrow> cpu \<Rightarrow> cpu) \<Rightarrow> cpu \<Rightarrow> 'm \<Rightarrow> (cpu \<times> 'm) option" where
  "addrmode_zero_read P f c m =
     do { (c, m) \<leftarrow> fetch_low P c m;
          (v, c, m) \<leftarrow> readmem P (op_low c) c m;
          Some (last_cycle (f v c), m) }"

definition addrmode_zerox_read :: "'m cpu_ports \<Rightarrow> (uint8 \<Rightarrow> cpu \<Rightarrow> cpu) \<Rightarrow> cpu \<Rightarrow> 'm \<Rightarrow> (cpu \<times> 'm) option" where
  "addrmode_zerox_read P f c m =
     do { (c, m) \<leftarrow> fetch_low P c m;
          (v, c, m) \<leftarrow> readmem P (op_low c + ucast (r_x c)) c m;
          Some (last_cycle (cycle (f v c)), m) }"

definition addrmode_zeroy_read :: "'m cpu_ports \<Rightarrow> (uint8 \<Rightarrow> cpu \<Rightarrow> cpu) \<Rightarrow> cpu \<Rightarrow> 'm \<Rightarrow> (cpu \<times> 'm) option" where
  "addrmode_zeroy_read P f c m =
     do { (c, m) \<leftarrow> fetch_low P c m;
          (v, c, m) \<leftarrow> readmem P (op_low c + ucast (r_y c)) c m;
          Some (last_cycle (cycle (f v c)), m) }"

definition addrmode_abs_read :: "'m cpu_ports \<Rightarrow> (uint8 \<Rightarrow> cpu \<Rightarrow> cpu) \<Rightarrow> cpu \<Rightarrow> 'm \<Rightarrow> (cpu \<times> 'm) option" where
  "addrmode_abs_read P f c m =
     do { (c, m) \<leftarrow> fetch_low P c m;
          (c, m) \<leftarrow> fetch_high P c m;
          (v, c, m) \<leftarrow> readmem P (opargs c) c m;
          Some (last_cycle (f v c), m) }"

definition addrmode_absx_read :: "'m cpu_ports \<Rightarrow> (uint8 \<Rightarrow> cpu \<Rightarrow> cpu) \<Rightarrow> cpu \<Rightarrow> 'm \<Rightarrow> (cpu \<times> 'm) option" where
  "addrmode_absx_read P f c m =
     do { (c, m) \<leftarrow> fetch_low P c m;
          (c, m) \<leftarrow> fetch_high P c m;
          (v, c, m) \<leftarrow> readmem P (opargs c + ucast (r_x c)) c m;
          let res = (ucast v :: uint16);
          let c = f (ucast res) c;
          let c = (if high (opargs c) \<noteq> high res then cycle c else c);
          Some (last_cycle c, m) }"

definition addrmode_absy_read :: "'m cpu_ports \<Rightarrow> (uint8 \<Rightarrow> cpu \<Rightarrow> cpu) \<Rightarrow> cpu \<Rightarrow> 'm \<Rightarrow> (cpu \<times> 'm) option" where
  "addrmode_absy_read P f c m =
     do { (c, m) \<leftarrow> fetch_low P c m;
          (c, m) \<leftarrow> fetch_high P c m;
          (v, c, m) \<leftarrow> readmem P (opargs c + ucast (r_y c)) c m;
          let res = (ucast v :: uint16);
          let c = f (ucast res) c;
          let c = (if high (opargs c) \<noteq> high res then cycle c else c);
          Some (last_cycle c, m) }"

definition addrmode_indx_read :: "'m cpu_ports \<Rightarrow> (uint8 \<Rightarrow> cpu \<Rightarrow> cpu) \<Rightarrow> cpu \<Rightarrow> 'm \<Rightarrow> (cpu \<times> 'm) option" where
  "addrmode_indx_read P f c m =
     do { (c, m) \<leftarrow> fetch_low P c m;
          let c = cycle c;
          (l, c, m) \<leftarrow> readmem P (op_low c + ucast (r_x c)) c m;
          (h, c, m) \<leftarrow> readmem P (op_low c + ucast (r_x c) + 1) c m;
          let res = set_high h (set_low l 0);
          (v, c, m) \<leftarrow> readmem P res c m;
          Some (last_cycle (f v c), m) }"

definition addrmode_indy_read :: "'m cpu_ports \<Rightarrow> (uint8 \<Rightarrow> cpu \<Rightarrow> cpu) \<Rightarrow> cpu \<Rightarrow> 'm \<Rightarrow> (cpu \<times> 'm) option" where
  "addrmode_indy_read P f c m =
     do { (c, m) \<leftarrow> fetch_low P c m;
          (l, c, m) \<leftarrow> readmem P (op_low c) c m;
          (h, c, m) \<leftarrow> readmem P (op_low c + 1) c m;
          let res = set_high h (set_low l 0) + ucast (r_y c);
          (v, c, m) \<leftarrow> readmem P res c m;
          let c = f v c;
          let c = (if high (opargs c) \<noteq> high res then cycle c else c);
          Some (last_cycle c, m) }"

section \<open>Addressing modes that modify\<close>

definition addrmode_accum_modify :: "'m cpu_ports \<Rightarrow> (uint8 \<Rightarrow> cpu \<Rightarrow> uint8 \<times> cpu) \<Rightarrow> cpu \<Rightarrow> 'm \<Rightarrow> (cpu \<times> 'm) option" where
  "addrmode_accum_modify P f c m =
     do { let c = cycle c;
          let (v, c) = f (r_acc c) c;
          Some (last_cycle (c\<lparr>r_acc := v\<rparr>), m) }"

definition addrmode_zero_modify :: "'m cpu_ports \<Rightarrow> (uint8 \<Rightarrow> cpu \<Rightarrow> uint8 \<times> cpu) \<Rightarrow> cpu \<Rightarrow> 'm \<Rightarrow> (cpu \<times> 'm) option" where
  "addrmode_zero_modify P f c m =
     do { (c, m) \<leftarrow> fetch_low P c m;
          (v, c, m) \<leftarrow> readmem P (op_low c) c m;
          let (v, c) = f v c;
          let res = (ucast v :: uint16);
          let c = cycle c;
          (c, m) \<leftarrow> writemem P (op_low c) (ucast res) c m;
          Some (last_cycle c, m) }"

definition addrmode_zerox_modify :: "'m cpu_ports \<Rightarrow> (uint8 \<Rightarrow> cpu \<Rightarrow> uint8 \<times> cpu) \<Rightarrow> cpu \<Rightarrow> 'm \<Rightarrow> (cpu \<times> 'm) option" where
  "addrmode_zerox_modify P f c m =
     do { (c, m) \<leftarrow> fetch_low P c m;
          let c = cycle c;
          (v, c, m) \<leftarrow> readmem P (op_low c + ucast (r_x c)) c m;
          let (v, c) = f v c;
          let res = (ucast v :: uint16);
          let c = cycle c;
          (c, m) \<leftarrow> writemem P (op_low c + ucast (r_x c)) (ucast res) c m;
          Some (last_cycle c, m) }"

definition addrmode_abs_modify :: "'m cpu_ports \<Rightarrow> (uint8 \<Rightarrow> cpu \<Rightarrow> uint8 \<times> cpu) \<Rightarrow> cpu \<Rightarrow> 'm \<Rightarrow> (cpu \<times> 'm) option" where
  "addrmode_abs_modify P f c m =
     do { (c, m) \<leftarrow> fetch_low P c m;
          (c, m) \<leftarrow> fetch_high P c m;
          (v, c, m) \<leftarrow> readmem P (opargs c) c m;
          let (v, c) = f v c;
          let res = (ucast v :: uint16);
          let c = cycle c;
          (c, m) \<leftarrow> writemem P (opargs c) (ucast res) c m;
          Some (last_cycle c, m) }"

definition addrmode_absx_modify :: "'m cpu_ports \<Rightarrow> (uint8 \<Rightarrow> cpu \<Rightarrow> uint8 \<times> cpu) \<Rightarrow> cpu \<Rightarrow> 'm \<Rightarrow> (cpu \<times> 'm) option" where
  "addrmode_absx_modify P f c m =
     do { (c, m) \<leftarrow> fetch_low P c m;
          (c, m) \<leftarrow> fetch_high P c m;
          (v, c, m) \<leftarrow> readmem P (opargs c + ucast (r_x c)) c m;
          let (v, c) = f v c;
          let res = (ucast v :: uint16);
          let c = cycle (cycle c);
          (c, m) \<leftarrow> writemem P (opargs c + ucast (r_x c)) (ucast res) c m;
          Some (last_cycle c, m) }"

section \<open>Addressing modes that write\<close>

definition addrmode_zero_write :: "'m cpu_ports \<Rightarrow> uint8 \<Rightarrow> cpu \<Rightarrow> 'm \<Rightarrow> (cpu \<times> 'm) option" where
  "addrmode_zero_write P val c m =
     do { (c, m) \<leftarrow> fetch_low P c m;
          (c, m) \<leftarrow> writemem P (op_low c) val c m;
          Some (last_cycle c, m) }"

definition addrmode_zerox_write :: "'m cpu_ports \<Rightarrow> uint8 \<Rightarrow> cpu \<Rightarrow> 'm \<Rightarrow> (cpu \<times> 'm) option" where
  "addrmode_zerox_write P val c m =
     do { (c, m) \<leftarrow> fetch_low P c m;
          let c = cycle c;
          (c, m) \<leftarrow> writemem P (op_low c + ucast (r_x c)) val c m;
          Some (last_cycle c, m) }"

definition addrmode_zeroy_write :: "'m cpu_ports \<Rightarrow> uint8 \<Rightarrow> cpu \<Rightarrow> 'm \<Rightarrow> (cpu \<times> 'm) option" where
  "addrmode_zeroy_write P val c m =
     do { (c, m) \<leftarrow> fetch_low P c m;
          let c = cycle c;
          (c, m) \<leftarrow> writemem P (op_low c + ucast (r_y c)) val c m;
          Some (last_cycle c, m) }"

definition addrmode_abs_write :: "'m cpu_ports \<Rightarrow> uint8 \<Rightarrow> cpu \<Rightarrow> 'm \<Rightarrow> (cpu \<times> 'm) option" where
  "addrmode_abs_write P val c m =
     do { (c, m) \<leftarrow> fetch_low P c m;
          (c, m) \<leftarrow> fetch_high P c m;
          (c, m) \<leftarrow> writemem P (opargs c) val c m;
          Some (last_cycle c, m) }"

definition addrmode_absx_write :: "'m cpu_ports \<Rightarrow> uint8 \<Rightarrow> cpu \<Rightarrow> 'm \<Rightarrow> (cpu \<times> 'm) option" where
  "addrmode_absx_write P val c m =
     do { (c, m) \<leftarrow> fetch_low P c m;
          (c, m) \<leftarrow> fetch_high P c m;
          let c = cycle c;
          (c, m) \<leftarrow> writemem P (opargs c + ucast (r_x c)) val c m;
          Some (last_cycle c, m) }"

definition addrmode_absy_write :: "'m cpu_ports \<Rightarrow> uint8 \<Rightarrow> cpu \<Rightarrow> 'm \<Rightarrow> (cpu \<times> 'm) option" where
  "addrmode_absy_write P val c m =
     do { (c, m) \<leftarrow> fetch_low P c m;
          (c, m) \<leftarrow> fetch_high P c m;
          let c = cycle c;
          (c, m) \<leftarrow> writemem P (opargs c + ucast (r_y c)) val c m;
          Some (last_cycle c, m) }"

definition addrmode_indx_write :: "'m cpu_ports \<Rightarrow> uint8 \<Rightarrow> cpu \<Rightarrow> 'm \<Rightarrow> (cpu \<times> 'm) option" where
  "addrmode_indx_write P val c m =
     do { (c, m) \<leftarrow> fetch_low P c m;
          let c = cycle c;
          (l, c, m) \<leftarrow> readmem P (op_low c + ucast (r_x c)) c m;
          (h, c, m) \<leftarrow> readmem P (op_low c + ucast (r_x c) + 1) c m;
          let res = set_high h (set_low l 0);
          (c, m) \<leftarrow> writemem P res val c m;
          Some (last_cycle c, m) }"

definition addrmode_indy_write :: "'m cpu_ports \<Rightarrow> uint8 \<Rightarrow> cpu \<Rightarrow> 'm \<Rightarrow> (cpu \<times> 'm) option" where
  "addrmode_indy_write P val c m =
     do { (c, m) \<leftarrow> fetch_low P c m;
          (l, c, m) \<leftarrow> readmem P (op_low c) c m;
          (h, c, m) \<leftarrow> readmem P (op_low c + 1) c m;
          let res = set_high h (set_low l 0) + ucast (r_y c);
          let c = cycle c;
          (c, m) \<leftarrow> writemem P res val c m;
          Some (last_cycle c, m) }"

section \<open>Instructions called directly\<close>

datatype flagname = F_carry | F_zero | F_intdis | F_decimal | F_ov | F_neg
datatype regname = R_acc | R_x | R_y | R_sp

primrec get_flag :: "flagname \<Rightarrow> cpu \<Rightarrow> bool" where
  "get_flag F_carry c = f_carry (r_flags c)"
| "get_flag F_zero c = f_zero (r_flags c)"
| "get_flag F_intdis c = f_intdis (r_flags c)"
| "get_flag F_decimal c = f_decimal (r_flags c)"
| "get_flag F_ov c = f_ov (r_flags c)"
| "get_flag F_neg c = f_neg (r_flags c)"

primrec put_flag :: "flagname \<Rightarrow> bool \<Rightarrow> cpu \<Rightarrow> cpu" where
  "put_flag F_carry v = set_flags (\<lambda>f. f\<lparr>f_carry := v\<rparr>)"
| "put_flag F_zero v = set_flags (\<lambda>f. f\<lparr>f_zero := v\<rparr>)"
| "put_flag F_intdis v = set_flags (\<lambda>f. f\<lparr>f_intdis := v\<rparr>)"
| "put_flag F_decimal v = set_flags (\<lambda>f. f\<lparr>f_decimal := v\<rparr>)"
| "put_flag F_ov v = set_flags (\<lambda>f. f\<lparr>f_ov := v\<rparr>)"
| "put_flag F_neg v = set_flags (\<lambda>f. f\<lparr>f_neg := v\<rparr>)"

primrec get_reg :: "regname \<Rightarrow> cpu \<Rightarrow> uint8" where
  "get_reg R_acc c = r_acc c"
| "get_reg R_x c = r_x c"
| "get_reg R_y c = r_y c"
| "get_reg R_sp c = r_sp c"

primrec put_reg :: "regname \<Rightarrow> uint8 \<Rightarrow> cpu \<Rightarrow> cpu" where
  "put_reg R_acc v c = c\<lparr>r_acc := v\<rparr>"
| "put_reg R_x v c = c\<lparr>r_x := v\<rparr>"
| "put_reg R_y v c = c\<lparr>r_y := v\<rparr>"
| "put_reg R_sp v c = c\<lparr>r_sp := v\<rparr>"

definition instr_branch :: "'m cpu_ports \<Rightarrow> bool \<Rightarrow> cpu \<Rightarrow> 'm \<Rightarrow> (cpu \<times> 'm) option" where
  "instr_branch P take_it c m =
     do { let c = last_cycle c;
          (c, m) \<leftarrow> fetch_low P c m;
          let tmp = r_pc c;
          if \<not> take_it then Some (c, m)
          else do { let c = cycle c;
                    let c = c\<lparr>r_pc := r_pc c + scast (low (opargs c))\<rparr>;
                    let c = last_cycle c;
                    Some (if high tmp \<noteq> high (r_pc c) then cycle c else c, m) } }"

definition instr_flag :: "flagname \<Rightarrow> bool \<Rightarrow> cpu \<Rightarrow> cpu" where
  "instr_flag f v c = put_flag f v (cycle (last_cycle c))"

definition instr_transfer :: "uint8 \<Rightarrow> regname \<Rightarrow> cpu \<Rightarrow> cpu" where
  "instr_transfer from to c = set_zn from (put_reg to from (cycle (last_cycle c)))"

definition instr_inx :: "cpu \<Rightarrow> cpu" where
  "instr_inx c = (let c = cycle c; v = r_x c + 1 in last_cycle (set_zn v (c\<lparr>r_x := v\<rparr>)))"

definition instr_iny :: "cpu \<Rightarrow> cpu" where
  "instr_iny c = (let c = cycle c; v = r_y c + 1 in last_cycle (set_zn v (c\<lparr>r_y := v\<rparr>)))"

definition instr_dex :: "cpu \<Rightarrow> cpu" where
  "instr_dex c = (let c = cycle c; v = r_x c - 1 in last_cycle (set_zn v (c\<lparr>r_x := v\<rparr>)))"

definition instr_dey :: "cpu \<Rightarrow> cpu" where
  "instr_dey c = (let c = cycle c; v = r_y c - 1 in last_cycle (set_zn v (c\<lparr>r_y := v\<rparr>)))"

definition set_break :: "bool \<Rightarrow> cpu \<Rightarrow> cpu" where
  "set_break b = set_flags (\<lambda>f. f\<lparr>f_breakf := b\<rparr>)"

definition instr_php :: "'m cpu_ports \<Rightarrow> cpu \<Rightarrow> 'm \<Rightarrow> (cpu \<times> 'm) option" where
  "instr_php P c m =
     do { let c = set_break True (cycle c);
          (c, m) \<leftarrow> push P (ps_to_uint8 (r_flags c)) c m;
          Some (last_cycle (set_break False c), m) }"

definition instr_pha :: "'m cpu_ports \<Rightarrow> cpu \<Rightarrow> 'm \<Rightarrow> (cpu \<times> 'm) option" where
  "instr_pha P c m =
     do { let c = cycle c;
          (c, m) \<leftarrow> push P (r_acc c) c m;
          Some (last_cycle c, m) }"

definition instr_plp :: "'m cpu_ports \<Rightarrow> cpu \<Rightarrow> 'm \<Rightarrow> (cpu \<times> 'm) option" where
  "instr_plp P c m =
     do { let c = last_cycle (cycle (cycle c));
          (v, c, m) \<leftarrow> pull P c m;
          Some (set_break False (c\<lparr>r_flags := ps_of_uint8 v\<rparr>), m) }"

definition instr_pla :: "'m cpu_ports \<Rightarrow> cpu \<Rightarrow> 'm \<Rightarrow> (cpu \<times> 'm) option" where
  "instr_pla P c m =
     do { let c = cycle (cycle c);
          (v, c, m) \<leftarrow> pull P c m;
          Some (last_cycle (set_zn v (c\<lparr>r_acc := v\<rparr>)), m) }"

definition instr_jsr :: "'m cpu_ports \<Rightarrow> cpu \<Rightarrow> 'm \<Rightarrow> (cpu \<times> 'm) option" where
  "instr_jsr P c m =
     do { (c, m) \<leftarrow> fetch_low P c m;
          (c, m) \<leftarrow> fetch_high P c m;
          let c = cycle (c\<lparr>r_pc := r_pc c - 1\<rparr>);
          (c, m) \<leftarrow> push P (high (r_pc c)) c m;
          (c, m) \<leftarrow> push P (low (r_pc c)) c m;
          let c = c\<lparr>r_pc := set_high (high (opargs c)) (set_low (low (opargs c)) (r_pc c))\<rparr>;
          Some (last_cycle c, m) }"

definition instr_jmp :: "'m cpu_ports \<Rightarrow> cpu \<Rightarrow> 'm \<Rightarrow> (cpu \<times> 'm) option" where
  "instr_jmp P c m =
     do { (c, m) \<leftarrow> fetch_low P c m;
          (c, m) \<leftarrow> fetch_high P c m;
          Some (last_cycle (c\<lparr>r_pc := opargs c\<rparr>), m) }"

definition instr_jmp_ind :: "'m cpu_ports \<Rightarrow> cpu \<Rightarrow> 'm \<Rightarrow> (cpu \<times> 'm) option" where
  "instr_jmp_ind P c m =
     do { (c, m) \<leftarrow> fetch_low P c m;
          (c, m) \<leftarrow> fetch_high P c m;
          (l, c, m) \<leftarrow> readmem P (opargs c) c m;
          let c = c\<lparr>r_pc := set_low l (r_pc c)\<rparr>;
          (h, c, m) \<leftarrow> (if low (opargs c) = 0xFF then readmem P (opargs c AND 0xFF00) c m
                       else readmem P (opargs c + 1) c m);
          Some (last_cycle (c\<lparr>r_pc := set_high h (r_pc c)\<rparr>), m) }"

definition instr_rts :: "'m cpu_ports \<Rightarrow> cpu \<Rightarrow> 'm \<Rightarrow> (cpu \<times> 'm) option" where
  "instr_rts P c m =
     do { let c = cycle (cycle c);
          (l, c, m) \<leftarrow> pull P c m;
          let c = c\<lparr>r_pc := set_low l (r_pc c)\<rparr>;
          (h, c, m) \<leftarrow> pull P c m;
          let c = c\<lparr>r_pc := set_high h (r_pc c)\<rparr>;
          Some (last_cycle (cycle (c\<lparr>r_pc := r_pc c + 1\<rparr>)), m) }"

definition instr_brk :: "'m cpu_ports \<Rightarrow> cpu \<Rightarrow> 'm \<Rightarrow> (cpu \<times> 'm) option" where
  "instr_brk P c m = interrupt P (set_break True c) m"

definition instr_rti :: "'m cpu_ports \<Rightarrow> cpu \<Rightarrow> 'm \<Rightarrow> (cpu \<times> 'm) option" where
  "instr_rti P c m =
     do { let c = cycle (cycle c);
          (v, c, m) \<leftarrow> pull P c m;
          let c = set_break False (c\<lparr>r_flags := ps_of_uint8 v\<rparr>);
          (l, c, m) \<leftarrow> pull P c m;
          let c = c\<lparr>r_pc := set_low l (r_pc c)\<rparr>;
          (h, c, m) \<leftarrow> pull P c m;
          Some (last_cycle (c\<lparr>r_pc := set_high h (r_pc c)\<rparr>), m) }"

definition instr_nop :: "cpu \<Rightarrow> cpu" where
  "instr_nop c = last_cycle (cycle c)"

section \<open>Dispatch\<close>

text \<open>
  The cases of the switch, one constructor per macro: \<open>IMPLD\<close> for \<^verbatim>\<open>INSTR_IMPLD\<close>, \<open>READ\<close> and
  \<open>MODIFY\<close> for \<^verbatim>\<open>INSTR_AMODE\<close>, \<open>WRITE\<close> for \<^verbatim>\<open>INSTR_WRITE\<close>, the last three for \<^verbatim>\<open>INSTR_OTHER\<close>.
\<close>

datatype iname = I_brk | I_php | I_jsr | I_plp | I_rti | I_pha | I_jmp | I_rts | I_pla
  | I_jmp_ind | I_dey | I_iny | I_dex | I_inx | I_nop
datatype rname = I_lda | I_ldx | I_ldy | I_cmp | I_cpx | I_cpy | I_adc | I_sbc
  | I_ora | I_and | I_eor | I_bit
datatype mname = I_inc | I_dec | I_asl | I_lsr | I_rol | I_ror

datatype entry = IMPLD iname | READ rname mode | MODIFY mname mode | WRITE mode regname
  | BRANCH flagname bool | FLAG flagname bool | TRANSFER regname regname

primrec instr_read :: "rname \<Rightarrow> uint8 \<Rightarrow> cpu \<Rightarrow> cpu" where
  "instr_read I_lda = instr_lda" | "instr_read I_ldx = instr_ldx" | "instr_read I_ldy = instr_ldy"
| "instr_read I_cmp = instr_cmp" | "instr_read I_cpx = instr_cpx" | "instr_read I_cpy = instr_cpy"
| "instr_read I_adc = instr_adc" | "instr_read I_sbc = instr_sbc" | "instr_read I_ora = instr_ora"
| "instr_read I_and = instr_and" | "instr_read I_eor = instr_eor" | "instr_read I_bit = instr_bit"

primrec instr_modify :: "mname \<Rightarrow> uint8 \<Rightarrow> cpu \<Rightarrow> uint8 \<times> cpu" where
  "instr_modify I_inc = instr_inc" | "instr_modify I_dec = instr_dec" | "instr_modify I_asl = instr_asl"
| "instr_modify I_lsr = instr_lsr" | "instr_modify I_rol = instr_rol" | "instr_modify I_ror = instr_ror"

text \<open>Modes without a function of that kind never occur in the switch.\<close>

fun addrmode_read :: "'m cpu_ports \<Rightarrow> mode \<Rightarrow> (uint8 \<Rightarrow> cpu \<Rightarrow> cpu) \<Rightarrow> cpu \<Rightarrow> 'm \<Rightarrow> (cpu \<times> 'm) option" where
  "addrmode_read P Imm f c m = addrmode_imm_read P f c m"
| "addrmode_read P Zero f c m = addrmode_zero_read P f c m"
| "addrmode_read P Zerox f c m = addrmode_zerox_read P f c m"
| "addrmode_read P Zeroy f c m = addrmode_zeroy_read P f c m"
| "addrmode_read P Abs f c m = addrmode_abs_read P f c m"
| "addrmode_read P Absx f c m = addrmode_absx_read P f c m"
| "addrmode_read P Absy f c m = addrmode_absy_read P f c m"
| "addrmode_read P Indx f c m = addrmode_indx_read P f c m"
| "addrmode_read P Indy f c m = addrmode_indy_read P f c m"
| "addrmode_read P _ f c m = None"

fun addrmode_modify ::
  "'m cpu_ports \<Rightarrow> mode \<Rightarrow> (uint8 \<Rightarrow> cpu \<Rightarrow> uint8 \<times> cpu) \<Rightarrow> cpu \<Rightarrow> 'm \<Rightarrow> (cpu \<times> 'm) option" where
  "addrmode_modify P Accum f c m = addrmode_accum_modify P f c m"
| "addrmode_modify P Zero f c m = addrmode_zero_modify P f c m"
| "addrmode_modify P Zerox f c m = addrmode_zerox_modify P f c m"
| "addrmode_modify P Abs f c m = addrmode_abs_modify P f c m"
| "addrmode_modify P Absx f c m = addrmode_absx_modify P f c m"
| "addrmode_modify P _ f c m = None"

fun addrmode_write :: "'m cpu_ports \<Rightarrow> mode \<Rightarrow> uint8 \<Rightarrow> cpu \<Rightarrow> 'm \<Rightarrow> (cpu \<times> 'm) option" where
  "addrmode_write P Zero val c m = addrmode_zero_write P val c m"
| "addrmode_write P Zerox val c m = addrmode_zerox_write P val c m"
| "addrmode_write P Zeroy val c m = addrmode_zeroy_write P val c m"
| "addrmode_write P Abs val c m = addrmode_abs_write P val c m"
| "addrmode_write P Absx val c m = addrmode_absx_write P val c m"
| "addrmode_write P Absy val c m = addrmode_absy_write P val c m"
| "addrmode_write P Indx val c m = addrmode_indx_write P val c m"
| "addrmode_write P Indy val c m = addrmode_indy_write P val c m"
| "addrmode_write P _ val c m = None"

primrec instr_impld :: "'m cpu_ports \<Rightarrow> iname \<Rightarrow> cpu \<Rightarrow> 'm \<Rightarrow> (cpu \<times> 'm) option" where
  "instr_impld P I_brk c m = instr_brk P c m"
| "instr_impld P I_php c m = instr_php P c m"
| "instr_impld P I_jsr c m = instr_jsr P c m"
| "instr_impld P I_plp c m = instr_plp P c m"
| "instr_impld P I_rti c m = instr_rti P c m"
| "instr_impld P I_pha c m = instr_pha P c m"
| "instr_impld P I_jmp c m = instr_jmp P c m"
| "instr_impld P I_rts c m = instr_rts P c m"
| "instr_impld P I_pla c m = instr_pla P c m"
| "instr_impld P I_jmp_ind c m = instr_jmp_ind P c m"
| "instr_impld P I_dey c m = Some (instr_dey c, m)"
| "instr_impld P I_iny c m = Some (instr_iny c, m)"
| "instr_impld P I_dex c m = Some (instr_dex c, m)"
| "instr_impld P I_inx c m = Some (instr_inx c, m)"
| "instr_impld P I_nop c m = Some (instr_nop c, m)"

definition execute_tab :: "(uint8 \<times> entry) list" where
  "execute_tab =
  [(0x00, IMPLD I_brk), (0x01, READ I_ora Indx), (0x05, READ I_ora Zero),
   (0x06, MODIFY I_asl Zero), (0x08, IMPLD I_php), (0x09, READ I_ora Imm),
   (0x0A, MODIFY I_asl Accum), (0x0D, READ I_ora Abs), (0x0E, MODIFY I_asl Abs),
   (0x10, BRANCH F_neg False), (0x11, READ I_ora Indy), (0x15, READ I_ora Zerox),
   (0x16, MODIFY I_asl Zerox), (0x18, FLAG F_carry False), (0x19, READ I_ora Absy),
   (0x1D, READ I_ora Absx), (0x1E, MODIFY I_asl Absx), (0x20, IMPLD I_jsr),
   (0x21, READ I_and Indx), (0x24, READ I_bit Zero), (0x25, READ I_and Zero),
   (0x26, MODIFY I_rol Zero), (0x28, IMPLD I_plp), (0x29, READ I_and Imm),
   (0x2A, MODIFY I_rol Accum), (0x2C, READ I_bit Abs), (0x2D, READ I_and Abs),
   (0x2E, MODIFY I_rol Abs), (0x30, BRANCH F_neg True), (0x31, READ I_and Indy),
   (0x35, READ I_and Zerox), (0x36, MODIFY I_rol Zerox), (0x38, FLAG F_carry True),
   (0x39, READ I_and Absy), (0x3D, READ I_and Absx), (0x3E, MODIFY I_rol Absx),
   (0x40, IMPLD I_rti), (0x41, READ I_eor Indx), (0x45, READ I_eor Zero),
   (0x46, MODIFY I_lsr Zero), (0x48, IMPLD I_pha), (0x49, READ I_eor Imm),
   (0x4A, MODIFY I_lsr Accum), (0x4C, IMPLD I_jmp), (0x4D, READ I_eor Abs),
   (0x4E, MODIFY I_lsr Abs), (0x50, BRANCH F_ov False), (0x51, READ I_eor Indy),
   (0x55, READ I_eor Zerox), (0x56, MODIFY I_lsr Zerox), (0x58, FLAG F_intdis False),
   (0x59, READ I_eor Absy), (0x5D, READ I_eor Absx), (0x5E, MODIFY I_lsr Absx),
   (0x60, IMPLD I_rts), (0x61, READ I_adc Indx), (0x65, READ I_adc Zero),
   (0x66, MODIFY I_ror Zero), (0x68, IMPLD I_pla), (0x69, READ I_adc Imm),
   (0x6A, MODIFY I_ror Accum), (0x6C, IMPLD I_jmp_ind), (0x6D, READ I_adc Abs),
   (0x6E, MODIFY I_ror Abs), (0x70, BRANCH F_ov True), (0x71, READ I_adc Indy),
   (0x75, READ I_adc Zerox), (0x76, MODIFY I_ror Zerox), (0x78, FLAG F_intdis True),
   (0x79, READ I_adc Absy), (0x7D, READ I_adc Absx), (0x7E, MODIFY I_ror Absx),
   (0x81, WRITE Indx R_acc), (0x84, WRITE Zero R_y), (0x85, WRITE Zero R_acc),
   (0x86, WRITE Zero R_x), (0x88, IMPLD I_dey), (0x8A, TRANSFER R_x R_acc), (0x8C, WRITE Abs R_y),
   (0x8D, WRITE Abs R_acc), (0x8E, WRITE Abs R_x), (0x90, BRANCH F_carry False),
   (0x91, WRITE Indy R_acc), (0x94, WRITE Zerox R_y), (0x95, WRITE Zerox R_acc),
   (0x96, WRITE Zeroy R_x), (0x98, TRANSFER R_y R_acc), (0x99, WRITE Absy R_acc),
   (0x9A, TRANSFER R_x R_sp), (0x9D, WRITE Absx R_acc), (0xA0, READ I_ldy Imm),
   (0xA1, READ I_lda Indx), (0xA2, READ I_ldx Imm), (0xA4, READ I_ldy Zero),
   (0xA5, READ I_lda Zero), (0xA6, READ I_ldx Zero), (0xA8, TRANSFER R_acc R_y),
   (0xA9, READ I_lda Imm), (0xAA, TRANSFER R_acc R_x), (0xAC, READ I_ldy Abs),
   (0xAD, READ I_lda Abs), (0xAE, READ I_ldx Abs), (0xB0, BRANCH F_carry True),
   (0xB1, READ I_lda Indy), (0xB4, READ I_ldy Zerox), (0xB5, READ I_lda Zerox),
   (0xB6, READ I_ldx Zeroy), (0xB8, FLAG F_ov False), (0xB9, READ I_lda Absy),
   (0xBA, TRANSFER R_sp R_x), (0xBC, READ I_ldy Absx), (0xBD, READ I_lda Absx),
   (0xBE, READ I_ldx Absy), (0xC0, READ I_cpy Imm), (0xC1, READ I_cmp Indx),
   (0xC4, READ I_cpy Zero), (0xC5, READ I_cmp Zero), (0xC6, MODIFY I_dec Zero),
   (0xC8, IMPLD I_iny), (0xC9, READ I_cmp Imm), (0xCA, IMPLD I_dex), (0xCC, READ I_cpy Abs),
   (0xCD, READ I_cmp Abs), (0xCE, MODIFY I_dec Abs), (0xD0, BRANCH F_zero False),
   (0xD1, READ I_cmp Indy), (0xD5, READ I_cmp Zerox), (0xD6, MODIFY I_dec Zerox),
   (0xD8, FLAG F_decimal False), (0xD9, READ I_cmp Absy), (0xDD, READ I_cmp Absx),
   (0xDE, MODIFY I_dec Absx), (0xE0, READ I_cpx Imm), (0xE1, READ I_sbc Indx),
   (0xE4, READ I_cpx Zero), (0xE5, READ I_sbc Zero), (0xE6, MODIFY I_inc Zero),
   (0xE8, IMPLD I_inx), (0xE9, READ I_sbc Imm), (0xEA, IMPLD I_nop), (0xEC, READ I_cpx Abs),
   (0xED, READ I_sbc Abs), (0xEE, MODIFY I_inc Abs), (0xF0, BRANCH F_zero True),
   (0xF1, READ I_sbc Indy), (0xF5, READ I_sbc Zerox), (0xF6, MODIFY I_inc Zerox),
   (0xF8, FLAG F_decimal True), (0xF9, READ I_sbc Absy), (0xFD, READ I_sbc Absx),
   (0xFE, MODIFY I_inc Absx)]"

primrec exec_entry :: "'m cpu_ports \<Rightarrow> entry \<Rightarrow> cpu \<Rightarrow> 'm \<Rightarrow> (cpu \<times> 'm) option" where
  "exec_entry P (IMPLD i) c m = instr_impld P i c m"
| "exec_entry P (READ i md) c m = addrmode_read P md (instr_read i) c m"
| "exec_entry P (MODIFY i md) c m = addrmode_modify P md (instr_modify i) c m"
| "exec_entry P (WRITE md r) c m = addrmode_write P md (get_reg r c) c m"
| "exec_entry P (BRANCH f v) c m = instr_branch P (get_flag f c = v) c m"
| "exec_entry P (FLAG f v) c m = Some (instr_flag f v c, m)"
| "exec_entry P (TRANSFER from to) c m = Some (instr_transfer (get_reg from c) to c, m)"

text \<open>An unknown opcode only prints a debug message.\<close>

definition execute :: "'m cpu_ports \<Rightarrow> uint8 \<Rightarrow> cpu \<Rightarrow> 'm \<Rightarrow> (cpu \<times> 'm) option" where
  "execute P instr c m =
     (case map_of execute_tab instr of None \<Rightarrow> Some (c, m) | Some e \<Rightarrow> exec_entry P e c m)"

definition cpu_run :: "'m cpu_ports \<Rightarrow> cpu \<Rightarrow> 'm \<Rightarrow> (cpu \<times> 'm) option" where
  "cpu_run P c m =
     (if execnmi c then
        do { (c, m) \<leftarrow> interrupt P (cycle c) m; Some (c\<lparr>execnmi := False\<rparr>, m) }
      else if execirq c then
        do { (c, m) \<leftarrow> interrupt P (cycle c) m; Some (c\<lparr>execirq := False\<rparr>, m) }
      else do { (instr, c, m) \<leftarrow> fetch P c m; execute P instr c m })"

end
