(* ===== verification/CpuTheorems.thy ===== *)
theory CpuTheorems
  imports Instructions
begin

text \<open>
  What the processor does for any memory: how many cycles and bytes each instruction takes,
  arithmetic and flags, and the agreement of the dispatch with the table of the disassembler.
\<close>

unbundle bit_operations_syntax

section \<open>A memory to compute with\<close>

text \<open>All addresses are plain bytes and no debugger is attached; the witnesses run on it.\<close>

definition flat_ports :: "(uint16 \<Rightarrow> uint8) cpu_ports" where
  "flat_ports = \<lparr>port_read = (\<lambda>a m. Some (m a, m)), port_write = (\<lambda>a v m. Some (m(a := v))),
     port_callback = None\<rparr>"

lemma flat_ports_simps [simp]:
  "port_read flat_ports a m = Some (m a, m)" "port_write flat_ports a v m = Some (m(a := v))"
  "port_callback flat_ports = None"
  by (simp_all add: flat_ports_def)

section \<open>The effect of the primitives on the processor\<close>

text \<open>The memory side decides which values are read; what happens to the registers is fixed.\<close>

lemma bind_SomeE:
  assumes "Option.bind x f = Some y"
  obtains z where "x = Some z" "f z = Some y"
  using assms by (cases x) auto

lemma fetch_cpu:
  "fetch P c m = Some (v, c', m') \<Longrightarrow> c' = (cycle c)\<lparr>r_pc := r_pc c + 1\<rparr>"
  by (auto simp: fetch_def cycle_def Let_def elim!: bind_SomeE)

lemma fetchop_cpu:
  "fetchop P c m = Some (v, c', m') \<Longrightarrow> c' = (cycle c)\<lparr>r_pc := r_pc c + 1\<rparr>"
  by (auto simp: fetchop_def cycle_def Let_def elim!: bind_SomeE)

lemma readmem_cpu: "readmem P a c m = Some (v, c', m') \<Longrightarrow> c' = cycle c"
  by (auto simp: readmem_def Let_def elim!: bind_SomeE)

lemma writemem_cpu: "writemem P a v c m = Some (c', m') \<Longrightarrow> c' = cycle c"
  by (auto simp: writemem_def Let_def elim!: bind_SomeE)

lemma push_cpu: "push P v c m = Some (c', m') \<Longrightarrow> c' = (cycle c)\<lparr>r_sp := r_sp c - 1\<rparr>"
  by (auto simp: push_def cycle_def elim!: bind_SomeE dest!: writemem_cpu)

lemma pull_cpu: "pull P c m = Some (v, c', m') \<Longrightarrow> c' = cycle (c\<lparr>r_sp := r_sp c + 1\<rparr>)"
  by (auto simp: pull_def Let_def dest!: readmem_cpu)

lemma fetch_low_cpu:
  "fetch_low P c m = Some (c', m') \<Longrightarrow>
   \<exists>v. c' = (cycle c)\<lparr>r_pc := r_pc c + 1, opargs := set_low v (opargs c)\<rparr>"
  by (auto simp: fetch_low_def cycle_def elim!: bind_SomeE dest!: fetchop_cpu)

lemma fetch_high_cpu:
  "fetch_high P c m = Some (c', m') \<Longrightarrow>
   \<exists>v. c' = (cycle c)\<lparr>r_pc := r_pc c + 1, opargs := set_high v (opargs c)\<rparr>"
  by (auto simp: fetch_high_def cycle_def elim!: bind_SomeE dest!: fetchop_cpu)

lemmas access_cpu = fetchop_cpu readmem_cpu writemem_cpu push_cpu pull_cpu fetch_low_cpu fetch_high_cpu

lemma cycle_fields [simp]:
  "r_cycles (cycle c) = r_cycles c + 1" "r_pc (cycle c) = r_pc c" "r_acc (cycle c) = r_acc c"
  "r_x (cycle c) = r_x c" "r_y (cycle c) = r_y c" "r_sp (cycle c) = r_sp c"
  "r_flags (cycle c) = r_flags c" "opargs (cycle c) = opargs c" "nmipending (cycle c) = nmipending c"
  "irqpending (cycle c) = irqpending c" "resetpending (cycle c) = resetpending c"
  "execnmi (cycle c) = execnmi c" "execirq (cycle c) = execirq c"
  by (simp_all add: cycle_def)

lemma last_cycle_fields [simp]:
  "r_cycles (last_cycle c) = r_cycles c" "r_pc (last_cycle c) = r_pc c"
  "r_acc (last_cycle c) = r_acc c" "r_x (last_cycle c) = r_x c" "r_y (last_cycle c) = r_y c"
  "r_sp (last_cycle c) = r_sp c" "r_flags (last_cycle c) = r_flags c"
  "opargs (last_cycle c) = opargs c" "nmipending (last_cycle c) = nmipending c"
  "irqpending (last_cycle c) = irqpending c" "resetpending (last_cycle c) = resetpending c"
  by (simp_all add: last_cycle_def irqpoll_def nmipoll_def)

lemma set_flags_fields [simp]:
  "r_cycles (set_flags f c) = r_cycles c" "r_pc (set_flags f c) = r_pc c"
  "r_acc (set_flags f c) = r_acc c" "r_x (set_flags f c) = r_x c" "r_y (set_flags f c) = r_y c"
  "r_sp (set_flags f c) = r_sp c" "r_flags (set_flags f c) = f (r_flags c)"
  "opargs (set_flags f c) = opargs c"  "nmipending (set_flags f c) = nmipending c"
  "irqpending (set_flags f c) = irqpending c" "resetpending (set_flags f c) = resetpending c"
  "execnmi (set_flags f c) = execnmi c" "execirq (set_flags f c) = execirq c"
  by (simp_all add: set_flags_def)

lemmas flag_setters = set_zn_def set_carry_def set_break_def

lemmas instr_read_defs = instr_lda_def instr_ldx_def instr_ldy_def compare_def instr_cmp_def
  instr_cpx_def instr_cpy_def instr_adc_def instr_sbc_def instr_ora_def instr_and_def
  instr_eor_def instr_bit_def

lemmas instr_modify_defs = instr_inc_def instr_dec_def instr_asl_def instr_lsr_def instr_rol_def
  instr_ror_def

lemma instr_read_frame [simp]:
  "r_cycles (instr_read i v c) = r_cycles c" "r_pc (instr_read i v c) = r_pc c"
  "r_sp (instr_read i v c) = r_sp c" "opargs (instr_read i v c) = opargs c"
  by (cases i; simp add: instr_read_defs flag_setters Let_def)+

lemma instr_modify_frame:
  "instr_modify i v c = (v', c') \<Longrightarrow>
   r_cycles c' = r_cycles c \<and> r_pc c' = r_pc c \<and> r_sp c' = r_sp c \<and> opargs c' = opargs c
   \<and> r_x c' = r_x c"
  by (cases i; auto simp: instr_modify_defs flag_setters Let_def)

lemma put_fields [simp]:
  "r_cycles (put_reg r v c) = r_cycles c" "r_pc (put_reg r v c) = r_pc c"
  "r_cycles (put_flag f b c) = r_cycles c" "r_pc (put_flag f b c) = r_pc c"
  by (cases r; simp)+ (cases f; simp)+

section \<open>Cycles\<close>

text \<open>
  The numbers of cycles in the comments of \<^verbatim>\<open>instructions.cpp\<close> (\<open>cycles: 4+1\<close> is the pair of a base
  and a possible penalty); the cycle of the opcode fetch is included. Instructions without a
  comment (\<^verbatim>\<open>INX\<close>, \<^verbatim>\<open>INY\<close>, \<^verbatim>\<open>DEX\<close>, \<^verbatim>\<open>DEY\<close>, \<^verbatim>\<open>NOP\<close>) take two; for \<^verbatim>\<open>BRK\<close> the comments
  point to the interrupt sequence, which takes seven with the fetch.
\<close>

primrec read_cycles :: "mode \<Rightarrow> nat \<times> nat" where
  "read_cycles Impld = (0, 0)" | "read_cycles Accum = (0, 0)" | "read_cycles Branch = (0, 0)"
| "read_cycles Imm = (2, 0)" | "read_cycles Zero = (3, 0)" | "read_cycles Zerox = (4, 0)"
| "read_cycles Zeroy = (4, 0)" | "read_cycles Indx = (6, 0)" | "read_cycles Indy = (5, 1)"
| "read_cycles Abs = (4, 0)" | "read_cycles Absx = (4, 1)" | "read_cycles Absy = (4, 1)"
| "read_cycles Ind = (0, 0)"

primrec modify_cycles :: "mode \<Rightarrow> nat" where
  "modify_cycles Impld = 0" | "modify_cycles Accum = 2" | "modify_cycles Branch = 0"
| "modify_cycles Imm = 0" | "modify_cycles Zero = 5" | "modify_cycles Zerox = 6"
| "modify_cycles Zeroy = 0" | "modify_cycles Indx = 0" | "modify_cycles Indy = 0"
| "modify_cycles Abs = 6" | "modify_cycles Absx = 7" | "modify_cycles Absy = 0"
| "modify_cycles Ind = 0"

primrec write_cycles :: "mode \<Rightarrow> nat" where
  "write_cycles Impld = 0" | "write_cycles Accum = 0" | "write_cycles Branch = 0"
| "write_cycles Imm = 0" | "write_cycles Zero = 3" | "write_cycles Zerox = 4"
| "write_cycles Zeroy = 4" | "write_cycles Indx = 6" | "write_cycles Indy = 6"
| "write_cycles Abs = 4" | "write_cycles Absx = 5" | "write_cycles Absy = 5"
| "write_cycles Ind = 0"

primrec impld_cycles :: "iname \<Rightarrow> nat" where
  "impld_cycles I_brk = 7" | "impld_cycles I_php = 3" | "impld_cycles I_jsr = 6"
| "impld_cycles I_plp = 4" | "impld_cycles I_rti = 6" | "impld_cycles I_pha = 3"
| "impld_cycles I_jmp = 3" | "impld_cycles I_rts = 6" | "impld_cycles I_pla = 4"
| "impld_cycles I_jmp_ind = 5" | "impld_cycles I_dey = 2" | "impld_cycles I_iny = 2"
| "impld_cycles I_dex = 2" | "impld_cycles I_inx = 2" | "impld_cycles I_nop = 2"

primrec entry_cycles :: "entry \<Rightarrow> nat \<times> nat" where
  "entry_cycles (IMPLD i) = (impld_cycles i, 0)"
| "entry_cycles (READ i md) = read_cycles md"
| "entry_cycles (MODIFY i md) = (modify_cycles md, 0)"
| "entry_cycles (WRITE md r) = (write_cycles md, 0)"
| "entry_cycles (BRANCH f v) = (2, 2)"
| "entry_cycles (FLAG f v) = (2, 0)"
| "entry_cycles (TRANSFER from to) = (2, 0)"

lemmas addrmode_read_defs = addrmode_imm_read_def addrmode_zero_read_def addrmode_zerox_read_def
  addrmode_zeroy_read_def addrmode_abs_read_def addrmode_absx_read_def addrmode_absy_read_def
  addrmode_indx_read_def addrmode_indy_read_def

lemmas addrmode_modify_defs = addrmode_accum_modify_def addrmode_zero_modify_def
  addrmode_zerox_modify_def addrmode_abs_modify_def addrmode_absx_modify_def

lemmas addrmode_write_defs = addrmode_zero_write_def addrmode_zerox_write_def
  addrmode_zeroy_write_def addrmode_abs_write_def addrmode_absx_write_def addrmode_absy_write_def
  addrmode_indx_write_def addrmode_indy_write_def

text \<open>\<open>takes c c' b p\<close>: between \<open>c\<close> and \<open>c'\<close> passed \<open>b\<close> cycles and at most \<open>p\<close> more, the fetch of the
  opcode not counted.\<close>

definition takes :: "cpu \<Rightarrow> cpu \<Rightarrow> nat \<times> nat \<Rightarrow> bool" where
  "takes c c' = (\<lambda>(b, p). \<exists>n. b \<le> n \<and> n \<le> b + p \<and> r_cycles c' + 1 = r_cycles c + of_nat n)"

lemma takes_exact: "r_cycles c' + 1 = r_cycles c + of_nat b \<Longrightarrow> takes c c' (b, p)"
  by (auto simp: takes_def)

lemma takes_more:
  assumes "r_cycles c' + 1 = r_cycles c + of_nat b
    \<or> r_cycles c' = r_cycles c + of_nat b \<and> 0 < p
    \<or> r_cycles c' = r_cycles c + of_nat b + 1 \<and> 1 < p"
  shows "takes c c' (b, p)"
  using assms by (auto simp: takes_def intro: exI [of _ b] exI [of _ "Suc b"] exI [of _ "Suc (Suc b)"])

lemma addrmode_read_cycles:
  "addrmode_read P md (instr_read i) c m = Some (c', m') \<Longrightarrow> takes c c' (read_cycles md)"
  by (cases md; auto simp: addrmode_read_defs Let_def elim!: bind_SomeE dest!: access_cpu
      intro!: takes_more split: if_splits)

lemma addrmode_modify_cycles:
  "addrmode_modify P md (instr_modify i) c m = Some (c', m') \<Longrightarrow> takes c c' (modify_cycles md, 0)"
  by (cases md; auto simp: addrmode_modify_defs Let_def elim!: bind_SomeE
      dest!: access_cpu instr_modify_frame intro!: takes_exact split: prod.splits)

lemma addrmode_write_cycles:
  "addrmode_write P md v c m = Some (c', m') \<Longrightarrow> takes c c' (write_cycles md, 0)"
  by (cases md; auto simp: addrmode_write_defs Let_def elim!: bind_SomeE dest!: access_cpu
      intro!: takes_exact)

lemma branch_cycles: "instr_branch P b c m = Some (c', m') \<Longrightarrow> takes c c' (2, 2)"
  by (auto simp: instr_branch_def Let_def elim!: bind_SomeE dest!: access_cpu intro!: takes_more
      split: if_splits)

lemmas instr_direct_defs = instr_flag_def instr_transfer_def instr_inx_def instr_iny_def
  instr_dex_def instr_dey_def instr_nop_def

lemmas instr_stack_defs = instr_php_def instr_pha_def instr_plp_def instr_pla_def instr_jsr_def
  instr_jmp_def instr_jmp_ind_def instr_rts_def instr_rti_def

lemma take_vector_fields [simp]:
  "r_cycles (snd (take_vector c)) = r_cycles c" "r_sp (snd (take_vector c)) = r_sp c"
  "r_pc (snd (take_vector c)) = r_pc c" "r_flags (snd (take_vector c)) = r_flags c"
  "r_acc (snd (take_vector c)) = r_acc c" "r_x (snd (take_vector c)) = r_x c"
  "r_y (snd (take_vector c)) = r_y c" "execnmi (snd (take_vector c)) = execnmi c"
  "execirq (snd (take_vector c)) = execirq c"
  by (simp_all add: take_vector_def)

lemma interrupt_cpu:
  assumes "interrupt P c m = Some (c', m')"
  shows "r_cycles c' = r_cycles c + 6 \<and> r_sp c' = r_sp c - 3 \<and>
    r_flags c' = (r_flags c)\<lparr>f_breakf := False, f_intdis := True\<rparr> \<and>
    r_acc c' = r_acc c \<and> r_x c' = r_x c \<and> r_y c' = r_y c \<and>
    execnmi c' = execnmi c \<and> execirq c' = execirq c"
  using assms
  by (auto simp: interrupt_def case_prod_unfold Let_def elim!: bind_SomeE dest!: access_cpu)

lemma impld_cycles_ok:
  "instr_impld P i c m = Some (c', m') \<Longrightarrow> takes c c' (impld_cycles i, 0)"
  by (cases i; auto simp: instr_direct_defs instr_stack_defs instr_brk_def Let_def flag_setters
      elim!: bind_SomeE dest!: access_cpu interrupt_cpu intro!: takes_exact split: if_splits)

lemma entry_cycles_ok:
  "exec_entry P e c m = Some (c', m') \<Longrightarrow> takes c c' (entry_cycles e)"
proof (cases e)
  case (READ i md)
  moreover assume "exec_entry P e c m = Some (c', m')"
  ultimately show ?thesis using addrmode_read_cycles [of P md i] by simp
qed (auto dest!: impld_cycles_ok addrmode_modify_cycles addrmode_write_cycles branch_cycles
      simp: instr_direct_defs flag_setters intro: takes_exact)

lemma table_cycles: "list_all (\<lambda>(i, e). (\<lambda>(b, p). 1 \<le> b \<and> b + p \<le> 7) (entry_cycles e)) execute_tab"
  by (simp add: execute_tab_def)

lemma table_cyclesD:
  assumes "map_of execute_tab i = Some e" "entry_cycles e = (b, p)"
  shows "1 \<le> b \<and> b + p \<le> 7"
  using table_cycles map_of_SomeD [OF assms(1)] assms(2) by (fastforce simp: list_all_iff)

text \<open>
  C9: an instruction takes the cycles its comment in \<^verbatim>\<open>instructions.cpp\<close> states: whatever memory and
  registers hold, \<^verbatim>\<open>CPU::run\<close> with no interrupt to execute advances the cycle counter by the base
  count of the fetched opcode and at most its penalty.
\<close>

theorem run_instruction_cycles:
  assumes "\<not> execnmi c" "\<not> execirq c"
    and "fetch P c m = Some (i, c1, m1)" "map_of execute_tab i = Some e"
    and "cpu_run P c m = Some (c', m')"
  shows "\<exists>n. fst (entry_cycles e) \<le> n \<and> n \<le> fst (entry_cycles e) + snd (entry_cycles e)
           \<and> r_cycles c' = r_cycles c + of_nat n"
proof -
  have "exec_entry P e c1 m1 = Some (c', m')"
    using assms by (simp add: cpu_run_def execute_def)
  from entry_cycles_ok [OF this] obtain n where n: "fst (entry_cycles e) \<le> n"
    "n \<le> fst (entry_cycles e) + snd (entry_cycles e)" "r_cycles c' + 1 = r_cycles c1 + of_nat n"
    by (auto simp: takes_def case_prod_unfold)
  moreover have "r_cycles c1 = r_cycles c + 1" using fetch_cpu [OF assms(3)] by simp
  ultimately show ?thesis by (intro exI [of _ n]) simp
qed

text \<open>The witness: \<^verbatim>\<open>LDA #5\<close> (2 cycles) at address \<^verbatim>\<open>0x8000\<close>.\<close>

lemmas run_defs = cpu_run_def execute_def fetch_def fetchop_def fetch_low_def notify_def

theorem run_instruction_cycles_witness:
  "\<exists>n. fst (entry_cycles (READ I_lda Imm)) \<le> n \<and> n \<le> fst (entry_cycles (READ I_lda Imm)) + snd (entry_cycles (READ I_lda Imm))
     \<and> r_cycles (fst (the (cpu_run flat_ports (cpu_default\<lparr>r_pc := 0x8000\<rparr>) ((\<lambda>_. 0xA9)(0x8001 := 5)))))
       = r_cycles (cpu_default\<lparr>r_pc := 0x8000\<rparr>) + of_nat n"
proof (rule run_instruction_cycles)
  let ?c = "cpu_default\<lparr>r_pc := 0x8000\<rparr>" and ?m = "(\<lambda>_. 0xA9)(0x8001 := 5) :: uint16 \<Rightarrow> uint8"
  show "\<not> execnmi ?c" "\<not> execirq ?c" by (simp_all add: cpu_default_def)
  show "fetch flat_ports ?c ?m = Some (0xA9, (cycle ?c)\<lparr>r_pc := 0x8001\<rparr>, ?m)"
    by (simp add: fetch_def notify_def cycle_def cpu_default_def)
  show "map_of execute_tab 0xA9 = Some (READ I_lda Imm)" by (simp add: execute_tab_def)
  then show "cpu_run flat_ports ?c ?m =
    Some (fst (the (cpu_run flat_ports ?c ?m)), snd (the (cpu_run flat_ports ?c ?m)))"
    by (simp add: run_defs cpu_default_def addrmode_imm_read_def)
qed

text \<open>
  \<^verbatim>\<open>CPU::run\<close> always makes progress: each call, whether it executes an instruction, an interrupt
  or meets an unknown opcode, advances the cycle counter by at least one and at most seven.
\<close>

lemma cpu_run_progress:
  assumes "cpu_run P c m = Some (c', m')"
  shows "\<exists>n. 1 \<le> n \<and> n \<le> 7 \<and> r_cycles c' = r_cycles c + of_nat n"
proof -
  consider (int) "execnmi c \<or> execirq c" | (instr) "\<not> execnmi c" "\<not> execirq c" by auto
  then show ?thesis
  proof cases
    case int
    then show ?thesis using assms
      by (intro exI [of _ 7])
         (auto simp: cpu_run_def elim!: bind_SomeE dest!: interrupt_cpu split: if_splits)
  next
    case instr
    with assms obtain i c1 m1 where f: "fetch P c m = Some (i, c1, m1)" "execute P i c1 m1 = Some (c', m')"
      by (auto simp: cpu_run_def elim!: bind_SomeE)
    have c1: "r_cycles c1 = r_cycles c + 1" using fetch_cpu [OF f(1)] by simp
    show ?thesis
    proof (cases "map_of execute_tab i")
      case None
      then show ?thesis using f(2) c1 by (intro exI [of _ 1]) (simp add: execute_def)
    next
      case (Some e)
      with f(2) have "exec_entry P e c1 m1 = Some (c', m')" by (simp add: execute_def)
      from entry_cycles_ok [OF this] obtain b p n where n: "entry_cycles e = (b, p)" "b \<le> n" "n \<le> b + p"
        "r_cycles c' + 1 = r_cycles c1 + of_nat n"
        by (auto simp: takes_def case_prod_unfold prod_eq_iff)
      with table_cyclesD [OF Some n(1)] c1 show ?thesis by (intro exI [of _ n]) auto
    qed
  qed
qed

section \<open>Operand bytes and the program counter\<close>

primrec read_name :: "rname \<Rightarrow> string" where
  "read_name I_lda = ''lda''" | "read_name I_ldx = ''ldx''" | "read_name I_ldy = ''ldy''"
| "read_name I_cmp = ''cmp''" | "read_name I_cpx = ''cpx''" | "read_name I_cpy = ''cpy''"
| "read_name I_adc = ''adc''" | "read_name I_sbc = ''sbc''" | "read_name I_ora = ''ora''"
| "read_name I_and = ''and''" | "read_name I_eor = ''eor''" | "read_name I_bit = ''bit''"

primrec modify_name :: "mname \<Rightarrow> string" where
  "modify_name I_inc = ''inc''" | "modify_name I_dec = ''dec''" | "modify_name I_asl = ''asl''"
| "modify_name I_lsr = ''lsr''" | "modify_name I_rol = ''rol''" | "modify_name I_ror = ''ror''"

primrec impld_name :: "iname \<Rightarrow> string \<times> mode" where
  "impld_name I_brk = (''brk'', Impld)" | "impld_name I_php = (''php'', Impld)"
| "impld_name I_jsr = (''jsr'', Abs)" | "impld_name I_plp = (''plp'', Impld)"
| "impld_name I_rti = (''rti'', Impld)" | "impld_name I_pha = (''pha'', Impld)"
| "impld_name I_jmp = (''jmp'', Abs)" | "impld_name I_rts = (''rts'', Impld)"
| "impld_name I_pla = (''pla'', Impld)" | "impld_name I_jmp_ind = (''jmp'', Ind)"
| "impld_name I_dey = (''dey'', Impld)" | "impld_name I_iny = (''iny'', Impld)"
| "impld_name I_dex = (''dex'', Impld)" | "impld_name I_inx = (''inx'', Impld)"
| "impld_name I_nop = (''nop'', Impld)"

primrec branch_name :: "flagname \<Rightarrow> bool \<Rightarrow> string" where
  "branch_name F_carry v = (if v then ''bcs'' else ''bcc'')"
| "branch_name F_zero v = (if v then ''beq'' else ''bne'')"
| "branch_name F_intdis v = []" | "branch_name F_decimal v = []"
| "branch_name F_ov v = (if v then ''bvs'' else ''bvc'')"
| "branch_name F_neg v = (if v then ''bmi'' else ''bpl'')"

primrec flag_letter :: "flagname \<Rightarrow> char" where
  "flag_letter F_carry = CHR ''c''" | "flag_letter F_zero = CHR ''z''"
| "flag_letter F_intdis = CHR ''i''" | "flag_letter F_decimal = CHR ''d''"
| "flag_letter F_ov = CHR ''v''" | "flag_letter F_neg = CHR ''n''"

primrec reg_letter :: "regname \<Rightarrow> char" where
  "reg_letter R_acc = CHR ''a''" | "reg_letter R_x = CHR ''x''" | "reg_letter R_y = CHR ''y''"
| "reg_letter R_sp = CHR ''s''"

text \<open>The assembler's view of an entry of the dispatch: the mnemonic and the addressing mode.\<close>

primrec mnemonic :: "entry \<Rightarrow> string \<times> mode" where
  "mnemonic (IMPLD i) = impld_name i"
| "mnemonic (READ i md) = (read_name i, md)"
| "mnemonic (MODIFY i md) = (modify_name i, md)"
| "mnemonic (WRITE md r) = (''st'' @ [reg_letter r], md)"
| "mnemonic (BRANCH f v) = (branch_name f v, Branch)"
| "mnemonic (FLAG f v) = ((if v then ''se'' else ''cl'') @ [flag_letter f], Impld)"
| "mnemonic (TRANSFER from to) = (''t'' @ [reg_letter from, reg_letter to], Impld)"

definition tables_agree_at :: "uint8 \<Rightarrow> bool" where
  "tables_agree_at i \<longleftrightarrow> map_of instr_mode i = map_option mnemonic (map_of execute_tab i)"

lemma tables_match:
  "map (\<lambda>(i, e). (i, mnemonic e)) [x \<leftarrow> execute_tab. fst x \<noteq> 0x94 \<and> fst x \<noteq> 0xF8] =
   [x \<leftarrow> instr_mode. fst x \<noteq> 0x94]"
  by (simp add: execute_tab_def instr_mode_def)

lemma map_of_filter_other: "P i \<Longrightarrow> map_of [x \<leftarrow> xs. P (fst x)] i = map_of xs i"
  by (induction xs) auto

lemma map_of_snd: "map_of (map (\<lambda>(k, v). (k, f v)) xs) k = map_option f (map_of xs k)"
  by (induction xs) auto

lemma tables_agree:
  assumes "i \<noteq> 0x94" "i \<noteq> 0xF8"
  shows "map_of instr_mode i = map_option mnemonic (map_of execute_tab i)"
proof -
  have "map_of instr_mode i = map_of [x \<leftarrow> instr_mode. fst x \<noteq> 0x94] i"
    using assms by (simp add: map_of_filter_other [where P = "\<lambda>k. k \<noteq> 0x94"])
  also have "\<dots> = map_option mnemonic (map_of [x \<leftarrow> execute_tab. fst x \<noteq> 0x94 \<and> fst x \<noteq> 0xF8] i)"
    by (simp only: tables_match [symmetric] map_of_snd)
  also have "\<dots> = map_option mnemonic (map_of execute_tab i)"
    using assms by (simp add: map_of_filter_other [where P = "\<lambda>k. k \<noteq> 0x94 \<and> k \<noteq> 0xF8"])
  finally show ?thesis .
qed

lemma tables_differ: "\<not> tables_agree_at 0x94" "\<not> tables_agree_at 0xF8"
  by (simp_all add: tables_agree_at_def instr_mode_def execute_tab_def)

text \<open>
  C17: the disassembler and the processor decode the same instruction set: for every opcode both
  tables have the same mnemonic and addressing mode, or neither has an entry, with exactly two
  exceptions: \<^verbatim>\<open>0x94\<close> (executed as \<^verbatim>\<open>STY\<close> zero page,X, listed as \<^verbatim>\<open>sta\<close>) and \<^verbatim>\<open>0xF8\<close> (\<^verbatim>\<open>SED\<close>, not listed).
\<close>

theorem decoders_agree: "tables_agree_at i \<longleftrightarrow> i \<noteq> 0x94 \<and> i \<noteq> 0xF8"
  using tables_agree [of i] tables_differ by (auto simp: tables_agree_at_def)

lemma num_bytes_entry:
  assumes "map_of execute_tab i = Some e"
  shows "num_bytes i = nb (snd (mnemonic e))"
proof -
  consider "i = 0x94" | "i = 0xF8" | "i \<noteq> 0x94" "i \<noteq> 0xF8" by blast
  then show ?thesis
  proof cases
    case 3
    from tables_agree [OF this] assms show ?thesis
      by (simp add: num_bytes_def case_prod_unfold)
  qed (use assms in \<open>auto simp: num_bytes_def instr_mode_def execute_tab_def\<close>)
qed

text \<open>The entries that set the program counter themselves.\<close>

primrec sets_pc :: "entry \<Rightarrow> bool" where
  "sets_pc (IMPLD i) = (i \<in> {I_brk, I_jsr, I_rti, I_jmp, I_rts, I_jmp_ind})"
| "sets_pc (READ i md) = False" | "sets_pc (MODIFY i md) = False" | "sets_pc (WRITE md r) = False"
| "sets_pc (BRANCH f v) = True" | "sets_pc (FLAG f v) = False" | "sets_pc (TRANSFER from to) = False"

lemma addrmode_read_pc:
  "addrmode_read P md (instr_read i) c m = Some (c', m') \<Longrightarrow> r_pc c' + 1 = r_pc c + of_nat (nb md)"
  by (cases md; auto simp: addrmode_read_defs Let_def elim!: bind_SomeE dest!: access_cpu
      split: if_splits)

lemma addrmode_modify_pc:
  "addrmode_modify P md (instr_modify i) c m = Some (c', m') \<Longrightarrow> r_pc c' + 1 = r_pc c + of_nat (nb md)"
  by (cases md; auto simp: addrmode_modify_defs Let_def elim!: bind_SomeE
      dest!: access_cpu instr_modify_frame split: prod.splits)

lemma addrmode_write_pc:
  "addrmode_write P md v c m = Some (c', m') \<Longrightarrow> r_pc c' + 1 = r_pc c + of_nat (nb md)"
  by (cases md; auto simp: addrmode_write_defs Let_def elim!: bind_SomeE dest!: access_cpu)

lemma impld_pc:
  "instr_impld P i c m = Some (c', m') \<Longrightarrow> \<not> sets_pc (IMPLD i) \<Longrightarrow>
   r_pc c' + 1 = r_pc c + of_nat (nb (snd (impld_name i)))"
  by (cases i; auto simp: instr_direct_defs instr_stack_defs Let_def flag_setters
      elim!: bind_SomeE dest!: access_cpu)

lemma entry_pc:
  assumes "exec_entry P e c m = Some (c', m')" "\<not> sets_pc e"
  shows "r_pc c' + 1 = r_pc c + of_nat (nb (snd (mnemonic e)))"
proof (cases e)
  case (IMPLD i)
  with assms impld_pc [of P i c m c' m'] show ?thesis by simp
qed (use assms in \<open>auto dest: addrmode_read_pc addrmode_modify_pc addrmode_write_pc
      simp: instr_direct_defs flag_setters\<close>)

text \<open>
  The length the disassembler gives an opcode is the number of bytes the processor consumes:
  after an instruction that does not set the program counter itself, the counter has advanced
  by \<^verbatim>\<open>num_bytes\<close>, with wrap-around at \<^verbatim>\<open>0xFFFF\<close>.
\<close>

theorem run_advances_pc:
  assumes "\<not> execnmi c" "\<not> execirq c"
    and "fetch P c m = Some (i, c1, m1)" "map_of execute_tab i = Some e" "\<not> sets_pc e"
    and "cpu_run P c m = Some (c', m')"
  shows "r_pc c' = r_pc c + of_nat (num_bytes i)"
proof -
  have "exec_entry P e c1 m1 = Some (c', m')"
    using assms by (simp add: cpu_run_def execute_def)
  from entry_pc [OF this assms(5)] fetch_cpu [OF assms(3)] num_bytes_entry [OF assms(4)]
  show ?thesis by (simp add: algebra_simps)
qed

lemma entry_A9: "map_of execute_tab 0xA9 = Some (READ I_lda Imm)"
  by (simp add: execute_tab_def)

theorem run_advances_pc_witness:
  "r_pc (fst (the (cpu_run flat_ports (cpu_default\<lparr>r_pc := 0x8000\<rparr>) (\<lambda>_. 0xA9)))) = 0x8002"
proof -
  let ?c = "cpu_default\<lparr>r_pc := 0x8000\<rparr>" and ?m = "\<lambda>_. 0xA9 :: uint8"
  have "r_pc (fst (the (cpu_run flat_ports ?c ?m))) = r_pc ?c + of_nat (num_bytes 0xA9)"
  proof (rule run_advances_pc)
    show "\<not> execnmi ?c" "\<not> execirq ?c" by (simp_all add: cpu_default_def)
    show "fetch flat_ports ?c ?m = Some (0xA9, (cycle ?c)\<lparr>r_pc := 0x8001\<rparr>, ?m)"
      by (simp add: fetch_def notify_def cycle_def cpu_default_def)
    show "map_of execute_tab 0xA9 = Some (READ I_lda Imm)" by (rule entry_A9)
    then show "cpu_run flat_ports ?c ?m =
      Some (fst (the (cpu_run flat_ports ?c ?m)), snd (the (cpu_run flat_ports ?c ?m)))"
      by (simp add: run_defs cpu_default_def addrmode_imm_read_def)
  qed simp
  also have "num_bytes 0xA9 = 2" by (simp add: num_bytes_entry [OF entry_A9])
  finally show ?thesis by simp
qed

end
