(* ===== verification/CpuMemory.thy ===== *)
theory CpuMemory
  imports CpuTheorems
begin

text \<open>
  The contract between the processor and the machine on its bus, as a locale, and what the
  processor does under it: the stack, interrupts and their return, subroutines, power-up and
  the prediction of the next instruction address.

  The contract: RAM below \<^verbatim>\<open>0x2000\<close> can be read and written and repeats every \<^verbatim>\<open>0x800\<close> bytes, reading
  outside the registers of the picture unit (\<^verbatim>\<open>0x2000\<close> to \<^verbatim>\<open>0x3FFF\<close>) changes nothing, writes to the
  sound registers are ignored and no debugger is attached. The emulator's own memory side
  satisfies it (theory \<open>Emulator\<close>).
\<close>

unbundle bit_operations_syntax

abbreviation plain :: "uint16 \<Rightarrow> bool" where
  "plain a \<equiv> a < 0x2000 \<or> 0x4000 \<le> a"

definition stack_addr :: "uint8 \<Rightarrow> uint16" where
  "stack_addr sp = ucast sp + STACK_BASE"

lemma unat_stack_addr: "unat (stack_addr sp) = unat sp + 256"
proof -
  have "unat sp + 256 < 65536" using unat_uint8_less [of sp] by linarith
  then show ?thesis by (simp add: stack_addr_def STACK_BASE_def unat_word_ariths)
qed

lemma stack_addr_ram [simp]: "stack_addr sp < 0x2000"
proof -
  have "unat sp + 256 < 0x2000" using unat_uint8_less [of sp] by linarith
  then show ?thesis by (simp add: word_less_nat_alt unat_stack_addr)
qed

lemma and_0x7FF: "a AND 0x7FF = a mod 0x800" for a :: uint16
  using take_bit_eq_mask [of 11 a] by (simp add: take_bit_eq_mod mask_eq_exp_minus_1)

lemma unat_and_0x7FF: "unat (a AND 0x7FF) = unat a mod 0x800" for a :: uint16
  by (simp add: and_0x7FF unat_mod_distrib)

lemma stack_addr_alias [simp]: "stack_addr s AND 0x7FF = stack_addr t AND 0x7FF \<longleftrightarrow> s = t"
proof
  assume "stack_addr s AND 0x7FF = stack_addr t AND 0x7FF"
  then have "unat (stack_addr s) mod 0x800 = unat (stack_addr t) mod 0x800"
    unfolding unat_and_0x7FF [symmetric] by simp
  moreover have "unat (stack_addr r) mod 0x800 = unat r + 256" for r
    unfolding unat_stack_addr using unat_uint8_less [of r] by (intro mod_less) linarith
  ultimately show "s = t" by (simp add: word_unat_eq_iff)
qed simp

section \<open>What the tables say about jumps\<close>

lemma took_branch_entries:
  "list_all (\<lambda>(i, e). \<forall>c. took_branch i (r_flags c) = (case e of BRANCH f v \<Rightarrow> get_flag f c = v | _ \<Rightarrow> False))
     execute_tab"
  by (simp add: execute_tab_def took_branch_def)

lemma took_branch_entry:
  assumes "map_of execute_tab i = Some e"
  shows "took_branch i (r_flags c) = (case e of BRANCH f v \<Rightarrow> get_flag f c = v | _ \<Rightarrow> False)"
  using took_branch_entries map_of_SomeD [OF assms] unfolding list_all_iff by blast

lemma took_branch_known:
  assumes "took_branch i fl"
  shows "\<exists>e. map_of execute_tab i = Some e"
proof -
  have "i \<in> set [0x10, 0x30, 0x50, 0x70, 0x90, 0xB0, 0xD0, 0xF0]"
    using assms unfolding took_branch_def by (metis list.set_intros)
  moreover have "list_all (\<lambda>i. map_of execute_tab i \<noteq> None) [0x10, 0x30, 0x50, 0x70, 0x90, 0xB0, 0xD0, 0xF0]"
    by (simp add: execute_tab_def)
  ultimately show ?thesis unfolding list_all_iff by blast
qed

lemma sets_pc_entries:
  "list_all (\<lambda>(i, e). sets_pc e \<longrightarrow> i \<in> {0x00, 0x20, 0x40, 0x4C, 0x60, 0x6C} \<or>
     (case e of BRANCH f v \<Rightarrow> True | _ \<Rightarrow> False)) execute_tab"
  by (simp add: execute_tab_def)

lemma sets_pc_entry:
  assumes "map_of execute_tab i = Some e" "i \<notin> {0x00, 0x20, 0x40, 0x4C, 0x60, 0x6C}" "sets_pc e"
  obtains f v where "e = BRANCH f v"
  using sets_pc_entries map_of_SomeD [OF assms(1)] assms(2,3) that unfolding list_all_iff
  by (fastforce split: entry.splits)

lemma jump_entries:
  "map_of execute_tab 0x20 = Some (IMPLD I_jsr)" "map_of execute_tab 0x4C = Some (IMPLD I_jmp)"
  "map_of execute_tab 0x60 = Some (IMPLD I_rts)" "map_of execute_tab 0x6C = Some (IMPLD I_jmp_ind)"
  by (simp_all add: execute_tab_def)

lemma num_bytes_unknown:
  assumes "map_of execute_tab i = None"
  shows "num_bytes i = 1"
proof -
  have "i \<noteq> 0x94" "i \<noteq> 0xF8" using assms by (auto simp: execute_tab_def)
  from tables_agree [OF this] assms show ?thesis by (simp add: num_bytes_def)
qed

lemma num_bytes_branch: "map_of execute_tab i = Some (BRANCH f v) \<Longrightarrow> num_bytes i = 2"
  by (simp add: num_bytes_entry)

section \<open>The contract\<close>

locale cpu_memory =
  fixes P :: "'m cpu_ports"
    and inv :: "'m \<Rightarrow> bool"
    and peek :: "'m \<Rightarrow> uint16 \<Rightarrow> uint8"
    and poke :: "uint16 \<Rightarrow> uint8 \<Rightarrow> 'm \<Rightarrow> 'm"
  assumes no_debugger: "port_callback P = None"
    and read_plain: "inv m \<Longrightarrow> plain a \<Longrightarrow> port_read P a m = Some (peek m a, m)"
    and write_ram: "inv m \<Longrightarrow> a < 0x2000 \<Longrightarrow> port_write P a v m = Some (poke a v m)"
    and poke_inv: "inv m \<Longrightarrow> a < 0x2000 \<Longrightarrow> inv (poke a v m)"
    and peek_poke: "inv m \<Longrightarrow> a < 0x2000 \<Longrightarrow> plain b \<Longrightarrow>
      peek (poke a v m) b = (if b < 0x2000 \<and> b AND 0x7FF = a AND 0x7FF then v else peek m b)"
    and write_apu: "inv m \<Longrightarrow> 0x4000 \<le> a \<Longrightarrow> a < 0x4020 \<Longrightarrow> port_write P a v m = Some m"
begin

lemma notify_none [simp]: "notify P a k c m = Some m"
  by (simp add: notify_def no_debugger)

lemma readmem_eq [simp]: "inv m \<Longrightarrow> plain a \<Longrightarrow> readmem P a c m = Some (peek m a, cycle c, m)"
  by (simp add: readmem_def read_plain)

lemma writemem_eq [simp]: "inv m \<Longrightarrow> a < 0x2000 \<Longrightarrow> writemem P a v c m = Some (cycle c, poke a v m)"
  by (simp add: writemem_def write_ram)

lemma fetch_eq: "inv m \<Longrightarrow> plain (r_pc c) \<Longrightarrow>
  fetch P c m = Some (peek m (r_pc c), (cycle c)\<lparr>r_pc := r_pc c + 1\<rparr>, m)"
  by (simp add: fetch_def read_plain)

lemma fetchop_eq: "inv m \<Longrightarrow> plain (r_pc c) \<Longrightarrow>
  fetchop P c m = Some (peek m (r_pc c), (cycle c)\<lparr>r_pc := r_pc c + 1\<rparr>, m)"
  by (simp add: fetchop_def read_plain)

lemma push_eq: "inv m \<Longrightarrow>
  push P v c m = Some ((cycle c)\<lparr>r_sp := r_sp c - 1\<rparr>, poke (stack_addr (r_sp c)) v m)"
  by (simp add: push_def stack_addr_def [symmetric])

lemma pull_eq: "inv m \<Longrightarrow>
  pull P c m = Some (peek m (stack_addr (r_sp c + 1)), cycle (c\<lparr>r_sp := r_sp c + 1\<rparr>), m)"
  by (simp add: pull_def stack_addr_def [symmetric])

lemma inv_push [simp]: "inv m \<Longrightarrow> inv (poke (stack_addr s) v m)"
  by (simp add: poke_inv)

lemma peek_push [simp]:
  "inv m \<Longrightarrow> peek (poke (stack_addr s) v m) (stack_addr t) = (if s = t then v else peek m (stack_addr t))"
  by (simp add: peek_poke)

lemma peek_push_rom:
  "inv m \<Longrightarrow> 0x4000 \<le> a \<Longrightarrow> peek (poke (stack_addr s) v m) a = peek m a"
proof -
  assume "inv m" "0x4000 \<le> a"
  moreover from this(2) have "\<not> a < 0x2000" by (simp add: word_less_nat_alt word_le_nat_alt)
  ultimately show ?thesis by (simp add: peek_poke)
qed

text \<open>A stack: what is pulled is what was pushed last, and the stack pointer returns.\<close>

lemma pull_push:
  assumes "inv m"
  shows "\<exists>c' m'. push P v c m = Some (c', m') \<and> r_sp c' = r_sp c - 1 \<and> inv m' \<and>
    pull P c' m' = Some (v, (cycle (cycle c))\<lparr>r_sp := r_sp c\<rparr>, m')"
  using assms by (simp add: push_eq pull_eq cycle_def)

lemma vector_plain [simp]:
  "plain (fst (take_vector c))" "plain (fst (take_vector c) + 1)"
  "0x4000 \<le> fst (take_vector c)" "0x4000 \<le> fst (take_vector c) + 1"
  by (simp_all add: take_vector_def RESET_VEC_def NMI_VEC_def IRQ_BRK_VEC_def)

text \<open>The interrupt sequence always has a result: where it pushes, and where it goes.\<close>

definition pushed3 :: "cpu \<Rightarrow> 'm \<Rightarrow> 'm" where
  "pushed3 c m = poke (stack_addr (r_sp c - 2)) (ps_to_uint8 (r_flags c))
     (poke (stack_addr (r_sp c - 1)) (low (r_pc c)) (poke (stack_addr (r_sp c)) (high (r_pc c)) m))"

lemma pushed3_cycles [simp]: "pushed3 (c\<lparr>r_cycles := k\<rparr>) m = pushed3 c m"
  by (simp add: pushed3_def)

lemma pushed3_peek:
  assumes "inv m"
  shows "inv (pushed3 c m)"
    "peek (pushed3 c m) (stack_addr (r_sp c)) = high (r_pc c)"
    "peek (pushed3 c m) (stack_addr (r_sp c - 1)) = low (r_pc c)"
    "peek (pushed3 c m) (stack_addr (r_sp c - 2)) = ps_to_uint8 (r_flags c)"
    "0x4000 \<le> a \<Longrightarrow> peek (pushed3 c m) a = peek m a"
  using assms by (simp_all add: pushed3_def peek_push_rom)

definition interrupted :: "cpu \<Rightarrow> 'm \<Rightarrow> cpu" where
  "interrupted c m =
     (let (vec, d) = take_vector (set_flags (\<lambda>f. f\<lparr>f_breakf := False, f_intdis := True\<rparr>)
            ((cycle (cycle (cycle (cycle c))))\<lparr>r_sp := r_sp c - 3\<rparr>))
      in (cycle (cycle d))\<lparr>r_pc := mk16 (peek m (vec + 1)) (peek m vec)\<rparr>)"

lemma interrupt_eq:
  assumes "inv m"
  shows "interrupt P c m = Some (interrupted c m, pushed3 c m)"
  using assms pushed3_peek(1,5) [OF assms, where c = c]
  by (simp add: interrupt_def push_eq pushed3_def [symmetric] case_prod_unfold Let_def interrupted_def
      cycle_def diff_diff_eq)

text \<open>Returning from an interrupt whose handler leaves the stack as it found it.\<close>

lemma rti_eq:
  assumes "inv m"
  shows "instr_rti P c m = Some (last_cycle (c\<lparr>r_cycles := r_cycles c + 5, r_sp := r_sp c + 3,
     r_flags := (ps_of_uint8 (peek m (stack_addr (r_sp c + 1))))\<lparr>f_breakf := False\<rparr>,
     r_pc := mk16 (peek m (stack_addr (r_sp c + 3))) (peek m (stack_addr (r_sp c + 2)))\<rparr>), m)"
  using assms by (simp add: instr_rti_def pull_eq set_break_def set_flags_def cycle_def add.assoc)
    (rule arg_cong [where f = last_cycle], simp)

lemma rts_eq:
  assumes "inv m"
  shows "instr_rts P c m = Some (last_cycle (c\<lparr>r_cycles := r_cycles c + 5, r_sp := r_sp c + 2,
     r_pc := mk16 (peek m (stack_addr (r_sp c + 2))) (peek m (stack_addr (r_sp c + 1))) + 1\<rparr>), m)"
  using assms by (simp add: instr_rts_def pull_eq cycle_def add.assoc)
    (rule arg_cong [where f = last_cycle], simp)

lemma jsr_eq:
  assumes "inv m" "plain (r_pc c)" "plain (r_pc c + 1)"
  shows "instr_jsr P c m = Some (last_cycle (c\<lparr>r_cycles := r_cycles c + 5, r_sp := r_sp c - 2,
     opargs := mk16 (peek m (r_pc c + 1)) (peek m (r_pc c)),
     r_pc := mk16 (peek m (r_pc c + 1)) (peek m (r_pc c))\<rparr>),
     poke (stack_addr (r_sp c - 1)) (low (r_pc c + 1)) (poke (stack_addr (r_sp c)) (high (r_pc c + 1)) m))"
  using assms
  by (simp add: instr_jsr_def fetch_low_def fetch_high_def fetchop_eq push_eq cycle_def diff_diff_eq)
    (simp add: add.commute, rule arg_cong [where f = last_cycle], simp)

text \<open>The shape of what \<^verbatim>\<open>power\<close> writes: zeros over a range of addresses.\<close>

lemma write_zeros_ram:
  assumes "inv m" "n + unat i \<le> 0x2000"
  shows "\<exists>m'. write_zeros P n i m = Some m' \<and> inv m' \<and>
    (\<forall>a. 0x4000 \<le> a \<longrightarrow> peek m' a = peek m a) \<and>
    (\<forall>a. a < 0x2000 \<longrightarrow> (peek m a = 0 \<or> unat i \<le> unat a \<and> unat a < unat i + n) \<longrightarrow> peek m' a = 0)"
  using assms
proof (induction n arbitrary: i m)
  case (Suc n)
  have i: "i < 0x2000" using Suc.prems(2) by (simp add: word_less_nat_alt)
  have u: "unat (i + 1) = unat i + 1" using Suc.prems(2) unat_step [of i 1] by simp
  let ?m = "poke i 0 m"
  have "inv ?m" using Suc.prems(1) i by (rule poke_inv)
  have "n + unat (i + 1) \<le> 0x2000" using u Suc.prems(2) by simp
  from Suc.IH [OF \<open>inv ?m\<close> this] obtain m' where m': "write_zeros P n (i + 1) ?m = Some m'" "inv m'"
    "\<And>a. 0x4000 \<le> a \<Longrightarrow> peek m' a = peek ?m a"
    "\<And>a. a < 0x2000 \<Longrightarrow> peek ?m a = 0 \<or> unat (i + 1) \<le> unat a \<and> unat a < unat (i + 1) + n \<Longrightarrow> peek m' a = 0"
    by blast
  have "peek m' a = 0" if "a < 0x2000" "peek m a = 0 \<or> unat i \<le> unat a \<and> unat a < unat i + Suc n" for a
  proof (cases "a = i")
    case True
    then show ?thesis using m'(4) [of a] that(1) Suc.prems(1) i by (simp add: peek_poke)
  next
    case False
    then have "unat a \<noteq> unat i" by (simp add: word_unat_eq_iff)
    then show ?thesis using m'(4) [of a] that u Suc.prems(1) i by (auto simp: peek_poke)
  qed
  moreover have "peek m' a = peek m a" if "0x4000 \<le> a" for a
    using that m'(3) [OF that] Suc.prems(1) i by (auto simp: peek_poke word_less_nat_alt word_le_nat_alt)
  ultimately show ?case using m' Suc.prems(1) i by (auto simp: write_ram)
qed simp

lemma write_zeros_apu:
  "inv m \<Longrightarrow> 0x4000 \<le> unat i \<Longrightarrow> n + unat i \<le> 0x4020 \<Longrightarrow> write_zeros P n i m = Some m"
proof (induction n arbitrary: i)
  case (Suc n)
  moreover from this have "unat (i + 1) = unat i + 1" using unat_step [of i 1] by simp
  ultimately show ?case by (simp add: write_apu word_less_nat_alt word_le_nat_alt)
qed simp

lemma interrupted_fields [simp]:
  "r_sp (interrupted c m) = r_sp c - 3" "r_acc (interrupted c m) = r_acc c"
  "r_x (interrupted c m) = r_x c" "r_y (interrupted c m) = r_y c"
  "r_flags (interrupted c m) = (r_flags c)\<lparr>f_breakf := False, f_intdis := True\<rparr>"
  "r_cycles (interrupted c m) = r_cycles c + 6"
  "r_pc (interrupted c m) = mk16 (peek m (fst (take_vector c) + 1)) (peek m (fst (take_vector c)))"
  "nmipending (interrupted c m) = nmipending (snd (take_vector c))"
  "irqpending (interrupted c m) = irqpending (snd (take_vector c))"
  "resetpending (interrupted c m) = resetpending (snd (take_vector c))"
  "execnmi (interrupted c m) = execnmi c" "execirq (interrupted c m) = execirq c"
  by (simp_all add: interrupted_def Let_def take_vector_def)

text \<open>Power-up: cleared registers and RAM, the pointer of the reset vector.\<close>

lemma power_eq:
  assumes "inv m"
  shows "\<exists>c' m'. cpu_power P c m = Some (c', m') \<and> inv m' \<and>
    r_pc c' = mk16 (peek m 0xFFFD) (peek m 0xFFFC) \<and> r_sp c' = 0xFD \<and>
    r_acc c' = 0 \<and> r_x c' = 0 \<and> r_y c' = 0 \<and> r_flags c' = ps_default\<lparr>f_intdis := True\<rparr> \<and>
    \<not> resetpending c' \<and> r_cycles c' = r_cycles c + 6 \<and>
    execnmi c' = execnmi c \<and> execirq c' = execirq c \<and> nmipending c' = nmipending c \<and> irqpending c' = irqpending c \<and>
    (\<forall>a. 0x200 \<le> a \<and> a < 0x800 \<or> a < 0x100 \<longrightarrow> peek m' a = 0)"
proof -
  from write_zeros_ram [OF assms, of "0x800" 0] obtain m1 where m1: "write_zeros P 0x800 0 m = Some m1"
    "inv m1" "\<And>a. 0x4000 \<le> a \<Longrightarrow> peek m1 a = peek m a"
    "\<And>a. a < 0x2000 \<Longrightarrow> peek m a = 0 \<or> unat a < 0x800 \<Longrightarrow> peek m1 a = 0"
    by auto
  let ?c = "(set_flags ps_reset (c\<lparr>r_acc := 0, r_x := 0, r_y := 0\<rparr>))\<lparr>r_sp := 0, resetpending := True\<rparr>"
  have w: "port_write P 0x4017 0 m1 = Some m1" "port_write P 0x4015 0 m1 = Some m1"
    "write_zeros P 0x13 0x4000 m1 = Some m1"
    using m1(2) by (simp_all add: write_apu write_zeros_apu)
  have r: "cpu_power P c m = Some (interrupted ?c m1, pushed3 ?c m1)"
    using m1(2) by (simp add: cpu_power_def Let_def m1(1) w interrupt_eq)
  have "peek (pushed3 ?c m1) a = 0" if "0x200 \<le> a \<and> a < 0x800 \<or> a < 0x100" for a
  proof -
    have a: "unat a < 0x800" "a < 0x2000" "unat a < 0x100 \<or> 0x200 \<le> unat a"
      using that by (auto simp: word_less_nat_alt word_le_nat_alt)
    have "a AND 0x7FF \<noteq> stack_addr s AND 0x7FF" for s
    proof
      assume "a AND 0x7FF = stack_addr s AND 0x7FF"
      then have "unat a mod 0x800 = unat (stack_addr s) mod 0x800"
        unfolding unat_and_0x7FF [symmetric] by simp
      then show False using a unat_uint8_less [of s] by (simp add: unat_stack_addr)
    qed
    then show ?thesis using m1 a by (simp add: pushed3_def peek_poke)
  qed
  with r m1 show ?thesis
    by (intro exI [of _ "interrupted ?c m1"] exI [of _ "pushed3 ?c m1"])
       (simp add: pushed3_peek take_vector_def RESET_VEC_def ps_reset_def ps_default_def)
qed

text \<open>The prediction of the next address agrees with the execution.\<close>

definition predictable :: "cpu \<Rightarrow> 'm \<Rightarrow> bool" where
  "predictable c m \<longleftrightarrow>
     (let i = peek m (r_pc c); opr = mk16 (peek m (r_pc c + 2)) (peek m (r_pc c + 1)) in
      plain (r_pc c) \<and> plain (r_pc c + 1) \<and> plain (r_pc c + 2) \<and> i \<noteq> 0x00 \<and> i \<noteq> 0x40 \<and>
      (i = 0x60 \<longrightarrow> unat (r_sp c) \<le> 0xFD) \<and>
      (i = 0x6C \<longrightarrow> plain opr \<and> plain (opr + 1) \<and> plain (opr AND 0xFF00)))"

lemma branch_eq:
  assumes "inv m" "plain (r_pc c)"
  shows "\<exists>c'. instr_branch P b c m = Some (c', m) \<and>
    r_pc c' = (if b then r_pc c + 1 + scast (peek m (r_pc c)) else r_pc c + 1)"
  using assms by (simp add: instr_branch_def fetch_low_def fetchop_eq Let_def)

lemma read16_eq:
  "inv m \<Longrightarrow> plain a \<Longrightarrow> plain b \<Longrightarrow> read16 P a b m = Some (mk16 (peek m b) (peek m a), m)"
  by (simp add: read16_def read_plain mk16_def or.commute)

lemma jmp_eq:
  assumes "inv m" "plain (r_pc c)" "plain (r_pc c + 1)"
  shows "\<exists>c'. instr_jmp P c m = Some (c', m) \<and> r_pc c' = mk16 (peek m (r_pc c + 1)) (peek m (r_pc c))"
  using assms by (simp add: instr_jmp_def fetch_low_def fetch_high_def fetchop_eq)

lemma jmp_ind_eq:
  assumes "inv m" "plain (r_pc c)" "plain (r_pc c + 1)"
    and "p = mk16 (peek m (r_pc c + 1)) (peek m (r_pc c))"
    and "plain p" "plain (p + 1)" "plain (p AND 0xFF00)"
  shows "\<exists>c'. instr_jmp_ind P c m = Some (c', m) \<and>
    r_pc c' = mk16 (peek m (if low p = 0xFF then p AND 0xFF00 else p + 1)) (peek m p)"
  using assms(1-3,5-)
  by (simp add: instr_jmp_ind_def fetch_low_def fetch_high_def fetchop_eq assms(4) [symmetric])

lemma stack_addr_near:
  assumes "unat sp \<le> 0xFD"
  shows "ucast sp + 1 + STACK_BASE = stack_addr (sp + 1)" "ucast sp + 2 + STACK_BASE = stack_addr (sp + 2)"
proof -
  have "unat (sp + 1) = unat sp + 1" "unat (sp + 2) = unat sp + 2"
    using assms by (simp_all add: unat_word_ariths)
  with assms show "ucast sp + 1 + STACK_BASE = stack_addr (sp + 1)"
    "ucast sp + 2 + STACK_BASE = stack_addr (sp + 2)"
    by (simp_all add: word_unat_eq_iff unat_stack_addr unat_word_ariths STACK_BASE_def)
qed

lemma nextaddr_prefix:
  assumes "inv m" "plain (r_pc c)" "plain (r_pc c + 1)" "plain (r_pc c + 2)"
    and "i = peek m (r_pc c)" "l = peek m (r_pc c + 1)" "h = peek m (r_pc c + 2)" "i \<noteq> 0" "i \<noteq> 0x40"
  shows "nextaddr P c m =
    (if i = 0x20 \<or> i = 0x4C then Some (mk16 h l, m)
     else if i = 0x6C then read16 P (mk16 h l) (if l = 0xFF then mk16 h l AND 0xFF00 else mk16 h l + 1) m
     else if i = 0x60 then
       do { (a, m) \<leftarrow> read16 P (ucast (r_sp c) + 1 + STACK_BASE) (ucast (r_sp c) + 2 + STACK_BASE) m;
            Some (1 + a, m) }
     else if took_branch i (r_flags c) then Some (branch_pointer l (r_pc c), m)
     else Some (r_pc c + of_nat (num_bytes i), m))"
  using assms by (simp add: nextaddr_def read_plain Let_def)

lemma other_pc:
  fixes c :: cpu
  defines "c1 \<equiv> (cycle c)\<lparr>r_pc := r_pc c + 1\<rparr>"
  assumes "inv m" "plain (r_pc c + 1)" "execute P i c1 m = Some (c', m')"
    and "i \<notin> {0x00, 0x20, 0x40, 0x4C, 0x60, 0x6C}"
  shows "r_pc c' = (if took_branch i (r_flags c) then branch_pointer (peek m (r_pc c + 1)) (r_pc c)
    else r_pc c + of_nat (num_bytes i))"
proof (cases "map_of execute_tab i")
  case None
  with assms show ?thesis using took_branch_known [of i] by (auto simp: execute_def num_bytes_unknown)
next
  case (Some e)
  with assms have e: "exec_entry P e c1 m = Some (c', m')" by (simp add: execute_def)
  have t: "took_branch i (r_flags c) = (case e of BRANCH f v \<Rightarrow> get_flag f c1 = v | _ \<Rightarrow> False)"
    using took_branch_entry [OF Some, of c1] by (simp add: c1_def)
  show ?thesis
  proof (cases "sets_pc e")
    case True
    with sets_pc_entry [OF Some assms(5)] obtain f v where "e = BRANCH f v" by blast
    moreover from this have "num_bytes i = 2" using Some by (simp add: num_bytes_branch)
    ultimately show ?thesis using t e assms(2,3) branch_eq [of m c1 "get_flag f c1 = v"]
      by (auto simp: c1_def branch_pointer_def)
  next
    case False
    with entry_pc [OF e] have "r_pc c' = r_pc c + of_nat (num_bytes i)"
      using num_bytes_entry [OF Some] by (simp add: c1_def algebra_simps)
    then show ?thesis using t False by (cases e) auto
  qed
qed

lemma nextaddr_predicts:
  assumes "inv m" "predictable c m" "\<not> execnmi c" "\<not> execirq c"
    and "cpu_run P c m = Some (c', m')"
  shows "nextaddr P c m = Some (r_pc c', m)"
proof -
  define i l h where ilh: "i = peek m (r_pc c)" "l = peek m (r_pc c + 1)" "h = peek m (r_pc c + 2)"
  have pl: "plain (r_pc c)" "plain (r_pc c + 1)" "plain (r_pc c + 2)" "i \<noteq> 0" "i \<noteq> 0x40"
    "i = 0x60 \<Longrightarrow> unat (r_sp c) \<le> 0xFD"
    "i = 0x6C \<Longrightarrow> plain (mk16 h l) \<and> plain (mk16 h l + 1) \<and> plain (mk16 h l AND 0xFF00)"
    using assms(2) unfolding predictable_def Let_def ilh by blast+
  note N = nextaddr_prefix [OF assms(1) pl(1-3) ilh pl(4,5)]
  let ?c = "(cycle c)\<lparr>r_pc := r_pc c + 1\<rparr>"
  have ex: "execute P i ?c m = Some (c', m')"
    using assms(3-5) fetch_eq [OF assms(1) pl(1)] by (simp add: cpu_run_def ilh)
  have pc2: "r_pc c + 1 + 1 = r_pc c + 2" by simp
  consider (jsr) "i = 0x20" | (jmp) "i = 0x4C" | (ind) "i = 0x6C" | (rts) "i = 0x60"
    | (other) "i \<notin> {0x00, 0x20, 0x40, 0x4C, 0x60, 0x6C}" using pl by blast
  then show ?thesis
  proof cases
    case jsr
    then show ?thesis using ex jsr_eq [OF assms(1), of ?c] pl
      by (auto simp: N execute_def jump_entries pc2 ilh)
  next
    case jmp
    then show ?thesis using ex jmp_eq [OF assms(1), of ?c] pl
      by (auto simp: N execute_def jump_entries pc2 ilh)
  next
    case ind
    then show ?thesis using ex jmp_ind_eq [OF assms(1), of ?c "mk16 h l"] pl
      by (auto simp: N execute_def jump_entries pc2 ilh read16_eq assms(1))
  next
    case rts
    let ?ret = "mk16 (peek m (stack_addr (r_sp c + 2))) (peek m (stack_addr (r_sp c + 1)))"
    have "nextaddr P c m = Some (1 + ?ret, m)"
      unfolding N using rts pl(6) by (simp add: stack_addr_near read16_eq assms(1))
    moreover have "r_pc c' = ?ret + 1"
      using ex rts_eq [OF assms(1), of ?c] rts by (auto simp: execute_def jump_entries)
    ultimately show ?thesis by (simp add: add.commute)
  next
    case other
    then have N': "nextaddr P c m = Some (if took_branch i (r_flags c) then branch_pointer l (r_pc c)
      else r_pc c + of_nat (num_bytes i), m)" by (auto simp: N)
    have "r_pc c' = (if took_branch i (r_flags c) then branch_pointer l (r_pc c)
      else r_pc c + of_nat (num_bytes i))"
      using other_pc [OF assms(1) _ ex] pl(2) other by (simp add: ilh)
    then show ?thesis by (simp add: N')
  qed
qed

end

end
