(* ===== verification/CpuArith.thy ===== *)
theory CpuArith
  imports Instructions
begin

text \<open>
  The arithmetic instructions against the meaning of their flags: addition and subtraction with
  carry, comparison, rotation, bit test. Overflow is stated on the signed values of the bytes.
\<close>

unbundle bit_operations_syntax

section \<open>Bit seven of small integers\<close>

lemma and_0x80: "(x AND 0x80 \<noteq> 0) = bit x 7" for x :: int
  using and_exp_eq_0_iff_not_bit [of x 7] by simp

lemma overflow_bits:
  "((a XOR s) AND NOT (a XOR v) AND 0x80 \<noteq> 0) = ((bit a 7 \<noteq> bit s 7) \<and> bit a 7 = bit v 7)"
  for a s v :: int
proof -
  have "((a XOR s) AND NOT (a XOR v) AND 0x80 \<noteq> 0) = bit ((a XOR s) AND NOT (a XOR v)) 7"
    by (simp only: and_0x80 [symmetric] and.assoc)
  then show ?thesis by (simp add: bit_simps)
qed

lemma bit_7_cases:
  fixes x :: int
  assumes "0 \<le> x" "x < 512"
  shows "bit x 7 \<longleftrightarrow> 128 \<le> x \<and> x < 256 \<or> 384 \<le> x"
proof -
  have "x div 128 \<in> {0, 1, 2, 3}" using assms by auto
  moreover have "bit x 7 \<longleftrightarrow> odd (x div 128)" by (simp add: bit_iff_odd)
  ultimately show ?thesis using assms by auto
qed

lemma bit_uint_7: "bit (uint w) 7 \<longleftrightarrow> 128 \<le> uint w" for w :: uint8
proof -
  have u: "0 \<le> uint w" "uint w < 512" using uint_uint8_less [of w] by (simp, linarith)
  show ?thesis using bit_7_cases [OF u] uint_uint8_less [of w] by linarith
qed

lemma sint_byte: "sint w = (if 128 \<le> uint w then uint w - 256 else uint w)" for w :: uint8
  by (simp add: sint_uint8 bit_uint_7 [symmetric] bit_uint_iff)

lemma mod_256_low: "0 \<le> x \<Longrightarrow> x < 256 \<Longrightarrow> x mod 256 = x" for x :: int
  by (rule mod_pos_pos_trivial)

lemma mod_256_high: "256 \<le> x \<Longrightarrow> x < 512 \<Longrightarrow> x mod 256 = x - 256" for x :: int
  by presburger

lemma byte_range: "0 \<le> uint w \<and> uint w < 256" for w :: uint8
  by simp

lemma uint_word_of_int_8: "uint (word_of_int x :: uint8) = x mod 256"
  by (simp add: unsigned_of_int take_bit_eq_mod)

lemma uint_not: "uint (NOT w) = 255 - uint w" for w :: uint8
proof -
  have "NOT w = word_of_int (255 - uint w)" by (simp add: not_eq_complement)
  moreover have "0 \<le> 255 - uint w" "255 - uint w < 256"
    using byte_range [of w] by linarith+
  ultimately show ?thesis by (simp only: uint_word_of_int_8 mod_256_low)
qed

lemma carry_range: "0 \<le> (of_bool b :: int) \<and> of_bool b \<le> (1 :: int)"
  by simp

section \<open>Addition and subtraction\<close>

lemma sum_byte:
  fixes sum :: int
  assumes "0 \<le> sum" "sum < 512"
  shows "uint (word_of_int sum :: uint8) = (if sum < 256 then sum else sum - 256)"
  using assms by (cases "sum < 256") (simp_all add: uint_word_of_int_8 mod_256_low mod_256_high)

definition signed_fits :: "int \<Rightarrow> bool" where
  "signed_fits x \<longleftrightarrow> - 128 \<le> x \<and> x \<le> 127"

text \<open>The signed reading of a byte given as an integer, and when a sum of two overflows.\<close>

definition sgn8 :: "int \<Rightarrow> int" where
  "sgn8 x = (if 128 \<le> x then x - 256 else x)"

lemma signed_sum:
  fixes a v k :: int
  assumes "0 \<le> a \<and> a < 256" "0 \<le> v \<and> v < 256" "0 \<le> k \<and> k \<le> 1"
  shows "((128 \<le> a) \<noteq> bit (a + v + k) 7 \<and> (128 \<le> a) = (128 \<le> v))
    \<longleftrightarrow> \<not> signed_fits (sgn8 a + sgn8 v + k)"
proof -
  have s: "0 \<le> a + v + k" "a + v + k < 512" using assms by linarith+
  show ?thesis unfolding bit_7_cases [OF s] signed_fits_def sgn8_def using assms by auto
qed

lemma signed_diff:
  fixes a v k :: int
  assumes "0 \<le> a \<and> a < 256" "0 \<le> v \<and> v < 256" "0 \<le> k \<and> k \<le> 1"
    "(128 \<le> a) \<noteq> bit (a + (255 - v) + k) 7" "(128 \<le> a) = (128 \<le> v)"
  shows "signed_fits (sgn8 a - sgn8 v - (1 - k))"
  using assms(1-3,5) unfolding signed_fits_def sgn8_def by auto

lemma sint_sgn8: "sint w = sgn8 (uint w)" for w :: uint8
  by (simp add: sint_byte sgn8_def)

lemma neg_byte:
  assumes "0 \<le> s" "s < 512"
  shows "bit s 7 \<longleftrightarrow> sint (word_of_int s :: uint8) < 0"
  using assms by (auto simp: sint_byte sum_byte bit_7_cases)

lemma adc_fields:
  fixes c :: cpu and val :: uint8
  defines "s \<equiv> uint (r_acc c) + uint val + of_bool (f_carry (r_flags c))"
  shows "r_acc (instr_adc val c) = word_of_int s" "f_carry (r_flags (instr_adc val c)) = (256 \<le> s)"
    "f_zero (r_flags (instr_adc val c)) = (word_of_int s = (0 :: uint8))"
    "f_neg (r_flags (instr_adc val c)) = (sint (word_of_int s :: uint8) < 0)"
    "f_ov (r_flags (instr_adc val c)) =
      (\<not> signed_fits (sint (r_acc c) + sint val + of_bool (f_carry (r_flags c))))"
proof -
  note b = byte_range [of "r_acc c"] byte_range [of val] carry_range [of "f_carry (r_flags c)"]
  have s: "0 \<le> s" "s < 512" using b unfolding s_def by linarith+
  let ?c = "instr_adc val c"
  have f: "r_acc ?c = word_of_int s" "f_carry (r_flags ?c) = (s > 0xFF)"
    "f_zero (r_flags ?c) = (word_of_int s = (0 :: uint8))" "f_neg (r_flags ?c) = bit s 7"
    "f_ov (r_flags ?c) = (bit (uint (r_acc c)) 7 \<noteq> bit s 7 \<and> bit (uint (r_acc c)) 7 = bit (uint val) 7)"
    unfolding instr_adc_def s_def set_flags_def Let_def overflow_bits and_0x80 by simp_all
  show "r_acc ?c = word_of_int s" "f_carry (r_flags ?c) = (256 \<le> s)"
    "f_zero (r_flags ?c) = (word_of_int s = (0 :: uint8))" "f_neg (r_flags ?c) = (sint (word_of_int s :: uint8) < 0)"
    unfolding f neg_byte [OF s] by auto
  show "f_ov (r_flags ?c) = (\<not> signed_fits (sint (r_acc c) + sint val + of_bool (f_carry (r_flags c))))"
    unfolding f bit_uint_7 sint_sgn8 s_def by (rule signed_sum [OF b])
qed

lemma sbc_fields:
  fixes c :: cpu and val :: uint8
  defines "d \<equiv> uint (r_acc c) - uint val - (1 - of_bool (f_carry (r_flags c)))"
  shows "r_acc (instr_sbc val c) = word_of_int d" "f_carry (r_flags (instr_sbc val c)) = (0 \<le> d)"
    "f_zero (r_flags (instr_sbc val c)) = (word_of_int d = (0 :: uint8))"
    "f_neg (r_flags (instr_sbc val c)) = (sint (word_of_int d :: uint8) < 0)"
    "\<not> (f_ov (r_flags (instr_sbc val c)) \<and>
       \<not> signed_fits (sint (r_acc c) - sint val - (1 - of_bool (f_carry (r_flags c)))))"
proof -
  define s where "s = uint (r_acc c) + (255 - uint val) + of_bool (f_carry (r_flags c))"
  note b = byte_range [of "r_acc c"] byte_range [of val] carry_range [of "f_carry (r_flags c)"]
  have s: "0 \<le> s" "s < 512" using b unfolding s_def by linarith+
  have d: "word_of_int s = (word_of_int d :: uint8)" "(s > 0xFF) = (0 \<le> d)"
    by (simp_all add: s_def d_def) linarith
  let ?c = "instr_sbc val c"
  have f: "r_acc ?c = word_of_int s" "f_carry (r_flags ?c) = (s > 0xFF)"
    "f_zero (r_flags ?c) = (word_of_int s = (0 :: uint8))" "f_neg (r_flags ?c) = bit s 7"
    "f_ov (r_flags ?c) = (bit (uint (r_acc c)) 7 \<noteq> bit s 7 \<and> bit (uint (r_acc c)) 7 = bit (uint val) 7)"
    unfolding instr_sbc_def s_def set_flags_def Let_def overflow_bits and_0x80 uint_not by simp_all
  show "r_acc ?c = word_of_int d" "f_carry (r_flags ?c) = (0 \<le> d)"
    "f_zero (r_flags ?c) = (word_of_int d = (0 :: uint8))" "f_neg (r_flags ?c) = (sint (word_of_int d :: uint8) < 0)"
    unfolding f neg_byte [OF s] d by auto
  show "\<not> (f_ov (r_flags ?c) \<and>
      \<not> signed_fits (sint (r_acc c) - sint val - (1 - of_bool (f_carry (r_flags c)))))"
    unfolding f bit_uint_7 sint_sgn8 s_def using signed_diff [OF b] by blast
qed

text \<open>
  \<^verbatim>\<open>ADC\<close> adds: the accumulator becomes the sum of accumulator, operand and carry modulo 256,
  carry is the ninth bit, zero and negative describe the new accumulator and overflow says that
  the signed sum does not fit a signed byte.
\<close>

theorem adc_correct:
  "let s = uint (r_acc c) + uint val + of_bool (f_carry (r_flags c)); c' = instr_adc val c in
   uint (r_acc c') = s mod 256 \<and> f_carry (r_flags c') = (256 \<le> s) \<and>
   f_zero (r_flags c') = (r_acc c' = 0) \<and> f_neg (r_flags c') = (sint (r_acc c') < 0) \<and>
   f_ov (r_flags c') = (\<not> signed_fits (sint (r_acc c) + sint val + of_bool (f_carry (r_flags c))))"
  unfolding Let_def adc_fields uint_word_of_int_8 by blast

text \<open>
  \<^verbatim>\<open>SBC\<close> subtracts: the accumulator becomes accumulator minus operand minus borrow (the
  complement of carry) modulo 256, carry says that no borrow was needed, zero and negative
  describe the new accumulator. The overflow flag however is never set when the signed
  difference overflows: the code compares the signs of accumulator and operand the way
  addition does.
\<close>

theorem sbc_correct_but_overflow:
  "let d = uint (r_acc c) - uint val - (1 - of_bool (f_carry (r_flags c))); c' = instr_sbc val c in
   uint (r_acc c') = d mod 256 \<and> f_carry (r_flags c') = (0 \<le> d) \<and>
   f_zero (r_flags c') = (r_acc c' = 0) \<and> f_neg (r_flags c') = (sint (r_acc c') < 0) \<and>
   \<not> (f_ov (r_flags c') \<and>
      \<not> signed_fits (sint (r_acc c) - sint val - (1 - of_bool (f_carry (r_flags c)))))"
  using sbc_fields(5) [of val c] unfolding Let_def sbc_fields(1-4) uint_word_of_int_8 by blast

text \<open>The flag is set for \<open>0 - 1\<close> and clear for \<open>-128 - 1\<close>, the opposite of the processor's rule.\<close>

lemma sbc_overflow_examples:
  "f_ov (r_flags (instr_sbc 1 (cpu_default\<lparr>r_acc := 0, r_flags := ps_default\<lparr>f_carry := True\<rparr>\<rparr>)))"
  "\<not> f_ov (r_flags (instr_sbc 1 (cpu_default\<lparr>r_acc := 0x80, r_flags := ps_default\<lparr>f_carry := True\<rparr>\<rparr>)))"
  by (simp_all add: instr_sbc_def set_flags_def)

section \<open>Comparison, bit test, rotation\<close>

lemma bit_diff_7: "bit (uint a - uint b) 7 = bit (a - b) 7" for a b :: uint8
proof -
  have "bit (word_of_int x :: uint8) 7 = bit x 7" for x by (simp add: bit_simps)
  moreover have "a - b = word_of_int (uint a - uint b)" by simp
  ultimately show ?thesis by metis
qed

definition compared :: "uint8 \<Rightarrow> uint8 \<Rightarrow> cpu \<Rightarrow> cpu" where
  "compared reg val c = c\<lparr>r_flags := (r_flags c)\<lparr>f_zero := (reg = val),
     f_neg := (sint (reg - val) < 0), f_carry := (val \<le> reg)\<rparr>\<rparr>"

lemma compare_compared: "compare reg val c = compared reg val c"
proof -
  have "(uint reg - uint val = 0) = (reg = val)"
    by (metis diff_eq_diff_eq diff_self word_uint_eq_iff eq_iff_diff_eq_0)
  moreover have "bit (uint reg - uint val) 7 = (sint (reg - val) < 0)"
    unfolding bit_diff_7 by (simp add: sint_uint8 uint_uint8_less not_less)
  moreover have "(0 \<le> uint reg - uint val) = (val \<le> reg)" by (simp add: word_le_def)
  ultimately show ?thesis
    unfolding compare_def compared_def Let_def and_0x80 set_flags_def by simp
qed

text \<open>
  \<^verbatim>\<open>CMP\<close>, \<^verbatim>\<open>CPX\<close> and \<^verbatim>\<open>CPY\<close> compare as unsigned bytes: carry says that the operand is not greater
  than the register, zero that they are equal, negative is the top bit of the wrapped
  difference; no register and no other flag changes.
\<close>

theorem compare_correct:
  "instr_cmp val c = compared (r_acc c) val c \<and> instr_cpx val c = compared (r_x c) val c \<and>
   instr_cpy val c = compared (r_y c) val c"
  by (simp add: instr_cmp_def instr_cpx_def instr_cpy_def compare_compared)

lemma bit_rol [simp]:
  "bit (fst (instr_rol v c)) n \<longleftrightarrow> n < 8 \<and> (if n = 0 then f_carry (r_flags c) else bit v (n - 1))"
  unfolding instr_rol_def Let_def fst_conv bit_or_iff bit_push_bit_iff bit_of_bool_iff
  by (auto dest: bit_imp_le_length)

lemma bit_ror [simp]:
  "bit (fst (instr_ror v c)) n \<longleftrightarrow> (if n = 7 then f_carry (r_flags c) else bit v (n + 1))"
  unfolding instr_ror_def Let_def fst_conv bit_or_iff bit_push_bit_iff bit_of_bool_iff bit_drop_bit_eq o_apply
  by (auto simp: ac_simps dest: bit_imp_le_length)

lemma carry_rotate [simp]:
  "f_carry (r_flags (snd (instr_rol v c))) = bit v 7"
  "f_carry (r_flags (snd (instr_ror v c))) = bit v 0"
  unfolding instr_rol_def instr_ror_def Let_def set_carry_def set_zn_def set_flags_def and_mask_bit
  by simp_all

text \<open>
  \<^verbatim>\<open>ROR\<close> undoes \<^verbatim>\<open>ROL\<close> and \<^verbatim>\<open>ROL\<close> undoes \<^verbatim>\<open>ROR\<close>: the nine bits of operand and carry return to
  what they were.
\<close>

theorem rotate_roundtrip:
  "fst (instr_ror (fst (instr_rol v c)) (snd (instr_rol v c))) = v \<and>
   f_carry (r_flags (snd (instr_ror (fst (instr_rol v c)) (snd (instr_rol v c))))) = f_carry (r_flags c) \<and>
   fst (instr_rol (fst (instr_ror v c)) (snd (instr_ror v c))) = v \<and>
   f_carry (r_flags (snd (instr_rol (fst (instr_ror v c)) (snd (instr_ror v c))))) = f_carry (r_flags c)"
  by (intro conjI bit_word_eqI) auto

end
