(* ===== verification/Mos6502.thy ===== *)
theory Mos6502
  imports CpuArith CpuTheorems
begin

text \<open>
  The documented 6502 as a specification for the processor of \<^verbatim>\<open>emu/core/cpu.cpp\<close>: the registers a
  program sees, the regular encoding of its opcodes, and one function per instruction. No cycles,
  no operand latch, no interrupt lines. Bytes are added, shifted and compared as integers, flags
  are stated by their meaning. The last sections compare the instruction functions and the
  dispatch of the code with it; theory \<open>CpuRefines\<close> compares whole instructions.
\<close>

unbundle bit_operations_syntax

section \<open>State\<close>

text \<open>
  The registers, the six flags and the memory. The two remaining bits of the status byte are not
  stored in the processor; they exist only in the byte a push writes.
\<close>

record mos =
  pA :: uint8
  pX :: uint8
  pY :: uint8
  pS :: uint8
  pPC :: uint16
  pN :: bool
  pV :: bool
  pD :: bool
  pI :: bool
  pZ :: bool
  pC :: bool
  pM :: "uint16 \<Rightarrow> uint8"

text \<open>
  Memory as the console wires it: 2 KiB of RAM that repeat below \<^verbatim>\<open>0x2000\<close>; other writes of a program
  change nothing a program reads back from plain memory.
\<close>

definition nes_write :: "uint16 \<Rightarrow> uint8 \<Rightarrow> (uint16 \<Rightarrow> uint8) \<Rightarrow> uint16 \<Rightarrow> uint8" where
  "nes_write a v M =
     (if a < 0x2000 then (\<lambda>b. if b < 0x2000 \<and> b AND 0x7FF = a AND 0x7FF then v else M b) else M)"

section \<open>Encoding\<close>

text \<open>
  An opcode is \<open>aaabbbcc\<close> in binary: \<open>cc\<close> selects a group, \<open>aaa\<close> the operation and \<open>bbb\<close> the addressing
  mode. The entries that are not regular are listed by their row.
\<close>

definition group1_modes :: "mode list" where
  "group1_modes = [Indx, Zero, Imm, Abs, Indy, Zerox, Absy, Absx]"

definition group1 :: "nat \<Rightarrow> nat \<Rightarrow> entry option" where
  "group1 a b =
     (let md = group1_modes ! b in
      if a = 4 then (if md = Imm then None else Some (WRITE md R_acc))
      else Some (READ ([I_ora, I_and, I_eor, I_adc, I_lda, I_lda, I_cmp, I_sbc] ! a) md))"

text \<open>\<^verbatim>\<open>STX\<close> and \<^verbatim>\<open>LDX\<close> index with Y; there is no \<^verbatim>\<open>STX\<close> to an indexed absolute address.\<close>

definition group2 :: "nat \<Rightarrow> nat \<Rightarrow> entry option" where
  "group2 a b =
     (let index = (\<lambda>x y. if a = 4 \<or> a = 5 then y else x);
          rmw = [I_asl, I_rol, I_lsr, I_ror, I_inc, I_inc, I_dec, I_inc] ! a;
          memory = (\<lambda>md. Some (if a = 4 then WRITE md R_x else if a = 5 then READ I_ldx md else MODIFY rmw md))
      in [if a = 5 then Some (READ I_ldx Imm) else None,
          memory Zero,
          if a < 4 then Some (MODIFY rmw Accum)
          else Some ([TRANSFER R_x R_acc, TRANSFER R_acc R_x, IMPLD I_dex, IMPLD I_nop] ! (a - 4)),
          memory Abs,
          None,
          memory (index Zerox Zeroy),
          if a = 4 then Some (TRANSFER R_x R_sp) else if a = 5 then Some (TRANSFER R_sp R_x) else None,
          if a = 4 then None else memory (index Absx Absy)] ! b)"

definition group3 :: "nat \<Rightarrow> nat \<Rightarrow> entry option" where
  "group3 a b =
     (let memory = (\<lambda>md. [None, Some (READ I_bit md), None, None, Some (WRITE md R_y), Some (READ I_ldy md),
            Some (READ I_cpy md), Some (READ I_cpx md)] ! a)
      in [if a < 4 then Some (IMPLD ([I_brk, I_jsr, I_rti, I_rts] ! a)) else if a = 4 then None else memory Imm,
          memory Zero,
          Some ([IMPLD I_php, IMPLD I_plp, IMPLD I_pha, IMPLD I_pla, IMPLD I_dey, TRANSFER R_acc R_y,
                 IMPLD I_iny, IMPLD I_inx] ! a),
          if a = 2 then Some (IMPLD I_jmp) else if a = 3 then Some (IMPLD I_jmp_ind) else memory Abs,
          Some (BRANCH ([F_neg, F_ov, F_carry, F_zero] ! (a div 2)) (odd a)),
          if a = 4 \<or> a = 5 then memory Zerox else None,
          Some ([FLAG F_carry False, FLAG F_carry True, FLAG F_intdis False, FLAG F_intdis True,
                 TRANSFER R_y R_acc, FLAG F_ov False, FLAG F_decimal False, FLAG F_decimal True] ! a),
          if a = 5 then memory Absx else None] ! b)"

definition decode6502 :: "uint8 \<Rightarrow> entry option" where
  "decode6502 opcode =
     (let n = unat opcode; a = n div 32; b = n div 4 mod 8
      in [group3 a b, group1 a b, group2 a b, None] ! (n mod 4))"

section \<open>Instructions\<close>

definition nz :: "uint8 \<Rightarrow> mos \<Rightarrow> mos" where
  "nz v s = s\<lparr>pN := (sint v < 0), pZ := (v = 0)\<rparr>"

definition mos_compare :: "uint8 \<Rightarrow> uint8 \<Rightarrow> mos \<Rightarrow> mos" where
  "mos_compare reg v s = s\<lparr>pN := (sint (reg - v) < 0), pZ := (reg = v), pC := (v \<le> reg)\<rparr>"

definition mos_adc :: "uint8 \<Rightarrow> mos \<Rightarrow> mos" where
  "mos_adc v s =
     (let sum = uint (pA s) + uint v + of_bool (pC s)
      in nz (word_of_int sum) (s\<lparr>pA := word_of_int sum, pC := (256 \<le> sum),
           pV := (\<not> signed_fits (sint (pA s) + sint v + of_bool (pC s)))\<rparr>))"

definition mos_sbc :: "uint8 \<Rightarrow> mos \<Rightarrow> mos" where
  "mos_sbc v s =
     (let borrow = 1 - of_bool (pC s); diff = uint (pA s) - uint v - borrow
      in nz (word_of_int diff) (s\<lparr>pA := word_of_int diff, pC := (0 \<le> diff),
           pV := (\<not> signed_fits (sint (pA s) - sint v - borrow))\<rparr>))"

primrec mos_read :: "rname \<Rightarrow> uint8 \<Rightarrow> mos \<Rightarrow> mos" where
  "mos_read I_lda v s = nz v (s\<lparr>pA := v\<rparr>)"
| "mos_read I_ldx v s = nz v (s\<lparr>pX := v\<rparr>)"
| "mos_read I_ldy v s = nz v (s\<lparr>pY := v\<rparr>)"
| "mos_read I_cmp v s = mos_compare (pA s) v s"
| "mos_read I_cpx v s = mos_compare (pX s) v s"
| "mos_read I_cpy v s = mos_compare (pY s) v s"
| "mos_read I_adc v s = mos_adc v s"
| "mos_read I_sbc v s = mos_sbc v s"
| "mos_read I_ora v s = nz (pA s OR v) (s\<lparr>pA := pA s OR v\<rparr>)"
| "mos_read I_and v s = nz (pA s AND v) (s\<lparr>pA := pA s AND v\<rparr>)"
| "mos_read I_eor v s = nz (pA s XOR v) (s\<lparr>pA := pA s XOR v\<rparr>)"
| "mos_read I_bit v s = s\<lparr>pN := bit v 7, pV := bit v 6, pZ := (pA s AND v = 0)\<rparr>"

text \<open>The byte a read-modify-write instruction computes, and the carry it shifts out.\<close>

primrec mos_result :: "mname \<Rightarrow> uint8 \<Rightarrow> bool \<Rightarrow> int" where
  "mos_result I_inc v carry = uint v + 1"
| "mos_result I_dec v carry = uint v - 1"
| "mos_result I_asl v carry = 2 * uint v"
| "mos_result I_lsr v carry = uint v div 2"
| "mos_result I_rol v carry = 2 * uint v + of_bool carry"
| "mos_result I_ror v carry = uint v div 2 + 128 * of_bool carry"

primrec mos_carry :: "mname \<Rightarrow> uint8 \<Rightarrow> bool \<Rightarrow> bool" where
  "mos_carry I_inc v carry = carry"
| "mos_carry I_dec v carry = carry"
| "mos_carry I_asl v carry = (128 \<le> uint v)"
| "mos_carry I_lsr v carry = odd (uint v)"
| "mos_carry I_rol v carry = (128 \<le> uint v)"
| "mos_carry I_ror v carry = odd (uint v)"

definition mos_modify :: "mname \<Rightarrow> uint8 \<Rightarrow> mos \<Rightarrow> uint8 \<times> mos" where
  "mos_modify i v s =
     (let r = word_of_int (mos_result i v (pC s)) in (r, nz r (s\<lparr>pC := mos_carry i v (pC s)\<rparr>)))"

primrec mos_reg :: "regname \<Rightarrow> mos \<Rightarrow> uint8" where
  "mos_reg R_acc s = pA s" | "mos_reg R_x s = pX s" | "mos_reg R_y s = pY s" | "mos_reg R_sp s = pS s"

primrec mos_flag :: "flagname \<Rightarrow> mos \<Rightarrow> bool" where
  "mos_flag F_carry s = pC s" | "mos_flag F_zero s = pZ s" | "mos_flag F_intdis s = pI s"
| "mos_flag F_decimal s = pD s" | "mos_flag F_ov s = pV s" | "mos_flag F_neg s = pN s"

primrec mos_set_flag :: "flagname \<Rightarrow> bool \<Rightarrow> mos \<Rightarrow> mos" where
  "mos_set_flag F_carry b s = s\<lparr>pC := b\<rparr>" | "mos_set_flag F_zero b s = s\<lparr>pZ := b\<rparr>"
| "mos_set_flag F_intdis b s = s\<lparr>pI := b\<rparr>" | "mos_set_flag F_decimal b s = s\<lparr>pD := b\<rparr>"
| "mos_set_flag F_ov b s = s\<lparr>pV := b\<rparr>" | "mos_set_flag F_neg b s = s\<lparr>pN := b\<rparr>"

text \<open>A transfer to the stack pointer sets no flags.\<close>

primrec mos_transfer :: "regname \<Rightarrow> uint8 \<Rightarrow> mos \<Rightarrow> mos" where
  "mos_transfer R_acc v s = nz v (s\<lparr>pA := v\<rparr>)"
| "mos_transfer R_x v s = nz v (s\<lparr>pX := v\<rparr>)"
| "mos_transfer R_y v s = nz v (s\<lparr>pY := v\<rparr>)"
| "mos_transfer R_sp v s = s\<lparr>pS := v\<rparr>"

section \<open>Stack and jumps\<close>

definition mos_push :: "uint8 \<Rightarrow> mos \<Rightarrow> mos" where
  "mos_push v s = s\<lparr>pM := nes_write (0x100 + ucast (pS s)) v (pM s), pS := pS s - 1\<rparr>"

definition mos_top :: "uint8 \<Rightarrow> mos \<Rightarrow> uint8" where
  "mos_top k s = pM s (0x100 + ucast (pS s + k))"

text \<open>The byte \<open>PHP\<close> and \<open>BRK\<close> push: bits 4 and 5 are set.\<close>

definition status_byte :: "mos \<Rightarrow> uint8" where
  "status_byte s =
     of_bool (pC s) + 2 * of_bool (pZ s) + 4 * of_bool (pI s) + 8 * of_bool (pD s) + 0x30 +
     0x40 * of_bool (pV s) + 0x80 * of_bool (pN s)"

definition set_status :: "uint8 \<Rightarrow> mos \<Rightarrow> mos" where
  "set_status v s = s\<lparr>pC := bit v 0, pZ := bit v 1, pI := bit v 2, pD := bit v 3, pV := bit v 6, pN := bit v 7\<rparr>"

text \<open>The two operand bytes as an address; the program counter is past the opcode.\<close>

definition operand :: "mos \<Rightarrow> uint16" where
  "operand s = mk16 (pM s (pPC s + 1)) (pM s (pPC s))"

text \<open>An indirect jump through the last byte of a page takes its high byte from the start of that page.\<close>

definition mos_pointer :: "uint16 \<Rightarrow> mos \<Rightarrow> uint16" where
  "mos_pointer p s = mk16 (pM s (mk16 (high p) (low p + 1))) (pM s p)"

primrec mos_implied :: "iname \<Rightarrow> mos \<Rightarrow> mos" where
  "mos_implied I_brk s =
     (let ret = pPC s + 1; s = mos_push (status_byte s) (mos_push (low ret) (mos_push (high ret) s))
      in s\<lparr>pI := True, pPC := mk16 (pM s 0xFFFF) (pM s 0xFFFE)\<rparr>)"
| "mos_implied I_php s = mos_push (status_byte s) s"
| "mos_implied I_pha s = mos_push (pA s) s"
| "mos_implied I_plp s = set_status (mos_top 1 s) (s\<lparr>pS := pS s + 1\<rparr>)"
| "mos_implied I_pla s = nz (mos_top 1 s) (s\<lparr>pA := mos_top 1 s, pS := pS s + 1\<rparr>)"
| "mos_implied I_jsr s =
     (mos_push (low (pPC s + 1)) (mos_push (high (pPC s + 1)) s))\<lparr>pPC := operand s\<rparr>"
| "mos_implied I_rts s = s\<lparr>pS := pS s + 2, pPC := mk16 (mos_top 2 s) (mos_top 1 s) + 1\<rparr>"
| "mos_implied I_rti s =
     (set_status (mos_top 1 s) s)\<lparr>pS := pS s + 3, pPC := mk16 (mos_top 3 s) (mos_top 2 s)\<rparr>"
| "mos_implied I_jmp s = s\<lparr>pPC := operand s\<rparr>"
| "mos_implied I_jmp_ind s = s\<lparr>pPC := mos_pointer (operand s) s\<rparr>"
| "mos_implied I_inx s = nz (pX s + 1) (s\<lparr>pX := pX s + 1\<rparr>)"
| "mos_implied I_iny s = nz (pY s + 1) (s\<lparr>pY := pY s + 1\<rparr>)"
| "mos_implied I_dex s = nz (pX s - 1) (s\<lparr>pX := pX s - 1\<rparr>)"
| "mos_implied I_dey s = nz (pY s - 1) (s\<lparr>pY := pY s - 1\<rparr>)"
| "mos_implied I_nop s = s"

section \<open>Addressing modes and the step\<close>

text \<open>
  The effective address. Indexing a zero page operand stays in the zero page, and so do the two
  bytes of a zero page pointer.
\<close>

fun eff_addr :: "mode \<Rightarrow> mos \<Rightarrow> uint16" where
  "eff_addr Imm s = pPC s"
| "eff_addr Zero s = ucast (pM s (pPC s))"
| "eff_addr Zerox s = ucast (pM s (pPC s) + pX s)"
| "eff_addr Zeroy s = ucast (pM s (pPC s) + pY s)"
| "eff_addr Abs s = operand s"
| "eff_addr Absx s = operand s + ucast (pX s)"
| "eff_addr Absy s = operand s + ucast (pY s)"
| "eff_addr Indx s =
     (let p = pM s (pPC s) + pX s in mk16 (pM s (ucast (p + 1))) (pM s (ucast p)))"
| "eff_addr Indy s =
     (let p = pM s (pPC s) in mk16 (pM s (ucast (p + 1))) (pM s (ucast p)) + ucast (pY s))"
| "eff_addr _ s = 0"

definition operand_bytes :: "mode \<Rightarrow> uint16" where
  "operand_bytes md = (if md \<in> {Abs, Absx, Absy} then 2 else if md \<in> {Impld, Accum} then 0 else 1)"

definition skip_operand :: "mode \<Rightarrow> mos \<Rightarrow> mos" where
  "skip_operand md s = s\<lparr>pPC := pPC s + operand_bytes md\<rparr>"

primrec mos_exec :: "entry \<Rightarrow> mos \<Rightarrow> mos" where
  "mos_exec (IMPLD i) s = mos_implied i s"
| "mos_exec (READ i md) s = skip_operand md (mos_read i (pM s (eff_addr md s)) s)"
| "mos_exec (MODIFY i md) s =
     (if md = Accum then (let (r, s) = mos_modify i (pA s) s in s\<lparr>pA := r\<rparr>)
      else (let a = eff_addr md s; (r, s) = mos_modify i (pM s a) s
            in skip_operand md (s\<lparr>pM := nes_write a r (pM s)\<rparr>)))"
| "mos_exec (WRITE md r) s =
     skip_operand md (s\<lparr>pM := nes_write (eff_addr md s) (mos_reg r s) (pM s)\<rparr>)"
| "mos_exec (BRANCH f b) s =
     (let next = pPC s + 1
      in s\<lparr>pPC := (if mos_flag f s = b then word_of_int (uint next + sint (pM s (pPC s))) else next)\<rparr>)"
| "mos_exec (FLAG f b) s = mos_set_flag f b s"
| "mos_exec (TRANSFER from to) s = mos_transfer to (mos_reg from s) s"

definition mos_step :: "mos \<Rightarrow> mos option" where
  "mos_step s = map_option (\<lambda>e. mos_exec e (s\<lparr>pPC := pPC s + 1\<rparr>)) (decode6502 (pM s (pPC s)))"

section \<open>The dispatch is the regular encoding\<close>

lemmas decode_defs = decode6502_def group1_def group2_def group3_def group1_modes_def Let_def

lemma decode_entries: "list_all (\<lambda>(i, e). decode6502 i = Some e) execute_tab"
  by (simp add: execute_tab_def decode_defs)

definition undocumented :: "uint8 list" where
  "undocumented =
  [0x02, 0x03, 0x04, 0x07, 0x0B, 0x0C, 0x0F, 0x12, 0x13, 0x14, 0x17, 0x1A, 0x1B, 0x1C, 0x1F,
   0x22, 0x23, 0x27, 0x2B, 0x2F, 0x32, 0x33, 0x34, 0x37, 0x3A, 0x3B, 0x3C, 0x3F, 0x42, 0x43,
   0x44, 0x47, 0x4B, 0x4F, 0x52, 0x53, 0x54, 0x57, 0x5A, 0x5B, 0x5C, 0x5F, 0x62, 0x63, 0x64,
   0x67, 0x6B, 0x6F, 0x72, 0x73, 0x74, 0x77, 0x7A, 0x7B, 0x7C, 0x7F, 0x80, 0x82, 0x83, 0x87,
   0x89, 0x8B, 0x8F, 0x92, 0x93, 0x97, 0x9B, 0x9C, 0x9E, 0x9F, 0xA3, 0xA7, 0xAB, 0xAF, 0xB2,
   0xB3, 0xB7, 0xBB, 0xBF, 0xC2, 0xC3, 0xC7, 0xCB, 0xCF, 0xD2, 0xD3, 0xD4, 0xD7, 0xDA, 0xDB,
   0xDC, 0xDF, 0xE2, 0xE3, 0xE7, 0xEB, 0xEF, 0xF2, 0xF3, 0xF4, 0xF7, 0xFA, 0xFB, 0xFC, 0xFF]"

lemma decode_undocumented: "list_all (\<lambda>i. decode6502 i = None) undocumented"
  by (simp add: undocumented_def decode_defs)

lemma ascending_distinct: "successively (<) xs \<Longrightarrow> distinct xs" for xs :: "uint8 list"
  by (simp add: successively_conv_sorted_wrt transp_on_less strict_sorted_iff)

lemma opcodes_distinct: "distinct (map fst execute_tab @ undocumented)"
proof -
  have "successively (<) (map fst execute_tab)" "successively (<) undocumented"
    by (simp_all add: execute_tab_def undocumented_def)
  moreover have "set (map fst execute_tab) \<inter> set undocumented = {}"
    using decode_entries decode_undocumented unfolding list_all_iff by fastforce
  ultimately show ?thesis by (simp add: ascending_distinct)
qed

lemma opcodes_covered: "i \<in> set (map fst execute_tab @ undocumented)"
proof -
  let ?S = "set (map fst execute_tab @ undocumented)"
  have "length (map fst execute_tab @ undocumented) = 256" by (simp add: execute_tab_def undocumented_def)
  then have "card ?S = 256" by (simp only: distinct_card [OF opcodes_distinct])
  moreover have "card (UNIV :: uint8 set) = 256" by (simp add: card_word)
  ultimately have "?S = UNIV" by (intro card_subset_eq) simp_all
  then show ?thesis by blast
qed

lemma dispatch_regular: "map_of execute_tab i = decode6502 i"
proof (cases "map_of execute_tab i")
  case (Some e)
  then show ?thesis using decode_entries map_of_SomeD [OF Some] unfolding list_all_iff by auto
next
  case None
  then have "i \<notin> set (map fst execute_tab)" by (simp add: map_of_eq_None_iff)
  moreover have "i \<in> set (map fst execute_tab @ undocumented)" by (rule opcodes_covered)
  ultimately show ?thesis using decode_undocumented None unfolding list_all_iff by auto
qed

section \<open>The instruction functions\<close>

text \<open>What a program sees of the processor, over a memory.\<close>

definition mos_of :: "(uint16 \<Rightarrow> uint8) \<Rightarrow> cpu \<Rightarrow> mos" where
  "mos_of M c =
     \<lparr>pA = r_acc c, pX = r_x c, pY = r_y c, pS = r_sp c, pPC = r_pc c,
      pN = f_neg (r_flags c), pV = f_ov (r_flags c), pD = f_decimal (r_flags c), pI = f_intdis (r_flags c),
      pZ = f_zero (r_flags c), pC = f_carry (r_flags c), pM = M\<rparr>"

text \<open>
  The flags in which the code departs from the processor: overflow after \<^verbatim>\<open>SBC\<close>, negative and zero
  after \<^verbatim>\<open>BIT\<close> and after \<^verbatim>\<open>TXS\<close>. They are compared no further.
\<close>

fun blur :: "entry \<Rightarrow> mos \<Rightarrow> mos" where
  "blur (READ I_sbc md) s = s\<lparr>pV := False\<rparr>"
| "blur (READ I_bit md) s = s\<lparr>pN := False, pZ := False\<rparr>"
| "blur (TRANSFER from R_sp) s = s\<lparr>pN := False, pZ := False\<rparr>"
| "blur e s = s"

lemma mos_of_fields [simp]:
  "pA (mos_of M c) = r_acc c" "pX (mos_of M c) = r_x c" "pY (mos_of M c) = r_y c"
  "pS (mos_of M c) = r_sp c" "pPC (mos_of M c) = r_pc c" "pM (mos_of M c) = M"
  "pN (mos_of M c) = f_neg (r_flags c)" "pV (mos_of M c) = f_ov (r_flags c)"
  "pD (mos_of M c) = f_decimal (r_flags c)" "pI (mos_of M c) = f_intdis (r_flags c)"
  "pZ (mos_of M c) = f_zero (r_flags c)" "pC (mos_of M c) = f_carry (r_flags c)"
  by (simp_all add: mos_of_def)

lemma mos_of_internal [simp]:
  "mos_of M (cycle c) = mos_of M c" "mos_of M (last_cycle c) = mos_of M c"
  "mos_of M (c\<lparr>opargs := w\<rparr>) = mos_of M c"
  by (simp_all add: mos_of_def)

lemma mos_of_update [simp]:
  "mos_of M (c\<lparr>r_acc := v\<rparr>) = (mos_of M c)\<lparr>pA := v\<rparr>" "mos_of M (c\<lparr>r_x := v\<rparr>) = (mos_of M c)\<lparr>pX := v\<rparr>"
  "mos_of M (c\<lparr>r_y := v\<rparr>) = (mos_of M c)\<lparr>pY := v\<rparr>" "mos_of M (c\<lparr>r_sp := v\<rparr>) = (mos_of M c)\<lparr>pS := v\<rparr>"
  "mos_of M (c\<lparr>r_pc := a\<rparr>) = (mos_of M c)\<lparr>pPC := a\<rparr>" "(mos_of M c)\<lparr>pM := N\<rparr> = mos_of N c"
  by (simp_all add: mos_of_def)

lemma negative_byte: "(v AND 0x80 \<noteq> 0) = (sint v < 0)" for v :: uint8
  unfolding and_mask_bit by (simp add: sint_uint8 uint_uint8_less not_less)

lemma mos_set_zn [simp]: "mos_of M (set_zn v c) = nz v (mos_of M c)"
  unfolding set_zn_def negative_byte by (simp add: mos_of_def nz_def set_flags_def)

lemma mos_of_compared: "mos_of M (compared reg v c) = mos_compare reg v (mos_of M c)"
  by (simp add: compared_def mos_compare_def mos_of_def)

lemma arith_rest:
  "r_x (instr_adc v c) = r_x c" "r_y (instr_adc v c) = r_y c" "r_sp (instr_adc v c) = r_sp c"
  "r_pc (instr_adc v c) = r_pc c" "f_intdis (r_flags (instr_adc v c)) = f_intdis (r_flags c)"
  "f_decimal (r_flags (instr_adc v c)) = f_decimal (r_flags c)"
  "r_x (instr_sbc v c) = r_x c" "r_y (instr_sbc v c) = r_y c" "r_sp (instr_sbc v c) = r_sp c"
  "r_pc (instr_sbc v c) = r_pc c" "f_intdis (r_flags (instr_sbc v c)) = f_intdis (r_flags c)"
  "f_decimal (r_flags (instr_sbc v c)) = f_decimal (r_flags c)"
  by (simp_all add: instr_adc_def instr_sbc_def Let_def set_flags_def)

lemma mos_of_adc: "mos_of M (instr_adc v c) = mos_adc v (mos_of M c)"
  unfolding mos_adc_def nz_def Let_def mos_of_fields
  unfolding mos_of_def adc_fields arith_rest by simp

lemma mos_of_sbc: "(mos_of M (instr_sbc v c))\<lparr>pV := False\<rparr> = (mos_sbc v (mos_of M c))\<lparr>pV := False\<rparr>"
  unfolding mos_sbc_def nz_def Let_def mos_of_fields
  unfolding mos_of_def sbc_fields(1-4) arith_rest by simp

lemma mos_of_bit: "(mos_of M (instr_bit v c))\<lparr>pN := False, pZ := False\<rparr> =
  (mos_read I_bit v (mos_of M c))\<lparr>pN := False, pZ := False\<rparr>"
  unfolding instr_bit_def and_mask_bit by (simp add: mos_of_def set_flags_def)

lemma mos_instr_read: "blur (READ i md) (mos_of M (instr_read i v c)) = blur (READ i md) (mos_read i v (mos_of M c))"
proof (cases i)
  case I_adc
  then show ?thesis by (simp add: mos_of_adc)
next
  case I_sbc
  then show ?thesis by (simp add: mos_of_sbc)
next
  case I_bit
  then show ?thesis using mos_of_bit [of M v c] by simp
qed (simp_all add: instr_lda_def instr_ldx_def instr_ldy_def instr_ora_def instr_and_def instr_eor_def Let_def
    compare_correct mos_of_compared)

lemma top_bit: "(v AND 0x80 \<noteq> 0) = (128 \<le> uint v)" for v :: uint8
  unfolding and_mask_bit bit_uint_7 [symmetric] by (simp add: bit_uint_iff)

lemma low_bit: "(v AND 1 \<noteq> 0) = odd (uint v)" for v :: uint8
proof -
  have "bit (uint v) 0 = odd (uint v)" by (rule bit_0)
  then show ?thesis unfolding and_mask_bit by (simp add: bit_uint_iff)
qed

lemma shifted_left: "push_bit 1 v = word_of_int (2 * uint v)" for v :: uint8
  by (simp add: push_bit_eq_mult mult.commute)

lemma shifted_right: "drop_bit 1 v = word_of_int (uint v div 2)" for v :: uint8
proof -
  have "0 \<le> uint v div 2" "uint v div 2 < 256" using byte_range [of v] by linarith+
  then have "uint v div 2 mod 256 = uint v div 2" by (rule mod_256_low)
  then show ?thesis by (simp only: word_uint_eq_iff uint_word_of_int_8) (simp add: drop_bit_eq_div uint_div)
qed

lemma rotated_left: "push_bit 1 v OR of_bool b = word_of_int (2 * uint v + of_bool b)" for v :: uint8
proof -
  have "push_bit 1 v AND of_bool b = 0"
    by (rule bit_word_eqI) (auto simp only: bit_and_iff bit_push_bit_iff bit_of_bool_iff bit_0_eq)
  then have "push_bit 1 v OR of_bool b = push_bit 1 v + of_bool b" by (rule disjunctive_add_eq_or [symmetric])
  then show ?thesis unfolding shifted_left by simp
qed

lemma rotated_right: "drop_bit 1 v OR push_bit 7 (of_bool b) = word_of_int (uint v div 2 + 128 * of_bool b)" for v :: uint8
proof -
  have "drop_bit 1 v AND push_bit 7 (of_bool b) = 0"
    by (rule bit_word_eqI) (auto simp: bit_simps dest: bit_imp_le_length)
  then have "drop_bit 1 v OR push_bit 7 (of_bool b) = drop_bit 1 v + push_bit 7 (of_bool b)"
    by (rule disjunctive_add_eq_or [symmetric])
  then show ?thesis unfolding shifted_right by (simp add: push_bit_eq_mult)
qed

lemma mos_set_carry [simp]: "mos_of M (set_carry b c) = (mos_of M c)\<lparr>pC := b\<rparr>"
  by (simp add: set_carry_def set_flags_def mos_of_def)

lemma mos_instr_modify:
  "fst (instr_modify i v c) = fst (mos_modify i v (mos_of M c))"
  "mos_of M (snd (instr_modify i v c)) = snd (mos_modify i v (mos_of M c))"
proof -
  have inc: "v + 1 = word_of_int (uint v + 1)" "v - 1 = word_of_int (uint v - 1)" by simp_all
  have "fst (instr_modify i v c) = fst (mos_modify i v (mos_of M c)) \<and>
    mos_of M (snd (instr_modify i v c)) = snd (mos_modify i v (mos_of M c))"
    by (cases i; simp only: instr_modify.simps;
        simp only: instr_inc_def instr_dec_def instr_asl_def instr_lsr_def instr_rol_def instr_ror_def Let_def
          rotated_left rotated_right top_bit low_bit inc mos_modify_def mos_result.simps mos_carry.simps
          fst_conv snd_conv mos_set_zn mos_set_carry mos_of_fields;
        (simp only: shifted_left shifted_right)?; simp add: mos_of_def nz_def)
  then show "fst (instr_modify i v c) = fst (mos_modify i v (mos_of M c))"
    "mos_of M (snd (instr_modify i v c)) = snd (mos_modify i v (mos_of M c))" by blast+
qed

lemma mos_get_flag [simp]: "mos_flag f (mos_of M c) = get_flag f c"
  by (cases f) simp_all

lemma mos_get_reg [simp]: "mos_reg r (mos_of M c) = get_reg r c"
  by (cases r) simp_all

lemma mos_instr_flag: "mos_of M (instr_flag f b c) = mos_set_flag f b (mos_of M c)"
  by (cases f) (simp_all add: instr_flag_def set_flags_def mos_of_def)

lemma mos_instr_transfer:
  "blur (TRANSFER from to) (mos_of M (instr_transfer v to c)) = blur (TRANSFER from to) (mos_transfer to v (mos_of M c))"
  by (cases to) (simp_all add: instr_transfer_def nz_def)

lemma status_byte_of:
  assumes "f_unused (r_flags c)"
  shows "ps_to_uint8 ((r_flags c)\<lparr>f_breakf := True\<rparr>) = status_byte (mos_of M c)"
  using assms
  by (cases "f_carry (r_flags c)"; cases "f_zero (r_flags c)"; cases "f_intdis (r_flags c)";
      cases "f_decimal (r_flags c)"; cases "f_ov (r_flags c)"; cases "f_neg (r_flags c)")
     (simp_all add: ps_to_uint8_def status_byte_def)

lemma set_status_of:
  "mos_of M (c\<lparr>r_flags := ps_of_uint8 v\<rparr>) = set_status v (mos_of M c)"
  "mos_of M (c\<lparr>r_flags := (ps_of_uint8 v)\<lparr>f_breakf := b\<rparr>\<rparr>) = set_status v (mos_of M c)"
  by (simp_all add: mos_of_def set_status_def ps_of_uint8_bits)

end
