(* ===== verification/CpuRefines.thy ===== *)
theory CpuRefines
  imports CpuMemory Mos6502
begin

text \<open>
  The processor implements the documented 6502: one call of \<^verbatim>\<open>CPU::run\<close> on the machine's memory is one
  step of the specification in theory \<open>Mos6502\<close>, for the registers, the flags and the memory. The
  comparison is proved in the locale \<open>cpu_memory\<close> and reaches the machine through its interpretation.
\<close>

unbundle bit_operations_syntax

section \<open>Where the code and the specification meet\<close>

text \<open>Memory without the registers of the picture unit, whose reads have effects.\<close>

definition plain_mem :: "(uint16 \<Rightarrow> uint8) \<Rightarrow> uint16 \<Rightarrow> uint8" where
  "plain_mem f a = (if plain a then f a else 0)"

text \<open>The operand bytes of an instruction lie in plain memory.\<close>

definition operands_plain :: "mode \<Rightarrow> mos \<Rightarrow> bool" where
  "operands_plain md s \<longleftrightarrow> plain (pPC s) \<and> (operand_bytes md = 2 \<longrightarrow> plain (pPC s + 1))"

text \<open>
  Indexing in the zero page and the second byte of a zero page pointer do not leave the page: the
  code adds without wrapping there.
\<close>

fun in_page :: "mode \<Rightarrow> mos \<Rightarrow> bool" where
  "in_page Zerox s \<longleftrightarrow> unat (pM s (pPC s)) + unat (pX s) < 256"
| "in_page Zeroy s \<longleftrightarrow> unat (pM s (pPC s)) + unat (pY s) < 256"
| "in_page Indx s \<longleftrightarrow> unat (pM s (pPC s)) + unat (pX s) + 1 < 256"
| "in_page Indy s \<longleftrightarrow> unat (pM s (pPC s)) + 1 < 256"
| "in_page _ s \<longleftrightarrow> True"

primrec ordinary :: "entry \<Rightarrow> mos \<Rightarrow> bool" where
  "ordinary (IMPLD i) s \<longleftrightarrow>
     (case i of I_brk \<Rightarrow> False
      | I_jsr \<Rightarrow> operands_plain Abs s
      | I_jmp \<Rightarrow> operands_plain Abs s
      | I_jmp_ind \<Rightarrow> operands_plain Abs s \<and> plain (operand s) \<and> plain (mk16 (high (operand s)) (low (operand s) + 1))
      | _ \<Rightarrow> True)"
| "ordinary (READ i md) s \<longleftrightarrow> operands_plain md s \<and> in_page md s \<and> plain (eff_addr md s)"
| "ordinary (MODIFY i md) s \<longleftrightarrow>
     md = Accum \<or> operands_plain md s \<and> in_page md s \<and> eff_addr md s < 0x2000"
| "ordinary (WRITE md r) s \<longleftrightarrow> operands_plain md s \<and> in_page md s \<and>
     (eff_addr md s < 0x2000 \<or> 0x4000 \<le> eff_addr md s \<and> eff_addr md s < 0x4020)"
| "ordinary (BRANCH f b) s \<longleftrightarrow> plain (pPC s)"
| "ordinary (FLAG f b) s \<longleftrightarrow> True"
| "ordinary (TRANSFER from to) s \<longleftrightarrow> True"

lemma plain_mem_plain [simp]: "plain a \<Longrightarrow> plain_mem f a = f a"
  by (auto simp: plain_mem_def)

lemma zero_page [simp]: "(ucast b :: uint16) < 0x2000" for b :: uint8
proof -
  have "unat b < 0x2000" using unat_uint8_less [of b] by linarith
  then show ?thesis by (simp add: word_less_nat_alt)
qed

lemma ucast_add_page:
  fixes b x :: uint8
  assumes "unat b + unat x < 256"
  shows "(ucast (b + x) :: uint16) = ucast b + ucast x"
proof -
  have "unat (b + x) = unat b + unat x" using assms by (simp add: unat_word_ariths)
  with assms show ?thesis by (simp add: word_unat_eq_iff unat_word_ariths)
qed

lemma ucast_next_page:
  fixes b :: uint8
  assumes "unat b + 1 < 256"
  shows "(ucast (b + 1) :: uint16) = ucast b + 1"
  using ucast_add_page [of b 1] assms by simp

lemma ucast_pointer_page:
  fixes b x :: uint8
  assumes "unat b + unat x + 1 < 256"
  shows "(ucast (b + x + 1) :: uint16) = ucast b + ucast x + 1"
proof -
  have "unat (b + x) = unat b + unat x" using assms by (simp add: unat_word_ariths)
  with assms show ?thesis using ucast_next_page [of "b + x"] ucast_add_page [of b x] by simp
qed

lemma page_plain:
  fixes b x :: uint8
  shows "unat b + unat x < 256 \<Longrightarrow> (ucast b + ucast x :: uint16) < 0x2000"
    "unat b + 1 < 256 \<Longrightarrow> (ucast b + 1 :: uint16) < 0x2000"
    "unat b + unat x + 1 < 256 \<Longrightarrow> (ucast b + ucast x + 1 :: uint16) < 0x2000"
  using zero_page [of "b + x"] zero_page [of "b + 1"] zero_page [of "b + x + 1"]
  by (simp_all only: ucast_add_page ucast_next_page ucast_pointer_page)

lemma next_in_page: "(if low p = 0xFF then p AND 0xFF00 else p + 1) = mk16 (high p) (low p + 1)"
proof (cases "low p = 0xFF")
  case True
  have "(0xFF00 :: uint16) = push_bit 8 (mask 8)" by (simp add: mask_eq_exp_minus_1)
  moreover have "p AND push_bit 8 (mask 8) = mk16 (high p) 0"
    by (rule bit_word_eqI) (auto simp: bit_reg16 bit_simps)
  ultimately have "p AND 0xFF00 = mk16 (high p) 0" by simp
  with True show ?thesis by simp
next
  case False
  have p: "unat p = 256 * unat (high p) + unat (low p)" by (metis unat_mk16 mk16_high_low)
  have "unat (low p) \<noteq> 255" using False by (simp add: word_unat_eq_iff)
  then have l: "unat (low p) < 255" using unat_uint8_less [of "low p"] by linarith
  have h: "unat (high p) < 256" by (rule unat_uint8_less)
  have "unat (low p + 1) = unat (low p) + 1" using l by (simp add: unat_word_ariths)
  moreover have "unat p + 1 < 65536" using p l h by linarith
  then have "unat (p + 1) = unat p + 1" using unat_step [of p 1] by simp
  ultimately have "p + 1 = mk16 (high p) (low p + 1)" using p by (simp add: word_unat_eq_iff unat_mk16)
  with False show ?thesis by simp
qed

lemma mos_of_more [simp]:
  "mos_of M (c\<lparr>r_cycles := n\<rparr>) = mos_of M c" "mos_of M (set_break b c) = mos_of M c"
  by (simp_all add: mos_of_def set_break_def set_flags_def)

definition read_modes :: "mode set" where
  "read_modes = {Imm, Zero, Zerox, Zeroy, Abs, Absx, Absy, Indx, Indy}"

lemma table_modes:
  "list_all (\<lambda>(i, e). case e of READ f md \<Rightarrow> md \<in> read_modes | MODIFY f md \<Rightarrow> md \<in> {Accum, Zero, Zerox, Abs, Absx}
     | WRITE md r \<Rightarrow> md \<in> read_modes - {Imm} | _ \<Rightarrow> True) execute_tab"
  by (simp add: execute_tab_def read_modes_def)

lemma entry_modes:
  assumes "map_of execute_tab i = Some e"
  shows "e = READ f md \<Longrightarrow> md \<in> read_modes" "e = MODIFY g md \<Longrightarrow> md \<in> {Accum, Zero, Zerox, Abs, Absx}"
    "e = WRITE md r \<Longrightarrow> md \<in> read_modes - {Imm}"
  using table_modes map_of_SomeD [OF assms] unfolding list_all_iff by auto

lemma skip_operand_read: "mos_read i v (skip_operand md s) = skip_operand md (mos_read i v s)"
  by (cases i) (simp_all add: skip_operand_def nz_def mos_compare_def mos_adc_def mos_sbc_def Let_def)

lemma skip_operand_modify:
  "mos_modify i v (skip_operand md s) = (fst (mos_modify i v s), skip_operand md (snd (mos_modify i v s)))"
  by (simp add: skip_operand_def nz_def mos_modify_def Let_def)

lemma modify_memory [simp]: "pM (snd (mos_modify i v s)) = pM s"
  by (simp add: mos_modify_def nz_def Let_def)

lemma blur_skip_operand: "blur e (skip_operand md s) = skip_operand md (blur e s)"
  by (cases "(e, s)" rule: blur.cases) (simp_all add: skip_operand_def)

section \<open>Programs without interrupts\<close>

text \<open>No interrupt is due or requested, and bit 5 of the status is set as it is from power-up on.\<close>

definition undisturbed :: "cpu \<Rightarrow> bool" where
  "undisturbed c \<longleftrightarrow> \<not> nmipending c \<and> \<not> irqpending c \<and> \<not> execnmi c \<and> \<not> execirq c \<and> f_unused (r_flags c)"

lemma undisturbed_simps [simp]:
  "undisturbed (cycle c) = undisturbed c" "undisturbed (c\<lparr>opargs := w\<rparr>) = undisturbed c"
  "undisturbed (c\<lparr>r_pc := w\<rparr>) = undisturbed c" "undisturbed (c\<lparr>r_acc := v\<rparr>) = undisturbed c"
  "undisturbed (c\<lparr>r_x := v\<rparr>) = undisturbed c" "undisturbed (c\<lparr>r_y := v\<rparr>) = undisturbed c"
  "undisturbed (c\<lparr>r_sp := v\<rparr>) = undisturbed c" "undisturbed (set_zn v c) = undisturbed c"
  "undisturbed (set_carry b c) = undisturbed c" "undisturbed (set_break b c) = undisturbed c"
  by (simp_all add: undisturbed_def flag_setters set_flags_def)

lemma undisturbed_put [simp]:
  "undisturbed (put_flag f b c) = undisturbed c" "undisturbed (put_reg r v c) = undisturbed c"
  by (cases f; simp add: undisturbed_def set_flags_def) (cases r; simp)

lemma undisturbed_instr [simp]:
  "undisturbed (instr_read i v c) = undisturbed c" "undisturbed (snd (instr_modify g v c)) = undisturbed c"
proof -
  show "undisturbed (instr_read i v c) = undisturbed c"
    by (cases i; simp add: undisturbed_def instr_read_defs flag_setters set_flags_def Let_def)
  show "undisturbed (snd (instr_modify g v c)) = undisturbed c"
    by (cases g; simp add: instr_modify_defs Let_def)
qed

lemma undisturbed_last [simp]: "undisturbed c \<Longrightarrow> undisturbed (last_cycle c)"
  by (simp add: undisturbed_def last_cycle_def irqpoll_def nmipoll_def)

lemma undisturbed_read: "addrmode_read P md (instr_read i) c m = Some (c', m') \<Longrightarrow> undisturbed c \<Longrightarrow> undisturbed c'"
  by (cases md; auto simp: addrmode_read_defs Let_def elim!: bind_SomeE dest!: access_cpu split: if_splits)

lemma undisturbed_modify: "addrmode_modify P md (instr_modify i) c m = Some (c', m') \<Longrightarrow> undisturbed c \<Longrightarrow> undisturbed c'"
  by (cases md; auto simp: addrmode_modify_defs Let_def case_prod_unfold elim!: bind_SomeE dest!: access_cpu)

lemma undisturbed_write: "addrmode_write P md v c m = Some (c', m') \<Longrightarrow> undisturbed c \<Longrightarrow> undisturbed c'"
  by (cases md; auto simp: addrmode_write_defs Let_def elim!: bind_SomeE dest!: access_cpu)

lemma undisturbed_implied:
  "instr_impld P i c m = Some (c', m') \<Longrightarrow> i \<notin> {I_brk, I_plp, I_rti} \<Longrightarrow> undisturbed c \<Longrightarrow> undisturbed c'"
  by (cases i; auto simp: instr_direct_defs instr_stack_defs Let_def elim!: bind_SomeE dest!: access_cpu split: if_splits)

lemma undisturbed_branch: "instr_branch P b c m = Some (c', m') \<Longrightarrow> undisturbed c \<Longrightarrow> undisturbed c'"
  by (auto simp: instr_branch_def Let_def elim!: bind_SomeE dest!: access_cpu split: if_splits)

lemma undisturbed_entry:
  assumes "exec_entry P e c m = Some (c', m')" "e \<notin> IMPLD ` {I_brk, I_plp, I_rti}" "undisturbed c"
  shows "undisturbed c'"
  using assms
  by (cases e) (auto simp: instr_direct_defs dest: undisturbed_read undisturbed_modify undisturbed_write
      undisturbed_implied undisturbed_branch)

text \<open>Iterating \<^verbatim>\<open>CPU::run\<close>, and the specification.\<close>

primrec cpu_runs :: "'m cpu_ports \<Rightarrow> nat \<Rightarrow> cpu \<Rightarrow> 'm \<Rightarrow> (cpu \<times> 'm) option" where
  "cpu_runs P 0 c m = Some (c, m)"
| "cpu_runs P (Suc n) c m = do { (c, m) \<leftarrow> cpu_run P c m; cpu_runs P n c m }"

primrec mos_run :: "nat \<Rightarrow> mos \<Rightarrow> mos option" where
  "mos_run 0 s = Some s"
| "mos_run (Suc n) s = Option.bind (mos_step s) (mos_run n)"

text \<open>The instructions whose flags agree in full.\<close>

fun exact :: "entry \<Rightarrow> bool" where
  "exact (READ I_sbc md) \<longleftrightarrow> False"
| "exact (READ I_bit md) \<longleftrightarrow> False"
| "exact (TRANSFER r1 R_sp) \<longleftrightarrow> False"
| "exact e \<longleftrightarrow> True"

lemma exact_blur: "exact e \<Longrightarrow> blur e s = s"
  by (cases e rule: exact.cases) simp_all

text \<open>
  The next steps of a program of the specification are ordinary and exact; a status byte that is
  pulled has bit 5 set, as every status byte that was pushed has.
\<close>

definition tame_step :: "mos \<Rightarrow> bool" where
  "tame_step s \<longleftrightarrow> plain (pPC s) \<and>
     (case decode6502 (pM s (pPC s)) of None \<Rightarrow> False
      | Some e \<Rightarrow> exact e \<and> ordinary e (s\<lparr>pPC := pPC s + 1\<rparr>) \<and> (e \<in> IMPLD ` {I_plp, I_rti} \<longrightarrow> bit (mos_top 1 s) 5))"

primrec tame :: "nat \<Rightarrow> mos \<Rightarrow> bool" where
  "tame 0 s \<longleftrightarrow> True"
| "tame (Suc n) s \<longleftrightarrow> tame_step s \<and> (case mos_step s of None \<Rightarrow> False | Some t \<Rightarrow> tame n t)"

context cpu_memory begin

abbreviation view :: "cpu \<Rightarrow> 'm \<Rightarrow> mos" where
  "view c m \<equiv> mos_of (plain_mem (peek m)) c"

lemma plain_mem_poke:
  assumes "inv m" "a < 0x2000"
  shows "plain_mem (peek (poke a v m)) = nes_write a v (plain_mem (peek m))"
  using assms by (auto simp: fun_eq_iff plain_mem_def nes_write_def peek_poke)

lemma fetch_low_eq: "inv m \<Longrightarrow> plain (r_pc c) \<Longrightarrow>
  fetch_low P c m = Some ((cycle c)\<lparr>r_pc := r_pc c + 1, opargs := set_low (peek m (r_pc c)) (opargs c)\<rparr>, m)"
  by (simp add: fetch_low_def fetchop_eq)

lemma fetch_high_eq: "inv m \<Longrightarrow> plain (r_pc c) \<Longrightarrow>
  fetch_high P c m = Some ((cycle c)\<lparr>r_pc := r_pc c + 1, opargs := set_high (peek m (r_pc c)) (opargs c)\<rparr>, m)"
  by (simp add: fetch_high_def fetchop_eq)

lemmas operand_simps = fetch_low_eq fetch_high_eq op_low_def operands_plain_def operand_bytes_def operand_def
  skip_operand_def ucast_add_page ucast_next_page ucast_pointer_page page_plain Let_def

lemma mos_of_if_cycle [simp]: "mos_of M (if b then cycle c else c) = mos_of M c"
  by simp

lemma read_refines:
  assumes "inv m" "md \<in> read_modes" "operands_plain md (view c m)" "in_page md (view c m)"
    and "plain (eff_addr md (view c m))"
  shows "\<exists>c1 c'. addrmode_read P md f c m = Some (c', m) \<and> view c1 m = skip_operand md (view c m) \<and>
    view c' m = view (f (peek m (eff_addr md (view c m))) c1) m"
  using assms
  by - (cases md; simp add: read_modes_def addrmode_read_defs operand_simps split del: if_split;
      (rule exI, rule conjI [rotated], rule refl, simp)?)

text \<open>A write to RAM or to the ignored sound registers.\<close>

definition put :: "uint16 \<Rightarrow> uint8 \<Rightarrow> 'm \<Rightarrow> 'm" where
  "put a v m = (if a < 0x2000 then poke a v m else m)"

abbreviation writable :: "uint16 \<Rightarrow> bool" where
  "writable a \<equiv> a < 0x2000 \<or> 0x4000 \<le> a \<and> a < 0x4020"

lemma writemem_put: "inv m \<Longrightarrow> writable a \<Longrightarrow> writemem P a v c m = Some (cycle c, put a v m)"
  by (auto simp: put_def writemem_def write_ram write_apu)

lemma inv_put [simp]: "inv m \<Longrightarrow> inv (put a v m)"
  by (simp add: put_def poke_inv)

lemma plain_mem_put [simp]: "inv m \<Longrightarrow> plain_mem (peek (put a v m)) = nes_write a v (plain_mem (peek m))"
  by (simp add: put_def plain_mem_poke nes_write_def)

lemma write_refines:
  assumes "inv m" "md \<in> read_modes - {Imm}" "operands_plain md (view c m)" "in_page md (view c m)"
    and "writable (eff_addr md (view c m))"
  shows "\<exists>c'. addrmode_write P md v c m = Some (c', put (eff_addr md (view c m)) v m) \<and>
    view c' m = skip_operand md (view c m)"
  using assms
  by (cases md; simp add: read_modes_def addrmode_write_defs operand_simps writemem_put del: writemem_eq)

lemma modify_refines:
  assumes "inv m" "md \<in> {Zero, Zerox, Abs, Absx}" "operands_plain md (view c m)" "in_page md (view c m)"
    and "eff_addr md (view c m) < 0x2000"
    and "\<And>v c. opargs (snd (f v c)) = opargs c" "\<And>v c. r_x (snd (f v c)) = r_x c"
  shows "\<exists>c1 c'. view c1 m = skip_operand md (view c m) \<and>
    (let a = eff_addr md (view c m); r = f (peek m a) c1
     in addrmode_modify P md f c m = Some (c', put a (fst r) m) \<and> view c' m = view (snd r) m)"
  using assms(1-5)
  by - (cases md; simp add: assms(6,7) addrmode_modify_defs operand_simps writemem_put case_prod_unfold del: writemem_eq;
      (rule exI, rule conjI [rotated], rule conjI, rule refl, rule refl, simp)?)

lemma instr_modify_keeps [simp]:
  "opargs (snd (instr_modify i v c)) = opargs c" "r_x (snd (instr_modify i v c)) = r_x c"
  by (simp_all add: instr_modify_frame [OF prod.collapse [symmetric]])

text \<open>Stack instructions and jumps.\<close>

lemma stack_addr_mos: "0x100 + ucast sp = stack_addr sp"
  by (simp add: stack_addr_def STACK_BASE_def)

lemma push_put: "inv m \<Longrightarrow> push P v c m = Some ((cycle c)\<lparr>r_sp := r_sp c - 1\<rparr>, put (stack_addr (r_sp c)) v m)"
  by (simp add: push_eq put_def)

lemma view_push: "inv m \<Longrightarrow>
  (mos_of (plain_mem (peek (put (stack_addr (r_sp c)) v m))) c)\<lparr>pS := r_sp c - 1\<rparr> = mos_push v (view c m)"
  by (simp add: mos_push_def stack_addr_mos)

lemma top_view: "mos_top k (view c m) = peek m (stack_addr (r_sp c + k))"
  by (simp add: mos_top_def stack_addr_mos)

lemma set_break_fields [simp]:
  "r_flags (set_break b c) = (r_flags c)\<lparr>f_breakf := b\<rparr>" "r_sp (set_break b c) = r_sp c"
  by (simp_all add: set_break_def set_flags_def)

lemma readmem_in_page:
  "(if low p = 0xFF then readmem P (p AND 0xFF00) c m else readmem P (p + 1) c m) =
   readmem P (mk16 (high p) (low p + 1)) c m"
  unfolding next_in_page [symmetric] by simp

lemma implied_refines:
  assumes "inv m" "ordinary (IMPLD i) (view c m)" "i = I_php \<Longrightarrow> f_unused (r_flags c)"
  shows "\<exists>c' m'. instr_impld P i c m = Some (c', m') \<and> inv m' \<and> view c' m' = mos_implied i (view c m)"
proof (cases i)
  case I_php
  then show ?thesis using assms
    by (simp add: instr_php_def push_put Let_def status_byte_of [where M = "plain_mem (peek m)"] mos_push_def stack_addr_mos)
next
  case I_pha
  then show ?thesis using assms by (simp add: instr_pha_def push_put Let_def mos_push_def stack_addr_mos)
next
  case I_plp
  then show ?thesis using assms by (simp add: instr_plp_def pull_eq Let_def top_view set_status_of)
next
  case I_pla
  then show ?thesis using assms by (simp add: instr_pla_def pull_eq Let_def top_view nz_def)
next
  case I_jsr
  then show ?thesis using assms 
    by (simp add: jsr_eq operands_plain_def operand_bytes_def operand_def mos_push_def stack_addr_mos plain_mem_poke diff_diff_eq)
next
  case I_jmp_ind
  let ?p = "mk16 (peek m (r_pc c + 1)) (peek m (r_pc c))"
  have pc: "plain (r_pc c)" "plain (r_pc c + 1)"
    using assms(2) I_jmp_ind by (simp_all add: operands_plain_def operand_bytes_def)
  then have o: "operand (view c m) = ?p" by (simp add: operand_def)
  have "plain ?p" "plain (mk16 (high ?p) (low ?p + 1))" using assms(2) I_jmp_ind by (simp_all add: o)
  then show ?thesis using assms(1) pc I_jmp_ind
    by (simp add: instr_jmp_ind_def fetch_low_eq fetch_high_eq Let_def o mos_pointer_def readmem_in_page del: low_mk16 high_mk16)
qed (use assms in \<open>simp_all add: rts_eq rti_eq instr_direct_defs instr_jmp_def operand_simps top_view set_status_of set_status_def\<close>)

lemma branch_refines:
  assumes "inv m" "plain (r_pc c)"
  shows "\<exists>c'. exec_entry P (BRANCH f b) c m = Some (c', m) \<and> view c' m = mos_exec (BRANCH f b) (view c m)"
proof -
  have e: "word_of_int (uint x + sint v) = x + scast v" for x :: uint16 and v :: uint8 by simp
  show ?thesis unfolding mos_exec.simps Let_def e using assms by (simp add: instr_branch_def operand_simps)
qed

lemma view_memory: "view c m' = (view c m)\<lparr>pM := plain_mem (peek m')\<rparr>"
  by simp

lemma exec_refines:
  assumes "inv m" "map_of execute_tab i = Some e" "ordinary e (view c m)"
    and "e = IMPLD I_php \<Longrightarrow> f_unused (r_flags c)"
  shows "\<exists>c' m'. exec_entry P e c m = Some (c', m') \<and> inv m' \<and>
    blur e (view c' m') = blur e (mos_exec e (view c m))"
proof (cases e)
  case (IMPLD j)
  then show ?thesis using implied_refines [OF assms(1), of j c] assms(3,4) by auto
next
  case (READ f md)
  let ?v = "peek m (eff_addr md (view c m))"
  obtain c1 c' where r: "addrmode_read P md (instr_read f) c m = Some (c', m)"
    "view c1 m = skip_operand md (view c m)" "view c' m = view (instr_read f ?v c1) m"
    using read_refines [OF assms(1) entry_modes(1) [OF assms(2) READ], of c "instr_read f"] assms(3) READ by auto
  have "blur e (view c' m) = blur e (mos_read f ?v (view c1 m))"
    unfolding r(3) READ by (rule mos_instr_read)
  then show ?thesis using r assms(1,3) by (simp add: READ skip_operand_read)
next
  case (MODIFY g md)
  show ?thesis
  proof (cases "md = Accum")
    case True
    then show ?thesis using assms(1)
      by (simp add: MODIFY addrmode_accum_modify_def Let_def case_prod_unfold mos_instr_modify [where M = "plain_mem (peek m)"])
  next
    case False
    let ?a = "eff_addr md (view c m)"
    have "md \<in> {Zero, Zerox, Abs, Absx}" using entry_modes(2) [OF assms(2) MODIFY] False by blast
    from modify_refines [OF assms(1) this, of c "instr_modify g"] assms(3) False obtain c1 c' where
      r: "view c1 m = skip_operand md (view c m)" "view c' m = view (snd (instr_modify g (peek m ?a) c1)) m"
      "addrmode_modify P md (instr_modify g) c m = Some (c', put ?a (fst (instr_modify g (peek m ?a) c1)) m)"
      by (auto simp: MODIFY Let_def)
    have "plain ?a" using assms(3) False by (simp add: MODIFY)
    let ?r = "mos_modify g (peek m ?a) (view c m)"
    have "view c' (put ?a (fst ?r) m) = (skip_operand md (snd ?r))\<lparr>pM := nes_write ?a (fst ?r) (plain_mem (peek m))\<rparr>"
      unfolding view_memory [where c = c' and m' = "put ?a (fst ?r) m" and m = m] r(2) mos_instr_modify(2) r(1) skip_operand_modify
      using assms(1) by simp
    moreover have "fst (instr_modify g (peek m ?a) c1) = fst ?r"
      unfolding mos_instr_modify(1) [where M = "plain_mem (peek m)"] r(1) skip_operand_modify by simp
    ultimately show ?thesis using r(3) assms(1) False \<open>plain ?a\<close>
      by (simp add: MODIFY Let_def case_prod_unfold skip_operand_def)
  qed
next
  case (WRITE md r)
  let ?a = "eff_addr md (view c m)" and ?v = "get_reg r c"
  obtain c' where c': "addrmode_write P md ?v c m = Some (c', put ?a ?v m)" "view c' m = skip_operand md (view c m)"
    using write_refines [OF assms(1) entry_modes(3) [OF assms(2) WRITE], of c ?v] assms(3) WRITE by auto
  have "view c' (put ?a ?v m) = (skip_operand md (view c m))\<lparr>pM := nes_write ?a ?v (plain_mem (peek m))\<rparr>"
    unfolding view_memory [where c = c' and m' = "put ?a ?v m" and m = m] c'(2) using assms(1) by simp
  then show ?thesis using c'(1) assms(1) by (simp add: WRITE skip_operand_def)
next
  case (BRANCH f b)
  then show ?thesis using branch_refines [OF assms(1), of c f b] assms(1,3) by auto
next
  case (FLAG f b)
  then show ?thesis using assms(1) by (simp add: mos_instr_flag)
next
  case (TRANSFER r1 r2)
  then show ?thesis using assms(1) by (simp add: mos_instr_transfer)
qed

text \<open>One call of \<^verbatim>\<open>run\<close>.\<close>

lemma run_entry:
  assumes "inv m" "\<not> execnmi c" "\<not> execirq c" "plain (r_pc c)" "decode6502 (peek m (r_pc c)) = Some e"
  shows "cpu_run P c m = exec_entry P e ((cycle c)\<lparr>r_pc := r_pc c + 1\<rparr>) m"
  using assms by (simp add: cpu_run_def fetch_eq execute_def dispatch_regular)

lemma run_refines:
  assumes "inv m" "\<not> execnmi c" "\<not> execirq c" "plain (r_pc c)" "decode6502 (peek m (r_pc c)) = Some e"
    and "ordinary e ((view c m)\<lparr>pPC := r_pc c + 1\<rparr>)" "e = IMPLD I_php \<Longrightarrow> f_unused (r_flags c)"
  shows "\<exists>c' m' s. cpu_run P c m = Some (c', m') \<and> inv m' \<and>
    mos_step (view c m) = Some s \<and> blur e (view c' m') = blur e s"
  using exec_refines [of m "peek m (r_pc c)" e "(cycle c)\<lparr>r_pc := r_pc c + 1\<rparr>"] assms run_entry [OF assms(1-5)]
  by (simp add: dispatch_regular mos_step_def)

text \<open>A return with a status byte that has bit 5 set leaves the processor undisturbed.\<close>

lemma undisturbed_status:
  assumes "inv m" "exec_entry P e c m = Some (c', m')" "undisturbed c"
    and "e \<in> IMPLD ` {I_plp, I_rti}" "bit (mos_top 1 (view c m)) 5"
  shows "undisturbed c'"
proof -
  have b: "f_unused (ps_of_uint8 (peek m (stack_addr (r_sp c + 1))))"
    using assms(5) by (simp add: top_view ps_of_uint8_bits)
  consider "e = IMPLD I_plp" | "e = IMPLD I_rti" using assms(4) by blast
  then show ?thesis
  proof cases
    case 1
    have "undisturbed (last_cycle (cycle (cycle c)))" using assms(3) by simp
    then show ?thesis using assms(1,2) b
      by (auto simp: 1 instr_plp_def pull_eq Let_def) (simp add: undisturbed_def)
  next
    case 2
    then show ?thesis using assms(1-3) b
      by (auto simp: rti_eq intro!: undisturbed_last) (simp add: undisturbed_def)
  qed
qed

lemma tame_step_refines:
  assumes "inv m" "undisturbed c" "tame_step (view c m)"
  shows "\<exists>c' m'. cpu_run P c m = Some (c', m') \<and> inv m' \<and> undisturbed c' \<and> mos_step (view c m) = Some (view c' m')"
proof -
  have pc: "plain (r_pc c)" using assms(3) by (simp add: tame_step_def)
  then obtain e where e: "decode6502 (peek m (r_pc c)) = Some e" "exact e" "ordinary e ((view c m)\<lparr>pPC := r_pc c + 1\<rparr>)"
    "e \<in> IMPLD ` {I_plp, I_rti} \<Longrightarrow> bit (mos_top 1 (view c m)) 5"
    using assms(3) by (auto simp: tame_step_def split: option.splits)
  have x: "\<not> execnmi c" "\<not> execirq c" "f_unused (r_flags c)" using assms(2) by (simp_all add: undisturbed_def)
  from run_refines [OF assms(1) x(1,2) pc e(1,3)] x(3) obtain c' m' where
    r: "cpu_run P c m = Some (c', m')" "inv m'" "mos_step (view c m) = Some (view c' m')"
    by (auto simp: exact_blur [OF e(2)])
  let ?c = "(cycle c)\<lparr>r_pc := r_pc c + 1\<rparr>"
  have x': "exec_entry P e ?c m = Some (c', m')" using run_entry [OF assms(1) x(1,2) pc e(1)] r(1) by simp
  have "undisturbed ?c" using assms(2) by simp
  moreover have "e \<noteq> IMPLD I_brk" using e(3) by auto
  moreover have "mos_top 1 (view ?c m) = mos_top 1 (view c m)" by (simp add: mos_top_def)
  ultimately have "undisturbed c'"
    using undisturbed_entry [OF x'] undisturbed_status [OF assms(1) x'] e(4) by (cases "e \<in> IMPLD ` {I_plp, I_rti}") auto
  with r show ?thesis by blast
qed

lemma tame_refines:
  assumes "inv m" "undisturbed c" "tame n (view c m)"
  shows "\<exists>c' m'. cpu_runs P n c m = Some (c', m') \<and> inv m' \<and> undisturbed c' \<and> mos_run n (view c m) = Some (view c' m')"
  using assms
proof (induction n arbitrary: c m)
  case (Suc n)
  from Suc.prems tame_step_refines [of m c] obtain c1 m1 where
    s: "cpu_run P c m = Some (c1, m1)" "inv m1" "undisturbed c1" "mos_step (view c m) = Some (view c1 m1)" by auto
  with Suc.IH [of m1 c1] Suc.prems(3) show ?case by auto
qed simp

end

end
