(* ===== verification/CpuInvariant.thy ===== *)
theory CpuInvariant
  imports CpuTheorems
begin

text \<open>
  An invariant rule for the processor: whatever every single bus access keeps, a run of the
  processor keeps, whichever instruction it executes.
\<close>

locale memory_invariant =
  fixes P :: "'m cpu_ports" and I :: "'m \<Rightarrow> bool"
  assumes read_keeps: "I m \<Longrightarrow> port_read P a m = Some (v, m') \<Longrightarrow> I m'"
    and write_keeps: "I m \<Longrightarrow> port_write P a v m = Some m' \<Longrightarrow> I m'"
    and unobserved: "port_callback P = None"
begin

lemma notify_keeps: "notify P a k c m = Some m' \<Longrightarrow> m' = m"
  by (simp add: notify_def unobserved)

text \<open>The facts are implications, so that proofs collect one per access and chain them.\<close>

lemma access_keeps:
  "fetch P c m = Some (v, c', m') \<Longrightarrow> I m \<longrightarrow> I m'"
  "fetchop P c m = Some (v, c', m') \<Longrightarrow> I m \<longrightarrow> I m'"
  "readmem P a c m = Some (v, c', m') \<Longrightarrow> I m \<longrightarrow> I m'"
  "writemem P a v c m = Some (c', m') \<Longrightarrow> I m \<longrightarrow> I m'"
  by (auto simp: fetch_def fetchop_def readmem_def writemem_def Let_def elim!: bind_SomeE
      dest!: notify_keeps intro: read_keeps write_keeps)

lemma stack_keeps:
  "push P v c m = Some (c', m') \<Longrightarrow> I m \<longrightarrow> I m'"
  "pull P c m = Some (v, c', m') \<Longrightarrow> I m \<longrightarrow> I m'"
  "fetch_low P c m = Some (c', m') \<Longrightarrow> I m \<longrightarrow> I m'"
  "fetch_high P c m = Some (c', m') \<Longrightarrow> I m \<longrightarrow> I m'"
  by (auto simp: push_def pull_def fetch_low_def fetch_high_def Let_def elim!: bind_SomeE
      dest!: access_keeps)

lemmas keeps_all = access_keeps stack_keeps

lemma addrmode_read_keeps: "addrmode_read P md f c m = Some (c', m') \<Longrightarrow> I m \<longrightarrow> I m'"
  by (cases md; auto simp: addrmode_read_defs Let_def elim!: bind_SomeE dest!: keeps_all)

lemma addrmode_modify_keeps: "addrmode_modify P md f c m = Some (c', m') \<Longrightarrow> I m \<longrightarrow> I m'"
  by (cases md; auto simp: addrmode_modify_defs Let_def case_prod_unfold elim!: bind_SomeE dest!: keeps_all)

lemma addrmode_write_keeps: "addrmode_write P md v c m = Some (c', m') \<Longrightarrow> I m \<longrightarrow> I m'"
  by (cases md; auto simp: addrmode_write_defs Let_def elim!: bind_SomeE dest!: keeps_all)

lemma interrupt_keeps: "interrupt P c m = Some (c', m') \<Longrightarrow> I m \<longrightarrow> I m'"
  by (auto simp: interrupt_def Let_def case_prod_unfold elim!: bind_SomeE dest!: keeps_all)

lemma impld_keeps: "instr_impld P i c m = Some (c', m') \<Longrightarrow> I m \<longrightarrow> I m'"
  by (cases i; auto simp: instr_stack_defs instr_brk_def Let_def elim!: bind_SomeE split: if_splits
      dest!: keeps_all interrupt_keeps)

lemma branch_keeps: "instr_branch P b c m = Some (c', m') \<Longrightarrow> I m \<longrightarrow> I m'"
  by (auto simp: instr_branch_def Let_def elim!: bind_SomeE split: if_splits dest!: keeps_all)

lemma entry_keeps: "exec_entry P e c m = Some (c', m') \<Longrightarrow> I m \<longrightarrow> I m'"
  by (cases e) (auto dest!: addrmode_read_keeps addrmode_modify_keeps addrmode_write_keeps impld_keeps branch_keeps)

lemma cpu_run_keeps: "cpu_run P c m = Some (c', m') \<Longrightarrow> I m \<longrightarrow> I m'"
  by (auto simp: cpu_run_def execute_def elim!: bind_SomeE split: if_splits option.splits
      dest!: interrupt_keeps entry_keeps access_keeps(1))

lemma write_zeros_keeps: "write_zeros P n i m = Some m' \<Longrightarrow> I m \<longrightarrow> I m'"
  by (induction n arbitrary: i m) (fastforce elim!: bind_SomeE dest: write_keeps)+

lemma power_keeps: "cpu_power P c m = Some (c', m') \<Longrightarrow> I m \<longrightarrow> I m'"
  "cpu_reset P c m = Some (c', m') \<Longrightarrow> I m \<longrightarrow> I m'"
  by (auto simp: cpu_power_def cpu_reset_def Let_def elim!: bind_SomeE dest!: interrupt_keeps write_zeros_keeps
      dest: write_keeps)

end

section \<open>Every instruction returns\<close>

text \<open>Ports on which every single access has a result, with no debugger attached.\<close>

definition total_ports :: "'m cpu_ports \<Rightarrow> bool" where
  "total_ports P \<longleftrightarrow> (\<forall>a m. port_read P a m \<noteq> None) \<and> (\<forall>a v m. port_write P a v m \<noteq> None) \<and> port_callback P = None"

text \<open>Rules that walk through the body of an operation.\<close>

lemma bind_total: "x \<noteq> None \<Longrightarrow> (\<And>y. f y \<noteq> None) \<Longrightarrow> Option.bind x f \<noteq> None"
  by (cases x) simp_all

lemma case_prod_total: "(\<And>a b. f a b \<noteq> None) \<Longrightarrow> case_prod f p \<noteq> None"
  by (simp add: case_prod_unfold)

lemma if_total: "(b \<Longrightarrow> x \<noteq> None) \<Longrightarrow> (\<not> b \<Longrightarrow> y \<noteq> None) \<Longrightarrow> (if b then x else y) \<noteq> None"
  by simp

lemma Let_total: "(\<And>x. f x \<noteq> None) \<Longrightarrow> Let v f \<noteq> None"
  by (simp add: Let_def)

lemmas walk_total = bind_total case_prod_total if_total Let_total option.distinct(2)

lemma total_ports:
  assumes "total_ports P"
  shows "port_read P a m \<noteq> None" "port_write P a v m \<noteq> None" "notify P a md c m \<noteq> None"
  using assms unfolding total_ports_def notify_def by simp_all

lemma total_access:
  assumes "total_ports P"
  shows "fetch P c m \<noteq> None" "fetchop P c m \<noteq> None" "readmem P a c m \<noteq> None" "writemem P a v c m \<noteq> None"
  unfolding fetch_def fetchop_def readmem_def writemem_def
  by (intro walk_total total_ports [OF assms])+

lemma total_stack:
  assumes "total_ports P"
  shows "push P v c m \<noteq> None" "pull P c m \<noteq> None" "fetch_low P c m \<noteq> None" "fetch_high P c m \<noteq> None"
  unfolding push_def pull_def fetch_low_def fetch_high_def
  by (intro walk_total total_access [OF assms] total_ports [OF assms])+

lemmas accesses_total = walk_total total_access total_stack

text \<open>The entries of the dispatch table only combine a kind of instruction with its own modes.\<close>

definition entry_ok :: "entry \<Rightarrow> bool" where
  "entry_ok e \<longleftrightarrow>
     (case e of
        READ i md \<Rightarrow> md \<in> {Imm, Zero, Zerox, Zeroy, Abs, Absx, Absy, Indx, Indy}
      | MODIFY i md \<Rightarrow> md \<in> {Accum, Zero, Zerox, Abs, Absx}
      | WRITE md r \<Rightarrow> md \<in> {Zero, Zerox, Zeroy, Abs, Absx, Absy, Indx, Indy}
      | _ \<Rightarrow> True)"

lemma entries_ok: "list_all (\<lambda>(i, e). entry_ok e) execute_tab"
  by (simp add: execute_tab_def entry_ok_def)

lemma read_total:
  assumes "total_ports P" "entry_ok (READ i md)"
  shows "addrmode_read P md f c m \<noteq> None"
  using assms(2) unfolding entry_ok_def entry.case
  by (elim insertE; simp only: addrmode_read.simps addrmode_read_defs empty_iff; intro accesses_total assms(1))

lemma modify_total:
  assumes "total_ports P" "entry_ok (MODIFY i md)"
  shows "addrmode_modify P md f c m \<noteq> None"
  using assms(2) unfolding entry_ok_def entry.case
  by (elim insertE; simp only: addrmode_modify.simps addrmode_modify_defs empty_iff; intro accesses_total assms(1))

lemma write_total:
  assumes "total_ports P" "entry_ok (WRITE md r)"
  shows "addrmode_write P md v c m \<noteq> None"
  using assms(2) unfolding entry_ok_def entry.case
  by (elim insertE; simp only: addrmode_write.simps addrmode_write_defs empty_iff; intro accesses_total assms(1))

lemma interrupt_total:
  assumes "total_ports P"
  shows "interrupt P c m \<noteq> None"
  unfolding interrupt_def by (intro accesses_total total_ports assms)

lemma impld_total:
  assumes "total_ports P"
  shows "instr_impld P i c m \<noteq> None"
  by (cases i; simp only: instr_impld.simps instr_stack_defs instr_brk_def; intro accesses_total interrupt_total assms)

lemma branch_total:
  assumes "total_ports P"
  shows "instr_branch P b c m \<noteq> None"
  unfolding instr_branch_def by (intro accesses_total assms)

lemma entry_total:
  assumes "total_ports P" "entry_ok e"
  shows "exec_entry P e c m \<noteq> None"
  using assms
  by (cases e; simp only: exec_entry.simps; intro impld_total read_total modify_total write_total branch_total walk_total)

lemma execute_total:
  assumes "total_ports P"
  shows "execute P i c m \<noteq> None"
proof (cases "map_of execute_tab i")
  case (Some e)
  then have "entry_ok e" using entries_ok map_of_SomeD [OF Some] by (auto simp: list_all_iff)
  then show ?thesis using Some entry_total [OF assms] by (simp add: execute_def)
qed (simp add: execute_def)

text \<open>
  C8: the processor never gets stuck: on a bus on which every access has a result, \<^verbatim>\<open>CPU::run\<close> returns
  whatever opcode it fetches and whatever the registers, flags and pending interrupts are, and one
  to seven cycles have passed.
\<close>

theorem cpu_run_returns:
  assumes "total_ports P"
  shows "\<exists>c' m' n. cpu_run P c m = Some (c', m') \<and> 1 \<le> n \<and> n \<le> 7 \<and> r_cycles c' = r_cycles c + of_nat n"
proof -
  have "cpu_run P c m \<noteq> None"
    unfolding cpu_run_def by (intro accesses_total interrupt_total execute_total assms)
  then obtain c' m' where "cpu_run P c m = Some (c', m')" by auto
  with cpu_run_progress [OF this] show ?thesis by blast
qed

theorem cpu_run_returns_witness:
  "total_ports flat_ports \<and> (\<exists>c' m' n. cpu_run flat_ports (cpu_default\<lparr>execirq := True\<rparr>) (\<lambda>_. 0) = Some (c', m') \<and>
     1 \<le> n \<and> n \<le> 7 \<and> r_cycles c' = of_nat n)"
proof -
  have t: "total_ports flat_ports" by (simp add: total_ports_def flat_ports_def)
  from cpu_run_returns [OF this, of "cpu_default\<lparr>execirq := True\<rparr>" "\<lambda>_. 0"] show ?thesis
    using t by (simp add: cpu_default_def)
qed

end
