(* ===== verification/Bits.thy ===== *)
theory Bits
  imports Prelude
begin

text \<open>
  The bit operations of \<^verbatim>\<open>emu/util/bits.hpp\<close>: extracting and replacing runs of bits, rotations,
  the \<^verbatim>\<open>BitField\<close> template and the unit conversions.

  Every shift count of the program is a constant below the width, where the C++ shifts are
  \<open>push_bit\<close> and \<open>drop_bit\<close>; counts are natural numbers here. A \<^verbatim>\<open>BitField<T, Bitno, Nbits>\<close>
  is a view of a word of type \<^verbatim>\<open>T\<close>: its operations take the two template arguments and that
  word. The locale \<open>bit_field\<close> states what a user of a field relies on; the theory of the
  picture unit interprets it at the four fields of the video memory address.
\<close>

unbundle bit_operations_syntax

section \<open>Runs of bits\<close>

definition getbits :: "uint64 \<Rightarrow> nat \<Rightarrow> uint8 \<Rightarrow> uint64" where
  "getbits num bitno nbits = drop_bit bitno num AND ucast nbits"

definition getbit :: "uint64 \<Rightarrow> nat \<Rightarrow> uint64" where
  "getbit num bitno = getbits num bitno 1"

definition get_mask_nbits :: "nat \<Rightarrow> uint64" where
  "get_mask_nbits nbits = push_bit nbits 1 - 1"

definition setbits :: "uint64 \<Rightarrow> nat \<Rightarrow> nat \<Rightarrow> uint64 \<Rightarrow> uint64" where
  "setbits num bitno nbits data =
     (let mask = get_mask_nbits nbits
      in (num AND NOT (push_bit bitno mask)) OR push_bit bitno (data AND mask))"

definition setbit :: "uint64 \<Rightarrow> nat \<Rightarrow> bool \<Rightarrow> uint64" where
  "setbit num bitno data = setbits num bitno 1 (of_bool data)"

definition rotl32 :: "uint32 \<Rightarrow> nat \<Rightarrow> uint32" where
  "rotl32 x k = push_bit k x OR drop_bit (32 - k) x"

definition rotr32 :: "uint32 \<Rightarrow> nat \<Rightarrow> uint32" where
  "rotr32 x k = drop_bit k x OR push_bit (32 - k) x"

section \<open>Bit fields\<close>

definition bf_get :: "nat \<Rightarrow> nat \<Rightarrow> 'a::len word \<Rightarrow> uint64" where
  "bf_get bitno nbits data = drop_bit bitno (ucast data) AND get_mask_nbits nbits"

definition bf_set :: "nat \<Rightarrow> nat \<Rightarrow> 'a::len word \<Rightarrow> 'a word \<Rightarrow> 'a word" where
  "bf_set bitno nbits data val = ucast (setbits (ucast data) bitno nbits (ucast val))"

text \<open>The copy assignment from another field of the same type passes that field's whole word.\<close>

definition bf_copy :: "nat \<Rightarrow> nat \<Rightarrow> 'a::len word \<Rightarrow> 'a word \<Rightarrow> 'a word" where
  "bf_copy bitno nbits data oth_data = ucast (setbits (ucast data) bitno nbits (ucast oth_data))"

text \<open>The compound assignments and the increments all read the field, compute, and assign.\<close>

definition bf_modify :: "(uint64 \<Rightarrow> uint64) \<Rightarrow> nat \<Rightarrow> nat \<Rightarrow> 'a::len word \<Rightarrow> 'a word" where
  "bf_modify f bitno nbits data = bf_set bitno nbits data (ucast (f (bf_get bitno nbits data)))"

definition bf_inc :: "nat \<Rightarrow> nat \<Rightarrow> 'a::len word \<Rightarrow> 'a word" where
  "bf_inc = bf_modify (\<lambda>v. v + 1)"

definition bf_dec :: "nat \<Rightarrow> nat \<Rightarrow> 'a::len word \<Rightarrow> 'a word" where
  "bf_dec = bf_modify (\<lambda>v. v - 1)"

definition bf_xor :: "uint64 \<Rightarrow> nat \<Rightarrow> nat \<Rightarrow> 'a::len word \<Rightarrow> 'a word" where
  "bf_xor val = bf_modify (\<lambda>v. v XOR val)"

section \<open>Unit conversions\<close>

definition to_kib :: "uint64 \<Rightarrow> uint64" where "to_kib bytes = bytes * 1024"
definition to_mib :: "uint64 \<Rightarrow> uint64" where "to_mib bytes = bytes * 1024 * 1024"
definition to_gib :: "uint64 \<Rightarrow> uint64" where "to_gib bytes = bytes * 1024 * 1024 * 1024"
definition to_tib :: "uint64 \<Rightarrow> uint64" where "to_tib bytes = bytes * 1024 * 1024 * 1024 * 1024"
definition to_kb :: "uint64 \<Rightarrow> uint64" where "to_kb bytes = bytes * 1000"
definition to_mb :: "uint64 \<Rightarrow> uint64" where "to_mb bytes = bytes * 1000 * 1000"
definition to_gb :: "uint64 \<Rightarrow> uint64" where "to_gb bytes = bytes * 1000 * 1000 * 1000"
definition to_tb :: "uint64 \<Rightarrow> uint64" where "to_tb bytes = bytes * 1000 * 1000 * 1000 * 1000"
definition to_kibit :: "uint64 \<Rightarrow> uint64" where "to_kibit bytes = bytes * 1024 div 8"
definition to_mibit :: "uint64 \<Rightarrow> uint64" where "to_mibit bytes = bytes * 1024 * 1024 div 8"
definition to_gibit :: "uint64 \<Rightarrow> uint64" where "to_gibit bytes = bytes * 1024 * 1024 * 1024 div 8"
definition to_tibit :: "uint64 \<Rightarrow> uint64" where
  "to_tibit bytes = bytes * 1024 * 1024 * 1024 * 1024 div 8"

section \<open>Bit-level characterisations\<close>

lemma get_mask_nbits_mask: "get_mask_nbits n = mask n"
  by (simp add: get_mask_nbits_def mask_eq_exp_minus_1 push_bit_eq_mult)

lemma bit_setbits:
  "bit (setbits num b n d) i \<longleftrightarrow>
     i < 64 \<and> (if b \<le> i \<and> i < b + n then bit d (i - b) else bit num i)"
  unfolding setbits_def get_mask_nbits_mask Let_def
  by (auto simp: bit_simps dest: bit_imp_le_length)

lemma bit_bf_set:
  fixes d v :: "'a::len word"
  assumes "LENGTH('a) \<le> 64"
  shows "bit (bf_set b n d v) i \<longleftrightarrow>
     i < LENGTH('a) \<and> (if b \<le> i \<and> i < b + n then bit v (i - b) else bit d i)"
  using assms by (auto simp: bf_set_def bit_simps bit_setbits dest: bit_imp_le_length)

lemma bit_bf_get:
  fixes d :: "'a::len word"
  assumes "LENGTH('a) \<le> 64"
  shows "bit (bf_get b n d) i \<longleftrightarrow> i < n \<and> bit d (b + i)"
  using assms by (auto simp: bf_get_def get_mask_nbits_mask bit_simps dest: bit_imp_le_length)

lemma bf_copy_bf_set: "bf_copy b n d v = bf_set b n d v"
  by (simp add: bf_copy_def bf_set_def)

lemma bf_get_set:
  fixes d v :: "'a::len word"
  assumes "LENGTH('a) \<le> 64" "b + n \<le> LENGTH('a)"
  shows "bf_get b n (bf_set b n d v) = ucast v AND mask n"
  using assms
  by (intro bit_word_eqI) (auto simp: bit_bf_get bit_bf_set bit_simps dest: bit_imp_le_length)

lemma bf_get_set_disjoint:
  fixes d v :: "'a::len word"
  assumes "LENGTH('a) \<le> 64" "b + n \<le> b' \<or> b' + n' \<le> b" "b' + n' \<le> LENGTH('a)"
  shows "bf_get b' n' (bf_set b n d v) = bf_get b' n' d"
  using assms by (intro bit_word_eqI) (auto simp: bit_bf_get bit_bf_set dest: bit_imp_le_length)

lemma bf_set_get:
  fixes d :: "'a::len word"
  assumes "LENGTH('a) \<le> 64"
  shows "bf_set b n d (ucast (bf_get b n d)) = d"
  using assms
  by (intro bit_word_eqI) (auto simp: bit_bf_get bit_bf_set bit_simps dest: bit_imp_le_length)

lemma bf_set_set:
  fixes d :: "'a::len word"
  assumes "LENGTH('a) \<le> 64"
  shows "bf_set b n (bf_set b n d v) w = bf_set b n d w"
  using assms by (intro bit_word_eqI) (auto simp: bit_bf_set)

lemma bf_get_bound: "bf_get b n d AND mask n = bf_get b n d"
  by (simp add: bf_get_def get_mask_nbits_mask ac_simps)

lemma bf_get_less: "n < 64 \<Longrightarrow> unat (bf_get b n d) < 2 ^ n"
proof -
  assume n: "n < 64"
  have "unat (bf_get b n d) = take_bit n (unat (drop_bit b (ucast d :: uint64)))"
    by (simp add: bf_get_def get_mask_nbits_mask unsigned_take_bit_eq flip: take_bit_eq_mask)
  then show ?thesis by simp
qed

section \<open>The contract of a field\<close>

text \<open>
  A field of a word: reading what was assigned gives the assigned value cut to the width of
  the field, assigning the current value changes nothing, and the last assignment wins.
\<close>

locale bit_field =
  fixes get :: "'a::len word \<Rightarrow> uint64"
    and put :: "'a word \<Rightarrow> 'a word \<Rightarrow> 'a word"
    and width :: nat
  assumes get_put: "get (put d v) = ucast v AND mask width"
    and put_get: "put d (ucast (get d)) = d"
    and put_put: "put (put d v) w = put d w"
    and width_le: "width \<le> LENGTH('a)" "LENGTH('a) \<le> 64"
begin

lemma get_modify: "get (put d (ucast (f (get d)))) = f (get d) AND mask width"
proof -
  have "(ucast (ucast v :: 'a word) :: uint64) AND mask width = v AND mask width" for v :: uint64
    using width_le by (intro bit_word_eqI) (auto simp: bit_simps dest: bit_imp_le_length)
  then show ?thesis by (simp add: get_put)
qed

lemma modify_increments:
  assumes "unat (get d) + 1 < 2 ^ width" "width < 64"
  shows "unat (get (put d (ucast (get d + 1)))) = unat (get d) + 1"
proof -
  have lt: "unat (get d) + 1 < 2 ^ 64"
    using assms by (meson less_trans power_strict_increasing_iff one_less_numeral_iff semiring_norm(76))
  have "unat (get d + 1) = unat (get d) + 1"
    using lt by (simp add: unat_word_ariths)
  moreover have "get (put d (ucast (get d + 1))) = take_bit width (get d + 1)"
    using get_modify [of d "\<lambda>v. v + 1"] by (simp add: take_bit_eq_mask)
  ultimately show ?thesis
    using assms by (simp add: unsigned_take_bit_eq take_bit_nat_eq_self)
qed

lemma put_same_get: "get (put d v) = get (put d' v)"
  by (simp add: get_put)

lemma put_idem: "put (put d v) v = put d v"
  by (rule put_put)

end

lemma bit_field_bf:
  assumes "LENGTH('a::len) \<le> 64" "b + n \<le> LENGTH('a)"
  shows "bit_field (bf_get b n :: 'a word \<Rightarrow> uint64) (bf_set b n) n"
  using assms by unfold_locales (auto simp: bf_get_set bf_set_get bf_set_set)

section \<open>Rotations\<close>

lemma bit_rotl32:
  assumes "0 < k" "k < 32"
  shows "bit (rotl32 x k) i \<longleftrightarrow> i < 32 \<and> bit x ((i + (32 - k)) mod 32)"
proof (cases "k \<le> i")
  case True
  show ?thesis
  proof (cases "i < 32")
    case i: True
    have "(i + (32 - k)) mod 32 = i - k" using True i assms by (simp add: mod_if)
    then show ?thesis
      using True i assms by (auto simp: rotl32_def bit_simps dest: bit_imp_le_length)
  qed (auto dest: bit_imp_le_length)
next
  case False
  then have "(i + (32 - k)) mod 32 = i + (32 - k)" using assms by simp
  then show ?thesis
    using False assms by (auto simp: rotl32_def bit_simps add.commute dest: bit_imp_le_length)
qed

lemma bit_rotr32:
  assumes "0 < k" "k < 32"
  shows "bit (rotr32 x k) i \<longleftrightarrow> i < 32 \<and> bit x ((i + k) mod 32)"
proof (cases "i + k < 32")
  case True
  then show ?thesis
    using assms by (auto simp: rotr32_def bit_simps add.commute dest: bit_imp_le_length)
next
  case False
  show ?thesis
  proof (cases "i < 32")
    case i: True
    have "(i + k) mod 32 = i - (32 - k)" using False i assms by (simp add: mod_if)
    then show ?thesis
      using False i assms by (auto simp: rotr32_def bit_simps dest: bit_imp_le_length)
  qed (auto dest: bit_imp_le_length)
qed

lemma rotr32_rotl32: "0 < k \<Longrightarrow> k < 32 \<Longrightarrow> rotr32 (rotl32 x k) k = x"
proof (rule bit_word_eqI)
  fix n assume k: "0 < k" "k < 32" and n: "n < LENGTH(32)"
  have "((n + k) mod 32 + (32 - k)) mod 32 = (n + k + (32 - k)) mod 32"
    by (rule mod_add_left_eq)
  also have "\<dots> = n" using k n by simp
  finally show "bit (rotr32 (rotl32 x k) k) n = bit x n"
    using k n by (simp add: bit_rotr32 bit_rotl32)
qed

end
