(* ===== verification/Canvas.thy ===== *)
theory Canvas
  imports HeapArray
begin

text \<open>
  The canvas of \<^verbatim>\<open>emu/video/video.hpp\<close> and \<^verbatim>\<open>emu/video/video.cpp\<close> the picture unit draws on: the size
  of its texture and its frame of four bytes per pixel, rows from the bottom up.

  Sizes are natural numbers with the wrap-around of \<^verbatim>\<open>std::size_t\<close> and of the \<^verbatim>\<open>unsigned\<close> results
  of \<^verbatim>\<open>width()\<close> and \<^verbatim>\<open>height()\<close> written out. The texture handle and the OpenGL context are calls into
  libraries and are left out; the texture is its size.
\<close>

record canvas =
  tw :: nat
  th :: nat
  frame :: "uint8 heaparray"

definition size_max :: nat where "size_max = 2 ^ 64"

definition uint_max :: nat where "uint_max = 2 ^ 32"

definition canvas_new :: "(nat \<Rightarrow> uint8) \<Rightarrow> nat \<Rightarrow> nat \<Rightarrow> canvas" where
  "canvas_new junk w h = \<lparr>tw = w, th = h, frame = ha_new (w * h * 4 mod size_max) junk\<rparr>"

definition width :: "canvas \<Rightarrow> nat" where
  "width c = tw c mod uint_max"

definition height :: "canvas \<Rightarrow> nat" where
  "height c = th c mod uint_max"

text \<open>
  \<^verbatim>\<open>tex.height()-1\<close> is computed in \<^verbatim>\<open>unsigned\<close>, the rest of the position in \<^verbatim>\<open>std::size_t\<close>, the bound
  \<^verbatim>\<open>tex.width() * tex.height() * 4\<close> in \<^verbatim>\<open>unsigned\<close> again.
\<close>

definition pixel_pos :: "canvas \<Rightarrow> nat \<Rightarrow> nat \<Rightarrow> nat" where
  "pixel_pos c x y =
     (let h = (height c + (uint_max - 1)) mod uint_max;
          real_y = (h + (size_max - y)) mod size_max
      in (real_y * width c + x) * 4 mod size_max)"

definition drawpixel :: "nat \<Rightarrow> nat \<Rightarrow> uint32 \<Rightarrow> canvas \<Rightarrow> canvas option" where
  "drawpixel x y color c =
     (let pos = pixel_pos c x y in
      if pos > 0 \<and> pos < width c * height c * 4 mod uint_max then
        do { f \<leftarrow> ha_set pos (ucast (drop_bit 24 color AND 0xFF)) (frame c);
             f \<leftarrow> ha_set ((pos + 1) mod size_max) (ucast (drop_bit 16 color AND 0xFF)) f;
             f \<leftarrow> ha_set ((pos + 2) mod size_max) (ucast (drop_bit 8 color AND 0xFF)) f;
             f \<leftarrow> ha_set ((pos + 3) mod size_max) (ucast (color AND 0xFF)) f;
             Some (c\<lparr>frame := f\<rparr>) }
      else None)"

section \<open>Pixels\<close>

text \<open>A canvas as its constructor leaves it, small enough for its byte count to fit \<^verbatim>\<open>unsigned\<close>.\<close>

definition canvas_ok :: "canvas \<Rightarrow> bool" where
  "canvas_ok c \<longleftrightarrow> 0 < tw c \<and> 0 < th c \<and> tw c * th c * 4 < 2 ^ 32 \<and>
     ha_len (frame c) = tw c * th c * 4"

lemma canvas_ok_new: "0 < w \<Longrightarrow> 0 < h \<Longrightarrow> w * h * 4 < 2 ^ 32 \<Longrightarrow> canvas_ok (canvas_new junk w h)"
  by (simp add: canvas_ok_def canvas_new_def size_max_def)

lemma canvas_ok_dims:
  assumes "canvas_ok c"
  shows "width c = tw c" "height c = th c"
proof -
  have 1: "0 < tw c" "0 < th c" "tw c * th c * 4 < 2 ^ 32" using assms by (auto simp: canvas_ok_def)
  have "tw c \<le> tw c * th c" "th c \<le> tw c * th c" using 1 by simp_all
  with 1(3) have "tw c < 2 ^ 32" "th c < 2 ^ 32" by linarith+
  then show "width c = tw c" "height c = th c"
    by (simp_all add: width_def height_def uint_max_def)
qed

text \<open>The offset of a pixel in the frame, rows from the bottom.\<close>

definition pixel_index :: "canvas \<Rightarrow> nat \<Rightarrow> nat \<Rightarrow> nat" where
  "pixel_index c x y = (th c - 1 - y) * tw c + x"

lemma pixel_index_less:
  assumes "x < tw c" "y < th c"
  shows "pixel_index c x y < tw c * th c"
proof -
  have "(th c - 1 - y) * tw c + x < (th c - 1 - y) * tw c + tw c" using assms by simp
  also have "\<dots> = (th c - y) * tw c" using assms(2) by (metis Suc_diff_Suc Suc_pred' add.commute
      diff_commute less_nat_zero_code mult_Suc not_gr_zero diff_Suc_eq_diff_pred)
  also have "\<dots> \<le> th c * tw c" by (intro mult_right_mono) auto
  finally show ?thesis by (simp add: pixel_index_def mult.commute)
qed

lemma canvas_small: "canvas_ok c \<Longrightarrow> tw c * th c * 4 < size_max"
  unfolding canvas_ok_def size_max_def by (elim conjE, erule less_trans) simp

lemma pixel_pos_index:
  assumes "canvas_ok c" "x < tw c" "y < th c"
  shows "pixel_pos c x y = pixel_index c x y * 4"
proof -
  have i: "pixel_index c x y * 4 < size_max"
    using canvas_small [OF assms(1)] pixel_index_less [OF assms(2,3)] by linarith
  have "th c < uint_max" using canvas_ok_dims [OF assms(1)] mod_less_divisor [of uint_max "th c"]
    by (simp add: height_def uint_max_def)
  then have "(th c + (uint_max - 1)) mod uint_max = th c - 1"
    using assms(3) by (simp add: mod_if uint_max_def)
  moreover have "(th c - 1 + (size_max - y)) mod size_max = th c - 1 - y"
  proof -
    have "th c - 1 + (size_max - y) = size_max + (th c - 1 - y)"
      using assms(3) \<open>th c < uint_max\<close> by (simp add: size_max_def uint_max_def)
    moreover have "th c - 1 - y < size_max"
      using \<open>th c < uint_max\<close> by (simp add: size_max_def uint_max_def)
    ultimately show ?thesis by simp
  qed
  ultimately show ?thesis
    using i by (simp add: pixel_pos_def Let_def canvas_ok_dims [OF assms(1)] pixel_index_def)
qed

lemma pixel_index_inj:
  assumes "x < tw c" "y < th c" "x' < tw c" "y' < th c" "pixel_index c x y = pixel_index c x' y'"
  shows "x = x' \<and> y = y'"
proof -
  have r: "(a * w + b) mod w = b" "(a * w + b) div w = a" if "b < w" for a b w :: nat
    using that by simp_all
  have "x = x'" "th c - 1 - y = th c - 1 - y'"
    using r [OF assms(1), of "th c - 1 - y"] r [OF assms(3), of "th c - 1 - y'"] assms(5)
    by (simp_all add: pixel_index_def)
  then show ?thesis using assms(2,4) by linarith
qed

text \<open>What a pixel shows: its four bytes, and the four bytes of a color.\<close>

type_synonym bytes4 = "uint8 \<times> uint8 \<times> uint8 \<times> uint8"

definition get4 :: "nat \<Rightarrow> (nat \<Rightarrow> uint8) \<Rightarrow> bytes4" where
  "get4 i e = (e i, e (i + 1), e (i + 2), e (i + 3))"

definition put4 :: "nat \<Rightarrow> bytes4 \<Rightarrow> (nat \<Rightarrow> uint8) \<Rightarrow> nat \<Rightarrow> uint8" where
  "put4 i = (\<lambda>(p, q, r, s) e. e(i := p, i + 1 := q, i + 2 := r, i + 3 := s))"

lemma get4_put4 [simp]: "get4 i (put4 i v e) = v"
  by (cases v) (simp add: get4_def put4_def)

lemma get4_put4_other:
  assumes "a \<noteq> b"
  shows "get4 (a * 4) (put4 (b * 4) v e) = get4 (a * 4) e"
proof -
  have "a * 4 + k \<noteq> b * 4 + l" if "k < 4" "l < 4" for k l
    using assms that by presburger
  from this [of 0] this [of 1] this [of 2] this [of 3] show ?thesis
    using assms by (cases v) (simp add: get4_def put4_def)
qed

definition pixel :: "canvas \<Rightarrow> nat \<Rightarrow> nat \<Rightarrow> bytes4" where
  "pixel c x y = get4 (pixel_index c x y * 4) (ha_elems (frame c))"

definition rgba :: "uint32 \<Rightarrow> bytes4" where
  "rgba color = (ucast (drop_bit 24 color AND 0xFF), ucast (drop_bit 16 color AND 0xFF),
     ucast (drop_bit 8 color AND 0xFF), ucast (color AND 0xFF))"

lemma drawpixel_eq:
  assumes "canvas_ok c" "x < tw c" "y < th c" "0 < pixel_index c x y"
  defines "i \<equiv> pixel_index c x y * 4"
  shows "drawpixel x y color c =
    Some (c\<lparr>frame := (frame c)\<lparr>ha_elems := put4 i (rgba color) (ha_elems (frame c))\<rparr>\<rparr>)"
proof -
  have n: "tw c * th c * 4 < 2 ^ 32" "ha_len (frame c) = tw c * th c * 4"
    using assms(1) by (simp_all add: canvas_ok_def)
  have i: "i + 3 < tw c * th c * 4" using pixel_index_less [OF assms(2,3)] by (simp add: i_def)
  have m: "(i + k) mod size_max = i + k" if "k \<le> 3" for k
    using i canvas_small [OF assms(1)] that by (intro mod_less) linarith
  have "0 < i" using assms(4) by (simp add: i_def)
  moreover have "pixel_pos c x y = i" using pixel_pos_index [OF assms(1-3)] by (simp add: i_def)
  moreover have "i < width c * height c * 4 mod uint_max"
    using i n by (simp add: canvas_ok_dims [OF assms(1)] uint_max_def)
  ultimately have "drawpixel x y color c =
    do { f \<leftarrow> ha_set i (fst (rgba color)) (frame c); f \<leftarrow> ha_set (i + 1) (fst (snd (rgba color))) f;
         f \<leftarrow> ha_set (i + 2) (fst (snd (snd (rgba color)))) f;
         f \<leftarrow> ha_set (i + 3) (snd (snd (snd (rgba color)))) f; Some (c\<lparr>frame := f\<rparr>) }"
    unfolding drawpixel_def Let_def using m [of 1] m [of 2] m [of 3] by (simp add: rgba_def)
  then show ?thesis using i n by (simp add: put4_def rgba_def)
qed

lemma drawpixel_ok:
  assumes "canvas_ok c" "x < tw c" "y < th c" "0 < pixel_index c x y"
  shows "\<exists>c'. drawpixel x y color c = Some c' \<and> canvas_ok c' \<and> tw c' = tw c \<and> th c' = th c"
  using assms by (simp add: drawpixel_eq canvas_ok_def)

lemma drawpixel_pixels:
  assumes "canvas_ok c" "x < tw c" "y < th c" "x \<noteq> 0 \<or> y \<noteq> th c - 1"
  shows "\<exists>c'. drawpixel x y color c = Some c' \<and> canvas_ok c' \<and> tw c' = tw c \<and> th c' = th c \<and>
    (\<forall>x' y'. x' < tw c \<and> y' < th c \<longrightarrow>
       pixel c' x' y' = (if x' = x \<and> y' = y then rgba color else pixel c x' y'))"
proof -
  have "0 < pixel_index c x y" using assms by (auto simp: pixel_index_def)
  from drawpixel_eq [OF assms(1-3) this] obtain c' where c': "drawpixel x y color c = Some c'"
    "tw c' = tw c" "th c' = th c"
    "ha_elems (frame c') = put4 (pixel_index c x y * 4) (rgba color) (ha_elems (frame c))"
    by simp
  then have i: "pixel_index c' x' y' = pixel_index c x' y'" for x' y' by (simp add: pixel_index_def)
  have "pixel c' x' y' = (if x' = x \<and> y' = y then rgba color else pixel c x' y')"
    if "x' < tw c" "y' < th c" for x' y'
    using pixel_index_inj [OF that assms(2,3)]
    by (cases "pixel_index c x' y' = pixel_index c x y") (auto simp: pixel_def i c' get4_put4_other)
  with c' drawpixel_ok [OF assms(1-3) \<open>0 < pixel_index c x y\<close>, of color] show ?thesis by auto
qed

text \<open>
  C22: drawing a pixel of a canvas changes exactly that pixel: \<^verbatim>\<open>Canvas::drawpixel\<close> stores the four
  bytes of the color there, every other pixel keeps its bytes and no access leaves the frame,
  for every pixel inside the canvas except the bottom left one.
\<close>

theorem drawpixel_correct:
  assumes "canvas_ok c" "x < tw c" "y < th c" "x \<noteq> 0 \<or> y \<noteq> th c - 1"
  shows "\<exists>c'. drawpixel x y color c = Some c' \<and> canvas_ok c' \<and> tw c' = tw c \<and> th c' = th c \<and>
    (\<forall>x' y'. x' < tw c \<and> y' < th c \<longrightarrow>
       pixel c' x' y' = (if x' = x \<and> y' = y then rgba color else pixel c x' y'))"
  using assms by (rule drawpixel_pixels)

text \<open>The bottom left pixel has offset zero, which the assertion of \<^verbatim>\<open>drawpixel\<close> rejects.\<close>

lemma drawpixel_bottom_left:
  assumes "canvas_ok c"
  shows "drawpixel 0 (th c - 1) color c = None"
proof -
  have "0 < tw c" "th c - 1 < th c" using assms by (auto simp: canvas_ok_def)
  from pixel_pos_index [OF assms this] show ?thesis by (simp add: drawpixel_def pixel_index_def)
qed

theorem drawpixel_correct_witness:
  "\<exists>c'. drawpixel 1 0 0xFFFFFFFF (canvas_new (\<lambda>_. 0) 2 2) = Some c' \<and> pixel c' 1 0 = rgba 0xFFFFFFFF"
proof -
  have "canvas_ok (canvas_new (\<lambda>_. 0) 2 2)" by (simp add: canvas_ok_new)
  note w = drawpixel_correct [OF this, of 1 0, where color = "0xFFFFFFFF"]
  have "tw (canvas_new (\<lambda>_. 0) 2 2) = 2" "th (canvas_new (\<lambda>_. 0) 2 2) = 2" by (simp_all add: canvas_new_def)
  with w show ?thesis by fastforce
qed

end
