(* ===== verification/Ppu.thy ===== *)
theory Ppu
  imports Bits Canvas InstrInfo
begin

text \<open>
  The picture unit of \<^verbatim>\<open>emu/core/ppu.hpp\<close> and \<^verbatim>\<open>emu/core/ppu.cpp\<close>: its registers as the processor sees
  them, the scroll address, the fetches of the background pipeline, the shift registers and
  the output of a pixel. The order of the steps in a frame is in theory \<open>PpuMain\<close>.

  The unit holds a pointer to the video bus, a pointer to the canvas and the callback that
  signals an interrupt. The bus and the callback are fields of the record \<open>ppu_ports\<close>: a read
  looks at the unit (its memories are behind the bus), a write changes it, and the callback
  changes an environment of type \<open>'e\<close>. The canvas is part of the state.
  The count of the shift in \<^verbatim>\<open>shift_fill\<close> is negative; what such a shift gives is a field of the
  ports, too. \<^verbatim>\<open>unsigned long\<close> counters are natural numbers modulo \<open>2 ^ 64\<close>.
\<close>

unbundle bit_operations_syntax

section \<open>State\<close>

definition VRAM_SIZE :: nat where "VRAM_SIZE = 0x800"
definition OAM_SIZE :: nat where "OAM_SIZE = 0x100"
definition PAL_SIZE :: nat where "PAL_SIZE = 0x20"

text \<open>\<^verbatim>\<open>VRAMAddress\<close>: a word and four views of it.\<close>

definition fine_y :: "uint16 \<Rightarrow> uint64" where "fine_y = bf_get 12 3"
definition nt :: "uint16 \<Rightarrow> uint64" where "nt = bf_get 10 2"
definition coarse_y :: "uint16 \<Rightarrow> uint64" where "coarse_y = bf_get 5 5"
definition coarse_x :: "uint16 \<Rightarrow> uint64" where "coarse_x = bf_get 0 5"

definition set_fine_y :: "uint16 \<Rightarrow> uint16 \<Rightarrow> uint16" where "set_fine_y v a = bf_set 12 3 a v"
definition set_nt :: "uint16 \<Rightarrow> uint16 \<Rightarrow> uint16" where "set_nt v a = bf_set 10 2 a v"
definition set_coarse_y :: "uint16 \<Rightarrow> uint16 \<Rightarrow> uint16" where "set_coarse_y v a = bf_set 5 5 a v"
definition set_coarse_x :: "uint16 \<Rightarrow> uint16 \<Rightarrow> uint16" where "set_coarse_x v a = bf_set 0 5 a v"

record io =
  io_latch :: uint8
  io_vram_inc :: bool
  io_sp_pt_addr :: bool
  io_bg_pt_addr :: bool
  io_sp_size :: bool
  io_ext_bus_dir :: bool
  io_nmi_enabled :: bool
  io_grey :: bool
  io_bg_show_left :: bool
  io_sp_show_left :: bool
  io_bg_show :: bool
  io_sp_show :: bool
  io_red :: bool
  io_green :: bool
  io_blue :: bool
  io_sp_overflow :: bool
  io_sp_zero_hit :: bool
  io_vblank :: bool
  io_oam_addr :: uint8
  io_scroll_latch :: bool
  io_data_buf :: uint8

record vram =
  v_addr :: uint16
  v_tmp :: uint16
  v_fine_x :: uint8

record tile =
  t_nt :: uint8
  t_attr :: uint8
  t_low :: uint8
  t_high :: uint8

record shift =
  s_tlow :: uint16
  s_thigh :: uint16
  s_alow :: uint8
  s_ahigh :: uint8
  s_feed_low :: bool
  s_feed_high :: bool

record ppu =
  p_screen :: "canvas option"
  p_vrammem :: "nat \<Rightarrow> uint8"
  p_oammem :: "nat \<Rightarrow> uint8"
  p_palmem :: "nat \<Rightarrow> uint8"
  p_cycles :: nat
  p_lines :: nat
  p_odd_frame :: bool
  p_io :: io
  p_vram :: vram
  p_tile :: tile
  p_shift :: shift

record 'e ppu_ports =
  vread :: "uint16 \<Rightarrow> ppu \<Rightarrow> uint8 option"
  vwrite :: "uint16 \<Rightarrow> uint8 \<Rightarrow> ppu \<Rightarrow> ppu option"
  nmi_callback :: "('e \<Rightarrow> 'e) option"
  neg_shift :: "int \<Rightarrow> uint8"

definition with_io :: "(io \<Rightarrow> io) \<Rightarrow> ppu \<Rightarrow> ppu" where
  "with_io f p = p\<lparr>p_io := f (p_io p)\<rparr>"

definition with_vram :: "(vram \<Rightarrow> vram) \<Rightarrow> ppu \<Rightarrow> ppu" where
  "with_vram f p = p\<lparr>p_vram := f (p_vram p)\<rparr>"

definition with_addr :: "(uint16 \<Rightarrow> uint16) \<Rightarrow> ppu \<Rightarrow> ppu" where
  "with_addr f = with_vram (\<lambda>v. v\<lparr>v_addr := f (v_addr v)\<rparr>)"

definition with_tmp :: "(uint16 \<Rightarrow> uint16) \<Rightarrow> ppu \<Rightarrow> ppu" where
  "with_tmp f = with_vram (\<lambda>v. v\<lparr>v_tmp := f (v_tmp v)\<rparr>)"

abbreviation addr_of :: "ppu \<Rightarrow> uint16" where
  "addr_of p \<equiv> v_addr (p_vram p)"

abbreviation tmp_of :: "ppu \<Rightarrow> uint16" where
  "tmp_of p \<equiv> v_tmp (p_vram p)"

text \<open>The pixel position in the plane of the four name tables.\<close>

definition vx :: "vram \<Rightarrow> uint16" where
  "vx v = ucast (ucast (v_fine_x v) OR push_bit 3 (coarse_x (v_addr v)) OR push_bit 8 (nt (v_addr v) AND 1))"

definition vy :: "vram \<Rightarrow> uint8" where
  "vy v = ucast (fine_y (v_addr v) OR push_bit 3 (coarse_y (v_addr v)) OR push_bit 8 (nt (v_addr v) AND 2))"

section \<open>Power and reset\<close>

fun clear_mem :: "nat \<Rightarrow> nat \<Rightarrow> (nat \<Rightarrow> uint8) \<Rightarrow> nat \<Rightarrow> uint8" where
  "clear_mem i 0 mem = mem"
| "clear_mem i (Suc n) mem = clear_mem (Suc i) n (mem(i := 0))"

definition io_clear_ctrl :: "io \<Rightarrow> io" where
  "io_clear_ctrl i = i\<lparr>io_vram_inc := False, io_sp_pt_addr := False, io_bg_pt_addr := False,
     io_sp_size := False, io_ext_bus_dir := False, io_nmi_enabled := False\<rparr>"

definition io_clear_mask :: "io \<Rightarrow> io" where
  "io_clear_mask i = i\<lparr>io_grey := False, io_bg_show_left := False, io_sp_show_left := False,
     io_bg_show := False, io_sp_show := False, io_red := False, io_green := False, io_blue := False\<rparr>"

definition ppu_power :: "ppu \<Rightarrow> ppu" where
  "ppu_power p =
     p\<lparr>p_vram := (p_vram p)\<lparr>v_addr := 0, v_tmp := 0, v_fine_x := 0\<rparr>,
       p_io := (io_clear_mask (io_clear_ctrl (p_io p)))\<lparr>io_sp_overflow := True, io_sp_zero_hit := False,
         io_vblank := True, io_oam_addr := 0, io_scroll_latch := False, io_data_buf := 0\<rparr>,
       p_odd_frame := False, p_lines := 0, p_cycles := 0,
       p_vrammem := clear_mem 0 VRAM_SIZE (p_vrammem p),
       p_oammem := clear_mem 0 OAM_SIZE (p_oammem p),
       p_palmem := clear_mem 0 PAL_SIZE (p_palmem p)\<rparr>"

definition ppu_reset :: "ppu \<Rightarrow> ppu" where
  "ppu_reset p =
     p\<lparr>p_io := (io_clear_mask (io_clear_ctrl (p_io p)))\<lparr>io_sp_overflow := False, io_sp_zero_hit := False,
         io_scroll_latch := False, io_data_buf := 0\<rparr>,
       p_vram := (p_vram p)\<lparr>v_fine_x := 0\<rparr>,
       p_odd_frame := False, p_lines := 0, p_cycles := 0,
       p_oammem := clear_mem 0 OAM_SIZE (p_oammem p)\<rparr>"

definition set_screen :: "canvas option \<Rightarrow> ppu \<Rightarrow> ppu" where
  "set_screen canvas p = p\<lparr>p_screen := canvas\<rparr>"

section \<open>Registers\<close>

definition step_addr :: "ppu \<Rightarrow> ppu" where
  "step_addr p = with_addr (\<lambda>a. a + push_bit (5 * of_bool (io_vram_inc (p_io p))) 1) p"

definition readreg :: "'e ppu_ports \<Rightarrow> uint16 \<Rightarrow> ppu \<Rightarrow> (uint8 \<times> ppu) option" where
  "readreg P which p =
     do { p \<leftarrow>
          (if which = 0x2002 then
             Some (with_io (\<lambda>i. i\<lparr>io_latch := io_latch i OR (push_bit 7 (of_bool (io_vblank i)) OR
                 push_bit 6 (of_bool (io_sp_zero_hit i)) OR push_bit 5 (of_bool (io_sp_overflow i))),
               io_vblank := False, io_scroll_latch := False\<rparr>) p)
           else if which = 0x2004 then Some (with_io (\<lambda>i. i\<lparr>io_latch := 0\<rparr>) p)
           else if which = 0x2007 then
             do { v \<leftarrow> vread P (addr_of p) p;
                  let p = (if addr_of p < 0x3F00
                           then with_io (\<lambda>i. i\<lparr>io_latch := io_data_buf i, io_data_buf := v\<rparr>) p
                           else with_io (\<lambda>i. i\<lparr>io_latch := v\<rparr>) p);
                  Some (step_addr p) }
           else Some p);
          Some (io_latch (p_io p), p) }"

definition write_ctrl :: "uint8 \<Rightarrow> ppu \<Rightarrow> ppu" where
  "write_ctrl data p = with_io (\<lambda>i. i\<lparr>io_vram_inc := (data AND 0x04 \<noteq> 0),
       io_sp_pt_addr := (data AND 0x08 \<noteq> 0), io_bg_pt_addr := (data AND 0x10 \<noteq> 0),
       io_sp_size := (data AND 0x20 \<noteq> 0), io_ext_bus_dir := (data AND 0x40 \<noteq> 0),
       io_nmi_enabled := (data AND 0x80 \<noteq> 0)\<rparr>)
     (with_tmp (set_nt (ucast (data AND 0x03))) p)"

definition write_mask :: "uint8 \<Rightarrow> ppu \<Rightarrow> ppu" where
  "write_mask data = with_io (\<lambda>i. i\<lparr>io_grey := (data AND 0x01 \<noteq> 0),
     io_bg_show_left := (data AND 0x02 \<noteq> 0), io_sp_show_left := (data AND 0x04 \<noteq> 0),
     io_bg_show := (data AND 0x08 \<noteq> 0), io_sp_show := (data AND 0x10 \<noteq> 0),
     io_red := (data AND 0x20 \<noteq> 0), io_green := (data AND 0x40 \<noteq> 0), io_blue := (data AND 0x80 \<noteq> 0)\<rparr>)"

definition toggle_latch :: "ppu \<Rightarrow> ppu" where
  "toggle_latch = with_io (\<lambda>i. i\<lparr>io_scroll_latch := \<not> io_scroll_latch i\<rparr>)"

definition write_scroll :: "uint8 \<Rightarrow> ppu \<Rightarrow> ppu" where
  "write_scroll data p = toggle_latch
     (if \<not> io_scroll_latch (p_io p)
      then with_vram (\<lambda>v. v\<lparr>v_fine_x := data AND 0x7\<rparr>)
             (with_tmp (set_coarse_x (ucast (drop_bit 3 data AND 0x1F))) p)
      else with_tmp (set_fine_y (ucast (data AND 0x7)))
             (with_tmp (set_coarse_y (ucast (drop_bit 3 data AND 0x1F))) p))"

definition write_addr :: "uint8 \<Rightarrow> ppu \<Rightarrow> ppu" where
  "write_addr data p = toggle_latch
     (if \<not> io_scroll_latch (p_io p)
      then with_tmp (\<lambda>t. ucast (setbit (ucast t) 14 False))
             (with_tmp (\<lambda>t. ucast (setbits (ucast t) 8 6 (ucast (data AND 0x3F)))) p)
      else let p = with_tmp (\<lambda>t. ucast (setbits (ucast t) 0 8 (ucast data))) p
           in with_addr (\<lambda>_. tmp_of p) p)"

definition writereg :: "'e ppu_ports \<Rightarrow> uint16 \<Rightarrow> uint8 \<Rightarrow> ppu \<Rightarrow> ppu option" where
  "writereg P which data p =
     (let p = with_io (\<lambda>i. i\<lparr>io_latch := data\<rparr>) p in
      if which = 0x2000 then Some (write_ctrl data p)
      else if which = 0x2001 then Some (write_mask data p)
      else if which = 0x2003 then Some (with_io (\<lambda>i. i\<lparr>io_oam_addr := data\<rparr>) p)
      else if which = 0x2004 then Some (with_io (\<lambda>i. i\<lparr>io_oam_addr := io_oam_addr i + 1\<rparr>) p)
      else if which = 0x2005 then Some (write_scroll data p)
      else if which = 0x2006 then Some (write_addr data p)
      else if which = 0x2007 then do { p \<leftarrow> vwrite P (addr_of p) data p; Some (step_addr p) }
      else Some p)"

definition readreg_no_sideeff :: "'e ppu_ports \<Rightarrow> uint16 \<Rightarrow> ppu \<Rightarrow> uint8 option" where
  "readreg_no_sideeff P which p =
     (let i = p_io p; v = p_vram p in
      if which = 0x2000 then
        Some (ucast (nt (v_tmp v)) OR push_bit 2 (of_bool (io_vram_inc i)) OR
          push_bit 3 (of_bool (io_sp_pt_addr i)) OR push_bit 4 (of_bool (io_bg_pt_addr i)) OR
          push_bit 5 (of_bool (io_sp_size i)) OR push_bit 6 (of_bool (io_ext_bus_dir i)) OR
          push_bit 7 (of_bool (io_nmi_enabled i)))
      else if which = 0x2001 then
        Some (of_bool (io_grey i) OR push_bit 1 (of_bool (io_bg_show_left i)) OR
          push_bit 2 (of_bool (io_sp_show_left i)) OR push_bit 3 (of_bool (io_bg_show i)) OR
          push_bit 4 (of_bool (io_sp_show i)) OR push_bit 5 (of_bool (io_red i)) OR
          push_bit 6 (of_bool (io_green i)) OR push_bit 7 (of_bool (io_blue i)))
      else if which = 0x2002 then
        Some (push_bit 7 (of_bool (io_vblank i)) OR push_bit 6 (of_bool (io_sp_zero_hit i)) OR
          push_bit 5 (of_bool (io_sp_overflow i)))
      else if which = 0x2003 then Some (io_oam_addr i)
      else if which = 0x2004 then Some 0
      else if which = 0x2005 then
        Some (if \<not> io_scroll_latch i
              then ucast (push_bit 5 (ucast (v_fine_x v)) OR coarse_x (v_tmp v))
              else ucast (push_bit 5 (fine_y (v_tmp v)) OR coarse_y (v_tmp v)))
      else if which = 0x2006 then
        Some (if \<not> io_scroll_latch i then ucast (v_tmp v AND 0xFF) else ucast (drop_bit 8 (v_tmp v) AND 0xFF))
      else if which = 0x2007 then
        (if v_addr v < 0x3F00 then Some (io_data_buf i) else vread P (v_addr v) p)
      else Some 0xFF)"

record ppu_status_data =
  st_ctrl :: uint8
  st_mask :: uint8
  st_status :: uint8
  st_oamaddr :: uint8
  st_oamdata :: uint8
  st_vram_scroll :: uint8
  st_vram_addr :: uint8
  st_vram_data :: uint8
  st_vram :: vram
  st_tile :: tile
  st_shift :: shift
  st_line :: nat
  st_cycle :: nat

definition ppu_status :: "'e ppu_ports \<Rightarrow> ppu \<Rightarrow> ppu_status_data option" where
  "ppu_status P p =
     do { ctrl \<leftarrow> readreg_no_sideeff P 0x2000 p;
          mask \<leftarrow> readreg_no_sideeff P 0x2000 p;
          st \<leftarrow> readreg_no_sideeff P 0x2000 p;
          oamaddr \<leftarrow> readreg_no_sideeff P 0x2000 p;
          oamdata \<leftarrow> readreg_no_sideeff P 0x2000 p;
          scroll \<leftarrow> readreg_no_sideeff P 0x2000 p;
          addr \<leftarrow> readreg_no_sideeff P 0x2000 p;
          data \<leftarrow> readreg_no_sideeff P 0x2000 p;
          Some \<lparr>st_ctrl = ctrl, st_mask = mask, st_status = st, st_oamaddr = oamaddr,
            st_oamdata = oamdata, st_vram_scroll = scroll, st_vram_addr = addr, st_vram_data = data,
            st_vram = p_vram p, st_tile = p_tile p, st_shift = p_shift p, st_line = p_lines p,
            st_cycle = p_cycles p\<rparr> }"

section \<open>Memories behind the video bus\<close>

datatype mirroring = VERT | HORZ | OTHER

text \<open>\<^verbatim>\<open>decode\<close>: the name table address folded into the memory; empty for \<^verbatim>\<open>OTHER\<close>.\<close>

fun decode :: "mirroring \<Rightarrow> uint16 \<Rightarrow> uint16 option" where
  "decode HORZ addr =
     (let tmp = ucast (addr AND 0xFFF); bits = drop_bit 1 (getbits tmp 10 2)
      in Some (ucast (setbits tmp 10 2 bits)))"
| "decode VERT addr = Some (addr AND 0x7FF)"
| "decode OTHER addr = None"

definition nt_read :: "mirroring \<Rightarrow> uint16 \<Rightarrow> ppu \<Rightarrow> uint8 option" where
  "nt_read m addr p =
     do { addr \<leftarrow> decode m addr; if unat addr < VRAM_SIZE then Some (p_vrammem p (unat addr)) else None }"

definition nt_write :: "mirroring \<Rightarrow> uint16 \<Rightarrow> uint8 \<Rightarrow> ppu \<Rightarrow> ppu option" where
  "nt_write m addr data p =
     do { addr \<leftarrow> decode m addr;
          if unat addr < VRAM_SIZE then Some (p\<lparr>p_vrammem := (p_vrammem p)(unat addr := data)\<rparr>) else None }"

definition pal_read :: "uint16 \<Rightarrow> ppu \<Rightarrow> uint8 option" where
  "pal_read addr p =
     (if unat (addr AND 0x1F) < PAL_SIZE then Some (p_palmem p (unat (addr AND 0x1F))) else None)"

definition pal_write :: "uint16 \<Rightarrow> uint8 \<Rightarrow> ppu \<Rightarrow> ppu option" where
  "pal_write addr data p =
     (if unat (addr AND 0x1F) < PAL_SIZE
      then Some (p\<lparr>p_palmem := (p_palmem p)(unat (addr AND 0x1F) := data)\<rparr>) else None)"

section \<open>The scroll address\<close>

text \<open>What the four operations do to the address itself, after the test of \<^verbatim>\<open>io.bg_show\<close>.\<close>

definition inc_x :: "uint16 \<Rightarrow> uint16" where
  "inc_x a = (if coarse_x a = 31 then bf_xor 1 10 2 (set_coarse_x 0 a) else bf_inc 0 5 a)"

definition inc_y :: "uint16 \<Rightarrow> uint16" where
  "inc_y a =
     (if fine_y a < 7 then bf_inc 12 3 a
      else let a = set_fine_y 0 a; y = (ucast (coarse_y a) :: uint16);
               (y, a) = (if y = 29 then (0, bf_xor 2 10 2 a) else if y = 31 then (0, a) else (y + 1, a))
           in set_coarse_y y a)"

definition copy_x :: "uint16 \<Rightarrow> uint16 \<Rightarrow> uint16" where
  "copy_x t a = (let a = bf_copy 0 5 a t in set_nt (ucast (setbit (nt a) 0 (nt t AND 1 \<noteq> 0))) a)"

definition copy_y :: "uint16 \<Rightarrow> uint16 \<Rightarrow> uint16" where
  "copy_y t a = (let a = bf_copy 12 3 (bf_copy 5 5 a t) t
     in set_nt (ucast (setbit (nt a) 1 (drop_bit 1 (nt t) AND 1 \<noteq> 0))) a)"

definition inc_v_horzpos :: "ppu \<Rightarrow> ppu" where
  "inc_v_horzpos p = (if \<not> io_bg_show (p_io p) then p else with_addr inc_x p)"

definition inc_v_vertpos :: "ppu \<Rightarrow> ppu" where
  "inc_v_vertpos p = (if \<not> io_bg_show (p_io p) then p else with_addr inc_y p)"

definition copy_v_horzpos :: "ppu \<Rightarrow> ppu" where
  "copy_v_horzpos p = (if \<not> io_bg_show (p_io p) then p else with_addr (copy_x (tmp_of p)) p)"

definition copy_v_vertpos :: "ppu \<Rightarrow> ppu" where
  "copy_v_vertpos p = (if \<not> io_bg_show (p_io p) then p else with_addr (copy_y (tmp_of p)) p)"

section \<open>The background pipeline\<close>

definition fetch_nt :: "'e ppu_ports \<Rightarrow> bool \<Rightarrow> ppu \<Rightarrow> ppu option" where
  "fetch_nt P dofetch p =
     (if \<not> dofetch then Some p
      else do { v \<leftarrow> vread P (0x2000 OR (addr_of p AND 0x0FFF)) p;
                Some (p\<lparr>p_tile := (p_tile p)\<lparr>t_nt := v\<rparr>\<rparr>) })"

definition fetch_attr :: "'e ppu_ports \<Rightarrow> bool \<Rightarrow> ppu \<Rightarrow> ppu option" where
  "fetch_attr P dofetch p =
     (if \<not> dofetch then Some p
      else do { v \<leftarrow> vread P (0x23C0 OR push_bit 10 (ucast (nt (addr_of p))) OR
                       push_bit 1 (ucast (coarse_y (addr_of p)) AND 0x1C) OR
                       drop_bit 2 (ucast (coarse_x (addr_of p)) AND 0x1C)) p;
                Some (p\<lparr>p_tile := (p_tile p)\<lparr>t_attr := v\<rparr>\<rparr>) })"

definition fetch_lowbg :: "'e ppu_ports \<Rightarrow> bool \<Rightarrow> ppu \<Rightarrow> ppu option" where
  "fetch_lowbg P dofetch p =
     (if \<not> dofetch then Some p
      else do { v \<leftarrow> vread P (push_bit 12 (of_bool (io_bg_pt_addr (p_io p))) OR
                       push_bit 4 (ucast (t_nt (p_tile p))) OR ucast (fine_y (addr_of p))) p;
                Some (p\<lparr>p_tile := (p_tile p)\<lparr>t_low := v\<rparr>\<rparr>) })"

definition fetch_highbg :: "'e ppu_ports \<Rightarrow> bool \<Rightarrow> ppu \<Rightarrow> ppu option" where
  "fetch_highbg P dofetch p =
     (if \<not> dofetch then Some p
      else do { v \<leftarrow> vread P (push_bit 12 (of_bool (io_bg_pt_addr (p_io p))) OR
                       push_bit 4 (ucast (t_nt (p_tile p))) OR push_bit 3 1 OR ucast (fine_y (addr_of p))) p;
                Some (p\<lparr>p_tile := (p_tile p)\<lparr>t_high := v\<rparr>\<rparr>) })"

text \<open>The last two lines both assign \<^verbatim>\<open>ahigh\<close>.\<close>

definition shift_run :: "ppu \<Rightarrow> ppu" where
  "shift_run p =
     (let s = p_shift p;
          s = s\<lparr>s_tlow := drop_bit 1 (s_tlow s), s_thigh := drop_bit 1 (s_thigh s),
                s_ahigh := drop_bit 1 (s_ahigh s), s_alow := drop_bit 1 (s_alow s)\<rparr>;
          s = s\<lparr>s_ahigh := ucast (setbit (ucast (s_ahigh s)) 7 (s_feed_high s))\<rparr>;
          s = s\<lparr>s_ahigh := ucast (setbit (ucast (s_alow s)) 7 (s_feed_low s))\<rparr>
      in p\<lparr>p_shift := s\<rparr>)"

text \<open>The shift count \<open>(~b) * 2\<close> for a bit \<open>b\<close>.\<close>

definition attr_shift :: "uint16 \<Rightarrow> int" where
  "attr_shift v = NOT (uint ((drop_bit 1 v AND 1) OR (drop_bit 6 v AND 1))) * 2"

definition shift_left_3 :: "'e ppu_ports \<Rightarrow> int \<Rightarrow> uint8" where
  "shift_left_3 P n = (if n < 0 then neg_shift P n else push_bit (nat n) 3)"

definition shift_fill :: "'e ppu_ports \<Rightarrow> ppu \<Rightarrow> ppu" where
  "shift_fill P p =
     (let s = p_shift p; t = p_tile p;
          s = s\<lparr>s_tlow := ucast (setbits (ucast (s_tlow s)) 8 8 (ucast (t_low t))),
                s_thigh := ucast (setbits (ucast (s_thigh s)) 8 8 (ucast (t_high t)))\<rparr>;
          attr_mask = shift_left_3 P (attr_shift (addr_of p));
          s = s\<lparr>s_feed_high := (t_attr t AND attr_mask \<noteq> 0), s_feed_low := (t_attr t AND attr_mask \<noteq> 0)\<rparr>
      in p\<lparr>p_shift := s\<rparr>)"

definition getcolor :: "'e ppu_ports \<Rightarrow> bool \<Rightarrow> uint8 \<Rightarrow> uint8 \<Rightarrow> ppu \<Rightarrow> uint8 option" where
  "getcolor P select pal palind p =
     (let n = push_bit 4 (of_bool select) OR push_bit 2 pal OR palind
      in vread P (0x3F00 + ucast n) p)"

text \<open>A shift of \<^verbatim>\<open>1UL\<close> by 64 or more has no result.\<close>

definition bg_output :: "'e ppu_ports \<Rightarrow> ppu \<Rightarrow> uint8 option" where
  "bg_output P p =
     (let s = p_shift p; x = unat (v_fine_x (p_vram p)) in
      if x < 64 then
        (let mask = push_bit x 1 :: uint8;
             lowbit = s_tlow s AND ucast mask \<noteq> 0; hibit = s_thigh s AND ucast mask \<noteq> 0;
             at1 = s_ahigh s AND mask \<noteq> 0; at2 = s_alow s AND mask \<noteq> 0;
             pal = push_bit 1 (of_bool at1) OR of_bool at2;
             palind = push_bit 1 (of_bool hibit) OR of_bool lowbit
         in getcolor P False pal palind p)
      else None)"

definition ppu_output :: "'e ppu_ports \<Rightarrow> ppu \<Rightarrow> ppu option" where
  "ppu_output P p =
     (case p_screen p of
        None \<Rightarrow> Some p
      | Some screen \<Rightarrow>
          do { bgpixel \<leftarrow> bg_output P p;
               let color = (if bgpixel = 0x30 then 0xFFFFFFFF else 0);
               let x = p_cycles p mod 341;
               let y = p_lines p mod 262;
               if (y \<le> 239 \<or> y = 261) \<and> x \<le> 256 then
                 (if x = 256 then Some p
                  else if y = 261 then Some p
                  else do { screen \<leftarrow> drawpixel x y color screen; Some (p\<lparr>p_screen := Some screen\<rparr>) })
               else None })"

end
