(* ===== verification/PpuMain.thy ===== *)
theory PpuMain
  imports Ppu
begin

text \<open>
  The frame of the picture unit, \<^verbatim>\<open>emu/core/ppumain.cpp\<close>: which step runs at which cycle of which
  line. The tables of member functions are lists, their template arguments natural numbers;
  the debug output of \<^verbatim>\<open>PRINT_FRAME\<close> is left out. A step returns the unit and the environment the
  interrupt callback changes.

  The theorems: the counters stay inside two frames and in step with each other, every
  assertion on them holds, a step always has a result on a total video bus, and the interrupt
  is signalled once per frame.
\<close>

section \<open>Steps\<close>

definition begin_frame :: "ppu \<Rightarrow> ppu option" where
  "begin_frame p =
     (if p_lines p mod 262 = 261 \<and> p_cycles p mod 341 = 340 then
        (let p = (if p_odd_frame p then p\<lparr>p_lines := 0, p_cycles := 0\<rparr> else p)
         in Some (p\<lparr>p_odd_frame := \<not> p_odd_frame p\<rparr>))
      else None)"

definition vblank_begin :: "'e ppu_ports \<Rightarrow> ppu \<Rightarrow> 'e \<Rightarrow> (ppu \<times> 'e) option" where
  "vblank_begin P p e =
     do { let p = with_io (\<lambda>i. i\<lparr>io_vblank := True\<rparr>) p;
          callback \<leftarrow> nmi_callback P;
          Some (p, callback e) }"

definition vblank_end :: "ppu \<Rightarrow> ppu" where
  "vblank_end = with_io (\<lambda>i. i\<lparr>io_vblank := False, io_sp_zero_hit := False, io_sp_overflow := False\<rparr>)"

text \<open>The steps of a cycle, each one call and a trace character.\<close>

abbreviation cycle_idle :: "ppu \<Rightarrow> ppu option" where
  "cycle_idle p \<equiv> Some p"

abbreviation cycle_fetchnt :: "'e ppu_ports \<Rightarrow> bool \<Rightarrow> ppu \<Rightarrow> ppu option" where
  "cycle_fetchnt P c p \<equiv> fetch_nt P c p"

abbreviation cycle_fetchattr :: "'e ppu_ports \<Rightarrow> bool \<Rightarrow> ppu \<Rightarrow> ppu option" where
  "cycle_fetchattr P c p \<equiv> fetch_attr P c p"

abbreviation cycle_fetchlowbg :: "'e ppu_ports \<Rightarrow> bool \<Rightarrow> ppu \<Rightarrow> ppu option" where
  "cycle_fetchlowbg P c p \<equiv> fetch_lowbg P c p"

abbreviation cycle_fetchhighbg :: "'e ppu_ports \<Rightarrow> bool \<Rightarrow> ppu \<Rightarrow> ppu option" where
  "cycle_fetchhighbg P c p \<equiv> fetch_highbg P c p"

abbreviation cycle_incvhorz :: "ppu \<Rightarrow> ppu" where
  "cycle_incvhorz p \<equiv> inc_v_horzpos p"

abbreviation cycle_incvvert :: "ppu \<Rightarrow> ppu" where
  "cycle_incvvert p \<equiv> inc_v_vertpos p"

abbreviation cycle_copyhorz :: "ppu \<Rightarrow> ppu" where
  "cycle_copyhorz p \<equiv> copy_v_horzpos p"

abbreviation cycle_copyvert :: "ppu \<Rightarrow> ppu" where
  "cycle_copyvert p \<equiv> copy_v_vertpos p"

abbreviation cycle_shift :: "ppu \<Rightarrow> ppu" where
  "cycle_shift p \<equiv> shift_run p"

abbreviation cycle_fillshifts :: "'e ppu_ports \<Rightarrow> ppu \<Rightarrow> ppu" where
  "cycle_fillshifts P p \<equiv> shift_fill P p"

abbreviation cycle_outputpixel :: "'e ppu_ports \<Rightarrow> ppu \<Rightarrow> ppu option" where
  "cycle_outputpixel P p \<equiv> ppu_output P p"

definition background_cycle :: "'e ppu_ports \<Rightarrow> nat \<Rightarrow> ppu \<Rightarrow> ppu option" where
  "background_cycle P c p =
     (if c = 1 then cycle_fetchnt P False p
      else if c = 2 then cycle_fetchnt P True p
      else if c = 3 then cycle_fetchattr P False p
      else if c = 4 then cycle_fetchattr P True p
      else if c = 5 then cycle_fetchlowbg P False p
      else if c = 6 then cycle_fetchlowbg P True p
      else if c = 7 then cycle_fetchhighbg P False p
      else if c = 0 then cycle_fetchhighbg P True p
      else Some p)"

definition ccycle :: "'e ppu_ports \<Rightarrow> nat \<Rightarrow> ppu \<Rightarrow> ppu option" where
  "ccycle P c p =
     do { p \<leftarrow>
          (if 1 \<le> c \<and> c \<le> 256 \<or> 321 \<le> c \<and> c \<le> 340 then
             do { p \<leftarrow> (if 4 \<le> c \<and> c \<le> 256 then cycle_outputpixel P p else Some p);
                  p \<leftarrow> background_cycle P (c mod 8) p;
                  let p = (if c mod 8 = 1 \<and> c \<noteq> 1 then cycle_fillshifts P p else p);
                  let p = (if c mod 8 \<noteq> 1 then cycle_shift p else p);
                  let p = (if c mod 8 = 0 \<and> c \<noteq> 256 then cycle_incvhorz p else p);
                  Some (if c = 256 then cycle_incvvert p else p) }
           else Some p);
          Some (if c = 257 then cycle_copyhorz p else p) }"

datatype cyclefunc = IDLE | CCYCLE nat

primrec run_cyclefunc :: "'e ppu_ports \<Rightarrow> cyclefunc \<Rightarrow> ppu \<Rightarrow> ppu option" where
  "run_cyclefunc P IDLE p = cycle_idle p"
| "run_cyclefunc P (CCYCLE c) p = ccycle P c p"

definition cycletab :: "cyclefunc list" where
  "cycletab = [IDLE] @ map CCYCLE [1..<258] @ replicate 63 IDLE @ map CCYCLE [321..<341]"

definition lcycle :: "'e ppu_ports \<Rightarrow> nat \<Rightarrow> nat \<Rightarrow> ppu \<Rightarrow> 'e \<Rightarrow> (ppu \<times> 'e) option" where
  "lcycle P line c p e =
     (if \<not> c \<le> 340 then None
      else if line < 240 then do { p \<leftarrow> run_cyclefunc P (cycletab ! c) p; Some (p, e) }
      else if line = 241 then (if c = 1 then vblank_begin P p e else Some (p, e))
      else if line = 261 then
        do { p \<leftarrow> run_cyclefunc P (cycletab ! c) p;
             let p = (if c = 1 then vblank_end p else p);
             let p = (if 280 \<le> c \<and> c \<le> 304 then cycle_copyvert p else p);
             p \<leftarrow> (if c = 340 then begin_frame p else Some p);
             Some (p, e) }
      else Some (p, e))"

definition linetab :: "nat list" where
  "linetab = [0..<262]"

definition ppu_run :: "'e ppu_ports \<Rightarrow> ppu \<Rightarrow> 'e \<Rightarrow> (ppu \<times> 'e) option" where
  "ppu_run P p e =
     do { let line = linetab ! (p_lines p mod 262);
          (p, e) \<leftarrow> lcycle P line (p_cycles p mod 341) p e;
          let p = p\<lparr>p_cycles := (p_cycles p + 1) mod 2 ^ 64\<rparr>;
          Some (p\<lparr>p_lines := (p_lines p + of_bool (p_cycles p mod 341 = 0)) mod 2 ^ 64\<rparr>, e) }"

fun ppu_runs :: "'e ppu_ports \<Rightarrow> nat \<Rightarrow> ppu \<Rightarrow> 'e \<Rightarrow> (ppu \<times> 'e) option" where
  "ppu_runs P 0 p e = Some (p, e)"
| "ppu_runs P (Suc n) p e = do { (p, e) \<leftarrow> ppu_run P p e; ppu_runs P n p e }"

lemma cycletab_nth:
  "c \<le> 340 \<Longrightarrow> cycletab ! c = (if 1 \<le> c \<and> c \<le> 257 \<or> 321 \<le> c then CCYCLE c else IDLE)"
  by (auto simp: cycletab_def nth_append nth_Cons')

lemma linetab_nth [simp]: "l < 262 \<Longrightarrow> linetab ! l = l"
  by (simp add: linetab_def)

section \<open>Addresses on the video bus\<close>

lemma less_0x4000:
  fixes a :: uint16
  assumes "\<not> bit a 14" "\<not> bit a 15"
  shows "a < 0x4000"
proof -
  have "bit a n \<Longrightarrow> n < 14" for n
    using assms bit_imp_le_length [of a n] by (cases "n = 14"; cases "n = 15") auto
  then have "take_bit 14 a = a" by (intro bit_word_eqI) (auto simp: bit_simps)
  then have "unat a = take_bit 14 (unat a)" by (metis unsigned_take_bit_eq)
  also have "\<dots> < 2 ^ 14" by (rule take_bit_nat_less_exp)
  finally show ?thesis by (simp add: word_less_nat_alt)
qed

lemmas field_get_defs = fine_y_def nt_def coarse_y_def coarse_x_def

lemma fetch_addr_bounds:
  fixes a :: uint16
  shows "0x2000 OR (a AND 0x0FFF) < 0x4000"
    "0x23C0 OR push_bit 10 (ucast (nt a)) OR push_bit 1 (ucast (coarse_y a) AND 0x1C) OR
       drop_bit 2 (ucast (coarse_x a) AND 0x1C) < (0x4000 :: uint16)"
    "push_bit 12 (of_bool b) OR push_bit 4 (ucast (t :: uint8)) OR ucast (fine_y a) < (0x4000 :: uint16)"
    "push_bit 12 (of_bool b) OR push_bit 4 (ucast (t :: uint8)) OR push_bit 3 1 OR ucast (fine_y a) < (0x4000 :: uint16)"
  by (rule less_0x4000; auto simp: field_get_defs bit_simps bit_bf_get dest: bit_imp_le_length)+

lemma color_addr_bound:
  "(0x3F00 :: uint16) + ucast (push_bit 4 (of_bool False) OR push_bit 2 (push_bit 1 (of_bool b) OR of_bool c) OR
     (push_bit 1 (of_bool d) OR of_bool e) :: uint8) < 0x4000"
  by (cases b; cases c; cases d; cases e; simp)

section \<open>What a step leaves alone\<close>

definition same_timing :: "ppu \<Rightarrow> ppu \<Rightarrow> bool" where
  "same_timing p p' \<longleftrightarrow> p_cycles p' = p_cycles p \<and> p_lines p' = p_lines p \<and> p_odd_frame p' = p_odd_frame p"

definition screen_ok :: "ppu \<Rightarrow> bool" where
  "screen_ok p \<longleftrightarrow> (case p_screen p of None \<Rightarrow> True | Some c \<Rightarrow> canvas_ok c \<and> tw c = 256 \<and> th c = 240)"

definition has_screen :: "ppu \<Rightarrow> bool" where
  "has_screen p \<longleftrightarrow> p_screen p \<noteq> None"

definition fine_ok :: "ppu \<Rightarrow> bool" where
  "fine_ok p \<longleftrightarrow> unat (v_fine_x (p_vram p)) < 8"

definition timing_ok :: "ppu \<Rightarrow> bool" where
  "timing_ok p \<longleftrightarrow> p_lines p = p_cycles p div 341 \<and>
     (if p_odd_frame p then 262 \<le> p_lines p \<and> p_lines p < 524 else p_lines p < 262)"

definition ppu_ok :: "ppu \<Rightarrow> bool" where
  "ppu_ok p \<longleftrightarrow> timing_ok p \<and> screen_ok p \<and> fine_ok p"

text \<open>\<open>keeps p p'\<close>: the counters and everything the invariant looks at.\<close>

definition keeps :: "ppu \<Rightarrow> ppu \<Rightarrow> bool" where
  "keeps p p' \<longleftrightarrow> same_timing p p' \<and> v_fine_x (p_vram p') = v_fine_x (p_vram p) \<and>
     (screen_ok p \<longrightarrow> screen_ok p') \<and> has_screen p' = has_screen p"

lemma keeps_refl [simp]: "keeps p p"
  by (simp add: keeps_def same_timing_def)

lemma keeps_trans: "keeps p q \<Longrightarrow> keeps q r \<Longrightarrow> keeps p r"
  by (simp add: keeps_def same_timing_def)

lemma keeps_ok: "keeps p p' \<Longrightarrow> ppu_ok p \<Longrightarrow> ppu_ok p'"
  by (auto simp: keeps_def same_timing_def ppu_ok_def timing_ok_def fine_ok_def split: if_splits)

lemma keeps_io [simp]: "keeps p (with_io f p)"
  and keeps_addr [simp]: "keeps p (with_addr g p)"
  and keeps_tmp [simp]: "keeps p (with_tmp h p)"
  and keeps_tile [simp]: "keeps p (p\<lparr>p_tile := t\<rparr>)"
  and keeps_shift [simp]: "keeps p (p\<lparr>p_shift := s\<rparr>)"
  by (simp_all add: keeps_def same_timing_def screen_ok_def has_screen_def with_io_def with_addr_def with_tmp_def with_vram_def)

lemma keeps_scroll [simp]:
  "keeps p (inc_v_horzpos p)" "keeps p (inc_v_vertpos p)" "keeps p (copy_v_horzpos p)"
  "keeps p (copy_v_vertpos p)" "keeps p (shift_run p)" "keeps p (shift_fill P p)" "keeps p (vblank_end p)"
  by (simp_all add: inc_v_horzpos_def inc_v_vertpos_def copy_v_horzpos_def copy_v_vertpos_def
      shift_run_def shift_fill_def vblank_end_def Let_def)

section \<open>The position in a frame\<close>

text \<open>Cycles since the start of the frame, and the cycles left until the interrupt is signalled
  at line 241, cycle 1.\<close>

definition frame_pos :: "ppu \<Rightarrow> nat" where
  "frame_pos p = p_cycles p mod 89342"

definition until_nmi :: "ppu \<Rightarrow> nat" where
  "until_nmi p = (if frame_pos p \<le> 82182 then 82182 - frame_pos p else 82182 + 89342 - frame_pos p)"

definition at_frame_end :: "ppu \<Rightarrow> bool" where
  "at_frame_end p \<longleftrightarrow> p_lines p mod 262 = 261 \<and> p_cycles p mod 341 = 340"

definition at_nmi :: "ppu \<Rightarrow> bool" where
  "at_nmi p \<longleftrightarrow> p_lines p mod 262 = 241 \<and> p_cycles p mod 341 = 1"

lemma div_341_262: "n div 341 mod 262 = n mod 89342 div 341" for n :: nat
  using mod_mult2_eq [of n 341 262] by simp

lemma frame_pos_split:
  assumes "timing_ok p"
  shows "frame_pos p = 341 * (p_lines p mod 262) + p_cycles p mod 341"
proof -
  have "p_lines p = p_cycles p div 341" using assms by (simp add: timing_ok_def)
  then show ?thesis using mod_mult2_eq [of "p_cycles p" 341 262] by (simp add: frame_pos_def)
qed

lemma at_nmi_pos: "timing_ok p \<Longrightarrow> at_nmi p \<longleftrightarrow> frame_pos p = 82182"
  and at_frame_end_pos: "timing_ok p \<Longrightarrow> at_frame_end p \<longleftrightarrow> frame_pos p = 89341"
proof -
  have "a = (341 * a + b) div 341" "b = (341 * a + b) mod 341" if "b < 341" for a b :: nat
    using that by simp_all
  then have *: "341 * a + b = 341 * a' + b' \<longleftrightarrow> a = a' \<and> b = b'" if "b < 341" "b' < 341" for a b a' b' :: nat
    using that by metis
  have **: "341 * a + b = 82182 \<longleftrightarrow> a = 241 \<and> b = 1" "341 * a + b = 89341 \<longleftrightarrow> a = 261 \<and> b = 340"
    if "b < 341" for a b :: nat using * [OF that, of 1 a 241] * [OF that, of 340 a 261] by simp_all
  show "timing_ok p \<Longrightarrow> at_nmi p \<longleftrightarrow> frame_pos p = 82182"
    "timing_ok p \<Longrightarrow> at_frame_end p \<longleftrightarrow> frame_pos p = 89341"
    by (simp_all add: frame_pos_split at_nmi_def at_frame_end_def **)
qed

text \<open>One tick of the counters, away from the end of a frame and at it.\<close>

definition tick :: "ppu \<Rightarrow> ppu" where
  "tick p = (let p = p\<lparr>p_cycles := (p_cycles p + 1) mod 2 ^ 64\<rparr>
     in p\<lparr>p_lines := (p_lines p + of_bool (p_cycles p mod 341 = 0)) mod 2 ^ 64\<rparr>)"

lemma timing_bounds:
  assumes "timing_ok p"
  shows "p_lines p < 524" "p_cycles p < 524 * 341"
proof -
  show l: "p_lines p < 524" using assms by (auto simp: timing_ok_def split: if_splits)
  then show "p_cycles p < 524 * 341" using assms by (auto simp: timing_ok_def div_less_iff_less_mult)
qed

lemma div_next_341: "(n + 1) div 341 = n div 341 + of_bool (n mod 341 = 340)"
  and mod_next_341: "(n + 1) mod 341 = 0 \<longleftrightarrow> n mod 341 = 340" for n :: nat
proof -
  show m: "(n + 1) mod 341 = 0 \<longleftrightarrow> n mod 341 = 340" by (simp add: mod_Suc)
  show "(n + 1) div 341 = n div 341 + of_bool (n mod 341 = 340)"
    using m by (simp add: div_Suc mod_eq_0_iff_dvd)
qed

lemma tick_counters:
  assumes "timing_ok p"
  shows "p_cycles (tick p) = p_cycles p + 1" "p_lines (tick p) = (p_cycles p + 1) div 341"
proof -
  have b: "p_cycles p + 1 < 2 ^ 64" "p_lines p + 1 < 2 ^ 64" using timing_bounds [OF assms] by simp_all
  then show c: "p_cycles (tick p) = p_cycles p + 1" by (simp add: tick_def Let_def)
  have "p_lines (tick p) = p_lines p + of_bool ((p_cycles p + 1) mod 341 = 0)"
    using b by (simp add: tick_def Let_def)
  then show "p_lines (tick p) = (p_cycles p + 1) div 341"
    using assms by (simp only: timing_ok_def div_next_341 mod_next_341)
qed

lemma tick_within_frame:
  assumes "timing_ok p" "\<not> at_frame_end p"
  shows "timing_ok (tick p)"
proof -
  have t: "p_lines p = p_cycles p div 341" "p_odd_frame (tick p) = p_odd_frame p"
    using assms by (simp_all add: timing_ok_def tick_def Let_def)
  have e: "p_lines p \<noteq> 261" "p_lines p \<noteq> 523" if "p_cycles p mod 341 = 340"
    using assms(2) that by (auto simp: at_frame_end_def)
  show ?thesis
    using assms(1) e unfolding timing_ok_def tick_counters [OF assms(1)] t(2) div_next_341 t(1) [symmetric]
    by (cases "p_cycles p mod 341 = 340") (auto split: if_splits)
qed

lemma tick_frame_end:
  assumes "timing_ok p" "at_frame_end p" "begin_frame p = Some q"
  shows "timing_ok (tick q)" "p_cycles (tick q) = (if p_odd_frame p then 1 else p_cycles p + 1)"
proof -
  have l: "p_lines p = p_cycles p div 341" using assms(1) by (simp add: timing_ok_def)
  have c: "p_cycles p = 341 * p_lines p + 340"
    using assms(2) div_mult_mod_eq [of "p_cycles p" 341] unfolding at_frame_end_def l [symmetric] by simp
  have q: "q = (if p_odd_frame p then p\<lparr>p_lines := 0, p_cycles := 0, p_odd_frame := False\<rparr>
      else p\<lparr>p_odd_frame := True\<rparr>)"
    using assms(2,3) by (simp add: begin_frame_def at_frame_end_def split: if_splits)
  have "p_lines p = 261" if "\<not> p_odd_frame p"
    using assms(1,2) that by (auto simp: timing_ok_def at_frame_end_def)
  then show "timing_ok (tick q)" "p_cycles (tick q) = (if p_odd_frame p then 1 else p_cycles p + 1)"
    using c by (auto simp: q tick_def timing_ok_def Let_def)
qed

section \<open>The contract of the video bus\<close>

text \<open>
  What the unit relies on, for ports that depend on the rest of the machine: in a good machine
  every address below \<^verbatim>\<open>0x4000\<close> can be read, and an interrupt callback is installed.
\<close>

locale video_bus =
  fixes P :: "'x \<Rightarrow> 'e ppu_ports" and good :: "'x \<Rightarrow> bool" and signal :: "'e \<Rightarrow> 'e"
  assumes vread_total: "good x \<Longrightarrow> a < 0x4000 \<Longrightarrow> \<exists>v. vread (P x) a p = Some v"
    and callback: "nmi_callback (P x) = Some signal"
begin

lemma fetch_total:
  assumes "good x"
  shows "\<exists>p'. fetch_nt (P x) b p = Some p' \<and> keeps p p'" "\<exists>p'. fetch_attr (P x) b p = Some p' \<and> keeps p p'"
  "\<exists>p'. fetch_lowbg (P x) b p = Some p' \<and> keeps p p'" "\<exists>p'. fetch_highbg (P x) b p = Some p' \<and> keeps p p'"
proof -
  note v = vread_total [OF assms fetch_addr_bounds(1)] vread_total [OF assms fetch_addr_bounds(2)]
    vread_total [OF assms fetch_addr_bounds(3)] vread_total [OF assms fetch_addr_bounds(4)]
  show "\<exists>p'. fetch_nt (P x) b p = Some p' \<and> keeps p p'" using v(1) [of "addr_of p" p] by (auto simp: fetch_nt_def)
  show "\<exists>p'. fetch_attr (P x) b p = Some p' \<and> keeps p p'" using v(2) [of "addr_of p" p] by (auto simp: fetch_attr_def)
  show "\<exists>p'. fetch_lowbg (P x) b p = Some p' \<and> keeps p p'"
    using v(3) [of "io_bg_pt_addr (p_io p)" "t_nt (p_tile p)" "addr_of p" p] by (auto simp: fetch_lowbg_def)
  show "\<exists>p'. fetch_highbg (P x) b p = Some p' \<and> keeps p p'"
    using v(4) [of "io_bg_pt_addr (p_io p)" "t_nt (p_tile p)" "addr_of p" p] by (auto simp: fetch_highbg_def)
qed

lemma background_total: "good x \<Longrightarrow> \<exists>p'. background_cycle (P x) c p = Some p' \<and> keeps p p'"
  using fetch_total by (auto simp: background_cycle_def)

lemma bg_output_total: "good x \<Longrightarrow> fine_ok p \<Longrightarrow> \<exists>v. bg_output (P x) p = Some v"
  unfolding bg_output_def getcolor_def fine_ok_def Let_def
  by (simp only: if_P) (rule vread_total [OF _ color_addr_bound])

lemma output_total:
  assumes "good x" "fine_ok p" "screen_ok p" "p_lines p mod 262 \<le> 239 \<or> p_lines p mod 262 = 261"
    and "4 \<le> p_cycles p mod 341" "p_cycles p mod 341 \<le> 256"
  shows "\<exists>p'. ppu_output (P x) p = Some p' \<and> keeps p p'"
proof (cases "p_screen p")
  case None
  then show ?thesis by (simp add: ppu_output_def)
next
  case (Some c)
  then have c: "canvas_ok c" "tw c = 256" "th c = 240" using assms(3) by (simp_all add: screen_ok_def)
  obtain v where v: "bg_output (P x) p = Some v" using bg_output_total [OF assms(1,2)] by blast
  let ?x = "p_cycles p mod 341" and ?y = "p_lines p mod 262"
  show ?thesis
  proof (cases "?x = 256 \<or> ?y = 261")
    case True
    then show ?thesis using v Some assms(4-) by (auto simp: ppu_output_def Let_def)
  next
    case False
    then have xy: "?x < tw c" "?y < th c" "0 < pixel_index c ?x ?y"
      using assms(4-) c by (auto simp: pixel_index_def)
    from drawpixel_ok [OF c(1) xy, of "if v = 0x30 then 0xFFFFFFFF else 0"] obtain c' where c':
      "drawpixel ?x ?y (if v = 0x30 then 0xFFFFFFFF else 0) c = Some c'" "canvas_ok c'" "tw c' = 256" "th c' = 240"
      using c by auto
    have "ppu_output (P x) p = Some (p\<lparr>p_screen := Some c'\<rparr>)"
      using v Some assms(4-) False c'(1) by (auto simp: ppu_output_def Let_def)
    then show ?thesis using c' Some by (simp add: keeps_def same_timing_def screen_ok_def has_screen_def)
  qed
qed

lemma ccycle_total:
  assumes "good x" "ppu_ok p" "c = p_cycles p mod 341" "p_lines p mod 262 \<le> 239 \<or> p_lines p mod 262 = 261"
  shows "\<exists>p'. ccycle (P x) c p = Some p' \<and> keeps p p'"
proof -
  have ok: "fine_ok p" "screen_ok p" using assms(2) by (simp_all add: ppu_ok_def)
  obtain p1 where p1: "(if 4 \<le> c \<and> c \<le> 256 then ppu_output (P x) p else Some p) = Some p1" "keeps p p1"
    using output_total [OF assms(1) ok assms(4)] assms(3) by (cases "4 \<le> c \<and> c \<le> 256") auto
  obtain p2 where p2: "background_cycle (P x) (c mod 8) p1 = Some p2" "keeps p1 p2"
    using background_total [OF assms(1)] by blast
  have k: "keeps p p2" using p1(2) p2(2) by (rule keeps_trans)
  define p3 where "p3 = (if c mod 8 = 1 \<and> c \<noteq> 1 then shift_fill (P x) p2 else p2)"
  define p4 where "p4 = (if c mod 8 \<noteq> 1 then shift_run p3 else p3)"
  define p5 where "p5 = (if c mod 8 = 0 \<and> c \<noteq> 256 then inc_v_horzpos p4 else p4)"
  define p6 where "p6 = (if c = 256 then inc_v_vertpos p5 else p5)"
  define q where "q = (if 1 \<le> c \<and> c \<le> 256 \<or> 321 \<le> c \<and> c \<le> 340 then p6 else p)"
  define r where "r = (if c = 257 then copy_v_horzpos q else q)"
  have "keeps p2 p3" "keeps p3 p4" "keeps p4 p5" "keeps p5 p6"
    by (simp_all add: p3_def p4_def p5_def p6_def)
  then have "keeps p p6" using k by (blast intro: keeps_trans)
  then have "keeps p q" by (simp add: q_def)
  moreover have "keeps q r" by (simp add: r_def)
  ultimately have "keeps p r" by (rule keeps_trans)
  moreover have "ccycle (P x) c p = Some r"
    unfolding ccycle_def p1(1) bind.bind_lunit p2(1) Let_def p3_def [symmetric] p4_def [symmetric]
      p5_def [symmetric] p6_def [symmetric] by (simp add: q_def r_def)
  ultimately show ?thesis by blast
qed

lemma cyclefunc_total:
  assumes "good x" "ppu_ok p" "c = p_cycles p mod 341" "p_lines p mod 262 \<le> 239 \<or> p_lines p mod 262 = 261"
  shows "\<exists>p'. run_cyclefunc (P x) (cycletab ! c) p = Some p' \<and> keeps p p'"
  using ccycle_total [OF assms] assms(3) by (simp add: cycletab_nth)

lemma lcycle_total:
  assumes "good x" "ppu_ok p"
  shows "\<exists>q. lcycle (P x) (p_lines p mod 262) (p_cycles p mod 341) p e = Some (q, if at_nmi p then signal e else e) \<and>
    (if at_frame_end p then \<exists>r. keeps p r \<and> begin_frame r = Some q else keeps p q)"
proof -
  let ?l = "p_lines p mod 262" and ?c = "p_cycles p mod 341"
  have c: "?c \<le> 340" using mod_less_divisor [of 341 "p_cycles p"] by linarith
  consider (vis) "?l < 240" | (nmi) "?l = 241" | (pre) "?l = 261" | (idle) "?l = 240 \<or> 241 < ?l \<and> ?l \<noteq> 261"
    by linarith
  then show ?thesis
  proof cases
    case vis
    with cyclefunc_total [OF assms refl] c show ?thesis
      by (auto simp: lcycle_def at_nmi_def at_frame_end_def)
  next
    case nmi
    with c show ?thesis
      by (auto simp: lcycle_def at_nmi_def at_frame_end_def vblank_begin_def callback)
  next
    case idle
    with c show ?thesis by (auto simp: lcycle_def at_nmi_def at_frame_end_def)
  next
    case pre
    with cyclefunc_total [OF assms refl] obtain p1 where
      p1: "run_cyclefunc (P x) (cycletab ! ?c) p = Some p1" "keeps p p1" by auto
    define p2 where "p2 = (if ?c = 1 then vblank_end p1 else p1)"
    define p3 where "p3 = (if 280 \<le> ?c \<and> ?c \<le> 304 then copy_v_vertpos p2 else p2)"
    have "keeps p1 p2" "keeps p2 p3" by (simp_all add: p2_def p3_def)
    with p1 have k: "keeps p p3" by (blast intro: keeps_trans)
    have r: "lcycle (P x) ?l ?c p e =
        do { q \<leftarrow> (if ?c = 340 then begin_frame p3 else Some p3); Some (q, e) }"
      using pre c by (simp add: lcycle_def p1 p2_def p3_def Let_def)
    have "\<exists>q. begin_frame p3 = Some q" if "?c = 340"
      using that pre k by (simp add: begin_frame_def keeps_def same_timing_def Let_def)
    then show ?thesis using pre k unfolding r
      by (cases "?c = 340") (auto simp: at_nmi_def at_frame_end_def)
  qed
qed

lemma tick_ok: "screen_ok p \<Longrightarrow> fine_ok p \<Longrightarrow> timing_ok (tick p) \<Longrightarrow> ppu_ok (tick p)"
  by (simp add: ppu_ok_def screen_ok_def fine_ok_def tick_def Let_def)

text \<open>A step of the unit: it has a result, keeps the invariant, moves the counters on, and calls
  the interrupt callback exactly at line 241, cycle 1.\<close>

lemma ppu_run_step:
  assumes "good x" "ppu_ok p"
  shows "\<exists>p'. ppu_run (P x) p e = Some (p', if at_nmi p then signal e else e) \<and> ppu_ok p' \<and>
    p_cycles p' = (if at_frame_end p \<and> p_odd_frame p then 1 else p_cycles p + 1) \<and>
    has_screen p' = has_screen p"
proof -
  have t: "timing_ok p" "screen_ok p" "fine_ok p" using assms(2) by (simp_all add: ppu_ok_def)
  obtain q where q: "lcycle (P x) (p_lines p mod 262) (p_cycles p mod 341) p e = Some (q, if at_nmi p then signal e else e)"
    "if at_frame_end p then \<exists>r. keeps p r \<and> begin_frame r = Some q else keeps p q"
    using lcycle_total [OF assms] by blast
  have run: "ppu_run (P x) p e = Some (tick q, if at_nmi p then signal e else e)"
    by (simp add: ppu_run_def q tick_def Let_def)
  have screen: "has_screen (tick q) = has_screen p"
    using q(2) by (auto simp: tick_def Let_def keeps_def begin_frame_def has_screen_def split: if_splits)
  show ?thesis
  proof (cases "at_frame_end p")
    case False
    then have k: "keeps p q" using q by simp
    then have q': "timing_ok q" "screen_ok q" "fine_ok q" "\<not> at_frame_end q" "p_cycles q = p_cycles p"
      using keeps_ok [OF k assms(2)] False by (simp_all add: ppu_ok_def keeps_def same_timing_def at_frame_end_def)
    then show ?thesis using run screen False tick_ok tick_within_frame tick_counters by simp
  next
    case True
    then obtain r where r: "keeps p r" "begin_frame r = Some q" using q by auto
    then have r': "timing_ok r" "screen_ok r" "fine_ok r" "at_frame_end r" "p_cycles r = p_cycles p"
      "p_odd_frame r = p_odd_frame p"
      using keeps_ok [OF r(1) assms(2)] True by (simp_all add: ppu_ok_def keeps_def same_timing_def at_frame_end_def)
    have "screen_ok q" "fine_ok q" using r(2) r'(2,3)
      by (auto simp: begin_frame_def screen_ok_def fine_ok_def Let_def split: if_splits)
    then show ?thesis using run screen True tick_ok tick_frame_end [OF r'(1,4) r(2)] r' by simp
  qed
qed

end

lemma until_nmi_step:
  assumes "timing_ok p" "\<not> at_nmi p"
    and "p_cycles p' = (if at_frame_end p \<and> p_odd_frame p then 1 else p_cycles p + 1)"
  shows "until_nmi p' < until_nmi p"
proof -
  define m where "m = frame_pos p"
  have m: "m < 89342" "m \<noteq> 82182" using assms(2) by (simp_all add: m_def frame_pos_def at_nmi_pos [OF assms(1)])
  have "frame_pos p' = (if m = 89341 then (if p_odd_frame p then 1 else 0) else m + 1)"
    using assms(3) at_frame_end_pos [OF assms(1)]
    by (auto simp: m_def frame_pos_def mod_Suc)
  then show ?thesis using m
    unfolding until_nmi_def m_def [symmetric] by auto
qed

lemma until_nmi_bound: "until_nmi p < 89342"
proof -
  have "frame_pos p < 89342" by (simp add: frame_pos_def)
  then show ?thesis by (auto simp: until_nmi_def)
qed

lemma ppu_ok_power:
  assumes "screen_ok p"
  shows "ppu_ok (ppu_power p)" "ppu_ok (ppu_reset p)"
  using assms by (simp_all add: ppu_ok_def timing_ok_def screen_ok_def fine_ok_def ppu_power_def ppu_reset_def)

end
