(* ===== verification/PpuTheorems.thy ===== *)
theory PpuTheorems
  imports PpuMain
begin

text \<open>
  The registers and the scroll address of the picture unit: writes to the two-step registers,
  reading back what was written, the increments of the address as positions in the plane of
  the name tables, the copies from the temporary address, and the mirroring of name tables.
\<close>

unbundle bit_operations_syntax

section \<open>The fields of the address\<close>

interpretation fine_y_field: bit_field "fine_y" "\<lambda>a v. set_fine_y v a" 3
  using bit_field_bf [of 12 3, where ?'a = 16] by (simp add: fine_y_def set_fine_y_def [abs_def])

interpretation nt_field: bit_field "nt" "\<lambda>a v. set_nt v a" 2
  using bit_field_bf [of 10 2, where ?'a = 16] by (simp add: nt_def set_nt_def [abs_def])

interpretation coarse_y_field: bit_field "coarse_y" "\<lambda>a v. set_coarse_y v a" 5
  using bit_field_bf [of 5 5, where ?'a = 16] by (simp add: coarse_y_def set_coarse_y_def [abs_def])

interpretation coarse_x_field: bit_field "coarse_x" "\<lambda>a v. set_coarse_x v a" 5
  using bit_field_bf [of 0 5, where ?'a = 16] by (simp add: coarse_x_def set_coarse_x_def [abs_def])

lemmas field_put_defs = set_fine_y_def set_nt_def set_coarse_y_def set_coarse_x_def

lemma bit_fields:
  "bit (fine_y a) n \<longleftrightarrow> n < 3 \<and> bit a (12 + n)" "bit (nt a) n \<longleftrightarrow> n < 2 \<and> bit a (10 + n)"
  "bit (coarse_y a) n \<longleftrightarrow> n < 5 \<and> bit a (5 + n)" "bit (coarse_x a) n \<longleftrightarrow> n < 5 \<and> bit a n"
  by (simp_all add: field_get_defs bit_bf_get)

lemma bit_field_puts:
  "bit (set_fine_y v a) n \<longleftrightarrow> n < 16 \<and> (if 12 \<le> n \<and> n < 15 then bit v (n - 12) else bit a n)"
  "bit (set_nt v a) n \<longleftrightarrow> n < 16 \<and> (if 10 \<le> n \<and> n < 12 then bit v (n - 10) else bit a n)"
  "bit (set_coarse_y v a) n \<longleftrightarrow> n < 16 \<and> (if 5 \<le> n \<and> n < 10 then bit v (n - 5) else bit a n)"
  "bit (set_coarse_x v a) n \<longleftrightarrow> n < 16 \<and> (if n < 5 then bit v n else bit a n)"
  by (simp_all add: field_put_defs bit_bf_set)

lemma fields_other [simp]:
  "nt (set_fine_y v a) = nt a" "coarse_y (set_fine_y v a) = coarse_y a" "coarse_x (set_fine_y v a) = coarse_x a"
  "fine_y (set_nt v a) = fine_y a" "coarse_y (set_nt v a) = coarse_y a" "coarse_x (set_nt v a) = coarse_x a"
  "fine_y (set_coarse_y v a) = fine_y a" "nt (set_coarse_y v a) = nt a" "coarse_x (set_coarse_y v a) = coarse_x a"
  "fine_y (set_coarse_x v a) = fine_y a" "nt (set_coarse_x v a) = nt a" "coarse_y (set_coarse_x v a) = coarse_y a"
  by (simp_all add: field_get_defs field_put_defs bf_get_set_disjoint)

lemma fields_same [simp]:
  "fine_y (set_fine_y v a) = ucast v AND mask 3" "nt (set_nt v a) = ucast v AND mask 2"
  "coarse_y (set_coarse_y v a) = ucast v AND mask 5" "coarse_x (set_coarse_x v a) = ucast v AND mask 5"
  by (simp_all add: fine_y_field.get_put nt_field.get_put coarse_y_field.get_put coarse_x_field.get_put)

lemma field_bounds:
  "unat (fine_y a) < 8" "unat (nt a) < 4" "unat (coarse_y a) < 32" "unat (coarse_x a) < 32"
  using bf_get_less [of 3 12 a] bf_get_less [of 2 10 a] bf_get_less [of 5 5 a] bf_get_less [of 5 0 a]
  by (simp_all add: field_get_defs)

lemma bf_ops:
  "bf_inc 0 5 a = set_coarse_x (ucast (coarse_x a + 1)) a" "bf_inc 12 3 a = set_fine_y (ucast (fine_y a + 1)) a"
  "bf_xor v 10 2 a = set_nt (ucast (nt a XOR v)) a" "bf_copy 0 5 a t = set_coarse_x t a"
  "bf_copy 5 5 a t = set_coarse_y t a" "bf_copy 12 3 a t = set_fine_y t a"
  by (simp_all add: bf_inc_def bf_xor_def bf_modify_def field_get_defs field_put_defs bf_copy_bf_set)

section \<open>The address as a position\<close>

text \<open>Tiles from the left edge of the plane, 64 tiles wide, and pixel rows from its top, 480 rows
  high.\<close>

definition hpos :: "uint16 \<Rightarrow> nat" where
  "hpos a = 32 * of_bool (bit a 10) + unat (coarse_x a)"

definition vpos :: "uint16 \<Rightarrow> nat" where
  "vpos a = 240 * of_bool (bit a 11) + 8 * unat (coarse_y a) + unat (fine_y a)"

text \<open>Everything of the address that the horizontal, respectively the vertical position leaves out.\<close>

definition same_vertical :: "uint16 \<Rightarrow> uint16 \<Rightarrow> bool" where
  "same_vertical a b \<longleftrightarrow> bit a 11 = bit b 11 \<and> coarse_y a = coarse_y b \<and> fine_y a = fine_y b"

definition same_horizontal :: "uint16 \<Rightarrow> uint16 \<Rightarrow> bool" where
  "same_horizontal a b \<longleftrightarrow> bit a 10 = bit b 10 \<and> coarse_x a = coarse_x b"

lemma bit_set_nt_xor:
  "bit (set_nt (ucast (nt a XOR 1)) b) 10 = (\<not> bit a 10)" "bit (set_nt (ucast (nt a XOR 1)) b) 11 = bit a 11"
  "bit (set_nt (ucast (nt a XOR 2)) b) 10 = bit a 10" "bit (set_nt (ucast (nt a XOR 2)) b) 11 = (\<not> bit a 11)"
  by (simp_all add: bit_field_puts bit_fields bit_simps)

lemma bit_other_puts [simp]:
  "bit (set_coarse_x v a) 10 = bit a 10" "bit (set_coarse_x v a) 11 = bit a 11"
  "bit (set_coarse_y v a) 10 = bit a 10" "bit (set_coarse_y v a) 11 = bit a 11"
  "bit (set_fine_y v a) 10 = bit a 10" "bit (set_fine_y v a) 11 = bit a 11"
  by (simp_all add: bit_field_puts)

lemma inc_x_position:
  "hpos (inc_x a) = (hpos a + 1) mod 64 \<and> same_vertical (inc_x a) a"
proof (cases "coarse_x a = 31")
  case True
  then have "unat (coarse_x a) = 31" by simp
  moreover have "inc_x a = set_nt (ucast (nt a XOR 1)) (set_coarse_x 0 a)"
    using True by (simp add: inc_x_def bf_ops)
  ultimately show ?thesis by (simp add: hpos_def same_vertical_def bit_set_nt_xor)
next
  case False
  then have "unat (coarse_x a) \<noteq> 31" by (simp add: word_unat_eq_iff)
  then have lt: "unat (coarse_x a) + 1 < 32" using field_bounds(4) [of a] by linarith
  have e: "inc_x a = set_coarse_x (ucast (coarse_x a + 1)) a" using False by (simp only: inc_x_def bf_ops if_False)
  have "unat (coarse_x (inc_x a)) = unat (coarse_x a) + 1"
    unfolding e using coarse_x_field.modify_increments [of a] lt by simp
  then have "hpos (inc_x a) = hpos a + 1" by (simp add: hpos_def e)
  moreover have "hpos a + 1 < 64" using lt by (simp add: hpos_def)
  ultimately show ?thesis by (simp add: same_vertical_def e)
qed

lemma inc_y_position:
  assumes "unat (coarse_y a) < 30"
  shows "vpos (inc_y a) = (vpos a + 1) mod 480 \<and> same_horizontal (inc_y a) a \<and> unat (coarse_y (inc_y a)) < 30"
proof (cases "fine_y a < 7")
  case True
  then have lt: "unat (fine_y a) + 1 < 8" by (simp add: word_less_nat_alt)
  have e: "inc_y a = set_fine_y (ucast (fine_y a + 1)) a" using True by (simp only: inc_y_def bf_ops if_True)
  have "unat (fine_y (inc_y a)) = unat (fine_y a) + 1"
    unfolding e using fine_y_field.modify_increments [of a] lt by simp
  then have "vpos (inc_y a) = vpos a + 1" by (simp add: vpos_def e)
  moreover have "vpos a + 1 < 480" using lt assms by (simp add: vpos_def)
  ultimately show ?thesis using assms by (simp add: same_horizontal_def e)
next
  case False
  then have f7: "unat (fine_y a) = 7" using field_bounds(1) [of a] by (simp add: word_less_nat_alt)
  let ?a = "set_fine_y 0 a" and ?y = "ucast (coarse_y a) :: uint16"
  have y: "unat ?y = unat (coarse_y a)"
    using assms by (simp add: unsigned_ucast_eq take_bit_nat_eq_self)
  show ?thesis
  proof (cases "unat (coarse_y a) = 29")
    case True
    then have "?y = 29" using y by (simp add: word_unat_eq_iff)
    then have e: "inc_y a = set_coarse_y 0 (set_nt (ucast (nt a XOR 2)) ?a)"
      using False by (simp add: inc_y_def bf_ops)
    show ?thesis using True f7 by (simp add: e vpos_def same_horizontal_def bit_set_nt_xor)
  next
    case ne: False
    then have lt: "unat (coarse_y a) < 29" using assms by linarith
    then have "?y \<noteq> 29" "?y \<noteq> 31" using y ne by auto
    then have e: "inc_y a = set_coarse_y (?y + 1) ?a" using False by (simp add: inc_y_def)
    have "unat (?y + 1) = unat (coarse_y a) + 1" using lt y by (simp add: unat_word_ariths)
    then have "unat (coarse_y (inc_y a)) = unat (coarse_y a) + 1"
      using lt by (simp add: e unsigned_ucast_eq take_bit_eq_mask [symmetric] unsigned_take_bit_eq take_bit_nat_eq_self)
    then show ?thesis using lt f7 by (simp add: vpos_def same_horizontal_def e)
  qed
qed

lemma addr_with [simp]: "addr_of (with_addr f p) = f (addr_of p)" "tmp_of (with_addr f p) = tmp_of p"
  "tmp_of (with_tmp f p) = f (tmp_of p)" "addr_of (with_tmp f p) = addr_of p"
  "addr_of (with_io g p) = addr_of p" "tmp_of (with_io g p) = tmp_of p"
  "p_io (with_addr f p) = p_io p" "p_io (with_tmp f p) = p_io p" "p_io (with_io g p) = g (p_io p)"
  "v_fine_x (p_vram (with_addr f p)) = v_fine_x (p_vram p)" "v_fine_x (p_vram (with_tmp f p)) = v_fine_x (p_vram p)"
  "v_fine_x (p_vram (with_io g p)) = v_fine_x (p_vram p)"
  by (simp_all add: with_addr_def with_tmp_def with_vram_def with_io_def)

text \<open>
  The horizontal increment moves one tile to the right in a plane of two name tables: with
  the background shown the position, the low name table bit above the five bits of coarse X, is
  incremented modulo 64 and no vertical bit changes; otherwise nothing changes.
\<close>

theorem inc_v_horzpos_position:
  "if io_bg_show (p_io p)
   then hpos (addr_of (inc_v_horzpos p)) = (hpos (addr_of p) + 1) mod 64 \<and>
        same_vertical (addr_of (inc_v_horzpos p)) (addr_of p)
   else inc_v_horzpos p = p"
  by (simp add: inc_v_horzpos_def inc_x_position)

text \<open>
  The vertical increment moves one row down in a plane of two name tables of 240 rows each:
  from a row of a name table (coarse Y below 30) the position is incremented modulo 480, coarse
  Y stays below 30 and no horizontal bit changes.
\<close>

theorem inc_v_vertpos_position:
  assumes "io_bg_show (p_io p)" "unat (coarse_y (addr_of p)) < 30"
  shows "vpos (addr_of (inc_v_vertpos p)) = (vpos (addr_of p) + 1) mod 480 \<and>
    same_horizontal (addr_of (inc_v_vertpos p)) (addr_of p) \<and>
    unat (coarse_y (addr_of (inc_v_vertpos p))) < 30"
  using inc_y_position [OF assms(2)] assms(1) by (simp add: inc_v_vertpos_def)

definition ppu_zero :: ppu where
  "ppu_zero = \<lparr>p_screen = None, p_vrammem = (\<lambda>_. 0), p_oammem = (\<lambda>_. 0), p_palmem = (\<lambda>_. 0),
     p_cycles = 0, p_lines = 0, p_odd_frame = False,
     p_io = \<lparr>io_latch = 0, io_vram_inc = False, io_sp_pt_addr = False, io_bg_pt_addr = False,
       io_sp_size = False, io_ext_bus_dir = False, io_nmi_enabled = False, io_grey = False,
       io_bg_show_left = False, io_sp_show_left = False, io_bg_show = False, io_sp_show = False,
       io_red = False, io_green = False, io_blue = False, io_sp_overflow = False,
       io_sp_zero_hit = False, io_vblank = False, io_oam_addr = 0, io_scroll_latch = False,
       io_data_buf = 0\<rparr>,
     p_vram = \<lparr>v_addr = 0, v_tmp = 0, v_fine_x = 0\<rparr>,
     p_tile = \<lparr>t_nt = 0, t_attr = 0, t_low = 0, t_high = 0\<rparr>,
     p_shift = \<lparr>s_tlow = 0, s_thigh = 0, s_alow = 0, s_ahigh = 0, s_feed_low = False, s_feed_high = False\<rparr>\<rparr>"

text \<open>The last row, 479, followed by the first.\<close>

theorem inc_v_vertpos_position_witness:
  "vpos (addr_of (inc_v_vertpos (write_mask 0x08 (with_addr (\<lambda>_. 0x7BA0) ppu_zero)))) = 0"
proof -
  let ?p = "write_mask 0x08 (with_addr (\<lambda>_. 0x7BA0) ppu_zero)"
  have a: "addr_of ?p = 0x7BA0" "io_bg_show (p_io ?p)" by (simp_all add: write_mask_def)
  have f: "coarse_y 0x7BA0 = 29" "fine_y 0x7BA0 = 7" "bit (0x7BA0 :: uint16) 11"
    by (simp_all add: field_get_defs bf_get_def get_mask_nbits_def)
  have "unat (coarse_y (addr_of ?p)) < 30" by (simp add: a f)
  from inc_v_vertpos_position [OF a(2) this] show ?thesis by (simp add: a f vpos_def)
qed

section \<open>Copies from the temporary address\<close>

lemma bit_setbit: "bit (setbit w b v) n \<longleftrightarrow> n < 64 \<and> (if n = b then v else bit w n)"
  by (auto simp: setbit_def bit_setbits bit_simps)

lemma and_1_bit: "(w AND 1 \<noteq> 0) = bit w 0" for w :: uint64
  using and_exp_eq_0_iff_not_bit [of w 0] by simp

lemma nt_bits:
  "bit (set_nt (ucast (setbit (nt a) 0 v)) b) 10 = v" "bit (set_nt (ucast (setbit (nt a) 0 v)) b) 11 = bit a 11"
  "bit (set_nt (ucast (setbit (nt a) (Suc 0) v)) b) 11 = v" "bit (set_nt (ucast (setbit (nt a) (Suc 0) v)) b) 10 = bit a 10"
  by (simp_all add: bit_field_puts bit_fields bit_simps bit_setbit)

lemma mask_idem: "ucast t AND mask 5 = coarse_x t" for t :: uint16
  by (intro bit_word_eqI) (auto simp: bit_fields bit_simps dest: bit_imp_le_length)

lemma copy_x_position: "hpos (copy_x t a) = hpos t \<and> same_vertical (copy_x t a) a"
  by (simp add: copy_x_def bf_ops Let_def hpos_def same_vertical_def nt_bits mask_idem and_1_bit bit_fields)

text \<open>
  At the end of a line the horizontal position is reset to that of the temporary address:
  \<^verbatim>\<open>copy_v_horzpos\<close> copies coarse X and the low name table bit and nothing else.
\<close>

theorem copy_v_horzpos_copies:
  "if io_bg_show (p_io p)
   then hpos (addr_of (copy_v_horzpos p)) = hpos (tmp_of p) \<and>
        same_vertical (addr_of (copy_v_horzpos p)) (addr_of p)
   else copy_v_horzpos p = p"
  by (simp add: copy_v_horzpos_def copy_x_position)

text \<open>
  C20: \<^verbatim>\<open>copy_v_vertpos\<close> does not copy the vertical position of the temporary address: the assignment
  from one bit field to another passes the whole word of the source, so coarse Y and fine Y
  both receive the low bits of the source, its coarse X. Only the name table bit is the one of
  the temporary address.
\<close>

theorem copy_v_vertpos_copies_coarse_x:
  "if io_bg_show (p_io p)
   then coarse_y (addr_of (copy_v_vertpos p)) = coarse_x (tmp_of p) \<and>
        fine_y (addr_of (copy_v_vertpos p)) = coarse_x (tmp_of p) AND 7 \<and>
        bit (addr_of (copy_v_vertpos p)) 11 = bit (tmp_of p) 11 \<and>
        same_horizontal (addr_of (copy_v_vertpos p)) (addr_of p)
   else copy_v_vertpos p = p"
proof -
  have m: "ucast t AND mask 3 = coarse_x t AND 7" for t :: uint16
  proof -
    have "ucast t AND mask 3 = coarse_x t AND mask 3"
      by (intro bit_word_eqI) (auto simp: bit_fields bit_simps dest: bit_imp_le_length)
    then show ?thesis by (simp add: mask_eq_exp_minus_1)
  qed
  show ?thesis
    by (simp add: copy_v_vertpos_def copy_y_def bf_ops Let_def same_horizontal_def nt_bits mask_idem m
        and_1_bit bit_fields bit_simps)
qed

section \<open>The two-step registers\<close>

lemma latch_toggle [simp]:
  "io_scroll_latch (p_io (toggle_latch p)) = (\<not> io_scroll_latch (p_io p))"
  "p_vram (toggle_latch p) = p_vram p"
  by (simp_all add: toggle_latch_def with_io_def)

lemma writereg_addr: "writereg P 0x2006 d p = Some (write_addr d (with_io (\<lambda>i. i\<lparr>io_latch := d\<rparr>) p))"
  and writereg_scroll: "writereg P 0x2005 d p = Some (write_scroll d (with_io (\<lambda>i. i\<lparr>io_latch := d\<rparr>) p))"
  and writereg_ctrl: "writereg P 0x2000 d p = Some (write_ctrl d (with_io (\<lambda>i. i\<lparr>io_latch := d\<rparr>) p))"
  and writereg_mask: "writereg P 0x2001 d p = Some (write_mask d (with_io (\<lambda>i. i\<lparr>io_latch := d\<rparr>) p))"
  by (simp_all add: writereg_def Let_def)

lemma addr_bits:
  "bit (ucast (setbits (ucast (ucast (setbit (ucast (ucast (setbits (ucast (t :: uint16)) 8 6 (ucast (hi AND mask 6 :: uint8))) :: uint16)) 14 False)
     :: uint16)) 0 8 (ucast (lo :: uint8))) :: uint16) n \<longleftrightarrow>
   n < 16 \<and> (if n < 8 then bit lo n else if n < 14 then bit hi (n - 8) else n = 15 \<and> bit t 15)"
  by (cases "n = 15") (auto simp: bit_simps bit_setbits bit_setbit dest: bit_imp_le_length)

text \<open>
  Two writes to \<^verbatim>\<open>PPUADDR\<close> with the toggle clear set the video address to the two bytes, high
  byte first, cut to 14 bits, and clear the toggle again. (Bit 15 of the temporary address is
  never set by any register write.)
\<close>

theorem ppuaddr_two_writes:
  assumes "\<not> io_scroll_latch (p_io p)" "\<not> bit (tmp_of p) 15"
  shows "\<exists>q r. writereg P 0x2006 hi p = Some q \<and> writereg P 0x2006 lo q = Some r \<and>
    addr_of r = mk16 (hi AND 0x3F) lo \<and> \<not> io_scroll_latch (p_io r) \<and> addr_of r < 0x4000"
proof -
  let ?q = "write_addr hi (with_io (\<lambda>i. i\<lparr>io_latch := hi\<rparr>) p)"
  let ?r = "write_addr lo (with_io (\<lambda>i. i\<lparr>io_latch := lo\<rparr>) ?q)"
  have q: "tmp_of ?q = ucast (setbit (ucast (ucast (setbits (ucast (tmp_of p)) 8 6 (ucast (hi AND 0x3F))) :: uint16)) 14 False)"
    "io_scroll_latch (p_io ?q)"
    using assms by (simp_all add: write_addr_def)
  have r: "addr_of ?r = ucast (setbits (ucast (tmp_of ?q)) 0 8 (ucast lo))" "\<not> io_scroll_latch (p_io ?r)"
    using q(2) by (simp_all add: write_addr_def [of lo] Let_def)
  have m6: "(0x3F :: uint8) = mask 6" by (simp add: mask_eq_exp_minus_1)
  have "addr_of ?r = mk16 (hi AND 0x3F) lo"
    unfolding r(1) q(1) m6
    by (rule bit_word_eqI, unfold addr_bits) (use assms in \<open>auto simp: bit_mk16 bit_simps\<close>)
  moreover have "mk16 (hi AND 0x3F) lo < 0x4000"
    by (rule less_0x4000) (simp_all add: bit_mk16 m6 bit_simps)
  ultimately show ?thesis using r(2) by (auto simp: writereg_addr)
qed

definition ports_zero :: "'e ppu_ports" where
  "ports_zero = \<lparr>vread = (\<lambda>a p. Some 0), vwrite = (\<lambda>a v p. Some p), nmi_callback = None, neg_shift = (\<lambda>_. 0)\<rparr>"

theorem ppuaddr_two_writes_witness:
  "\<exists>q r. writereg (ports_zero :: unit ppu_ports) 0x2006 0xFF ppu_zero = Some q \<and>
    writereg (ports_zero :: unit ppu_ports) 0x2006 0x12 q = Some r \<and>
    addr_of r = mk16 (0xFF AND 0x3F) 0x12 \<and> \<not> io_scroll_latch (p_io r) \<and> addr_of r < 0x4000"
  by (rule ppuaddr_two_writes) (simp_all add: ppu_zero_def)

lemma byte_split:
  "(ucast (ucast (drop_bit 3 d AND 0x1F :: uint8) :: uint16) AND mask 5 :: uint64) = ucast (drop_bit 3 d)"
  "(ucast (ucast (d AND 0x7 :: uint8) :: uint16) AND mask 3 :: uint64) = ucast (d AND 7)"
proof -
  have m: "(0x1F :: uint8) = mask 5" "(0x7 :: uint8) = mask 3" by (simp_all add: mask_eq_exp_minus_1)
  show "(ucast (ucast (drop_bit 3 d AND 0x1F :: uint8) :: uint16) AND mask 5 :: uint64) = ucast (drop_bit 3 d)"
    "(ucast (ucast (d AND 0x7 :: uint8) :: uint16) AND mask 3 :: uint64) = ucast (d AND 7)"
    unfolding m by (intro bit_word_eqI; auto simp: bit_simps dest: bit_imp_le_length)+
qed

text \<open>
  Two writes to \<^verbatim>\<open>PPUSCROLL\<close> with the toggle clear store the pixel offsets: the first byte in
  coarse X (high five bits) and fine X (low three), the second in coarse Y and fine Y of the
  temporary address; its name table bits and the current address stay, the toggle is clear
  again.
\<close>

theorem ppuscroll_two_writes:
  assumes "\<not> io_scroll_latch (p_io p)"
  shows "\<exists>q r. writereg P 0x2005 x p = Some q \<and> writereg P 0x2005 y q = Some r \<and>
    coarse_x (tmp_of r) = ucast (drop_bit 3 x) \<and> v_fine_x (p_vram r) = x AND 7 \<and>
    coarse_y (tmp_of r) = ucast (drop_bit 3 y) \<and> fine_y (tmp_of r) = ucast (y AND 7) \<and>
    nt (tmp_of r) = nt (tmp_of p) \<and> addr_of r = addr_of p \<and> \<not> io_scroll_latch (p_io r)"
proof -
  let ?q = "write_scroll x (with_io (\<lambda>i. i\<lparr>io_latch := x\<rparr>) p)"
  let ?r = "write_scroll y (with_io (\<lambda>i. i\<lparr>io_latch := y\<rparr>) ?q)"
  have q: "tmp_of ?q = set_coarse_x (ucast (drop_bit 3 x AND 0x1F)) (tmp_of p)" "v_fine_x (p_vram ?q) = x AND 7"
    "addr_of ?q = addr_of p" "io_scroll_latch (p_io ?q)"
    using assms by (simp_all add: write_scroll_def with_vram_def with_tmp_def)
  have r: "tmp_of ?r = set_fine_y (ucast (y AND 7)) (set_coarse_y (ucast (drop_bit 3 y AND 0x1F)) (tmp_of ?q))"
    "v_fine_x (p_vram ?r) = v_fine_x (p_vram ?q)" "addr_of ?r = addr_of ?q" "\<not> io_scroll_latch (p_io ?r)"
    using q(4) by (simp_all add: write_scroll_def [of y])
  show ?thesis
    unfolding writereg_scroll option.inject
    by (intro exI [of _ ?q] exI [of _ ?r] conjI refl) (simp_all only: r q fields_same fields_other byte_split not_True_eq_False not_False_eq_True)
qed

theorem ppuscroll_two_writes_witness:
  "\<exists>q r. writereg (ports_zero :: unit ppu_ports) 0x2005 0x7D ppu_zero = Some q \<and>
    writereg (ports_zero :: unit ppu_ports) 0x2005 0x5E q = Some r \<and>
    coarse_x (tmp_of r) = ucast (drop_bit 3 (0x7D :: uint8)) \<and> v_fine_x (p_vram r) = 0x7D AND 7 \<and>
    coarse_y (tmp_of r) = ucast (drop_bit 3 (0x5E :: uint8)) \<and> fine_y (tmp_of r) = ucast (0x5E AND 7 :: uint8) \<and>
    nt (tmp_of r) = nt (tmp_of ppu_zero) \<and> addr_of r = addr_of ppu_zero \<and> \<not> io_scroll_latch (p_io r)"
  by (rule ppuscroll_two_writes) (simp add: ppu_zero_def)

section \<open>Reading back\<close>

lemma byte_of_bits:
  "of_bool (bit d 0) OR push_bit 1 (of_bool (bit d 1)) OR push_bit 2 (of_bool (bit d 2)) OR
   push_bit 3 (of_bool (bit d 3)) OR push_bit 4 (of_bool (bit d 4)) OR push_bit 5 (of_bool (bit d 5)) OR
   push_bit 6 (of_bool (bit d 6)) OR push_bit 7 (of_bool (bit d 7)) = d" for d :: uint8
  by (rule uint8_eqI) (simp_all add: bit_simps)

lemma byte_of_bits2:
  fixes d :: uint8
  assumes "\<And>k. bit e k \<longleftrightarrow> k < 2 \<and> bit d k"
  shows "e OR push_bit 2 (of_bool (bit d 2)) OR
   push_bit 3 (of_bool (bit d 3)) OR push_bit 4 (of_bool (bit d 4)) OR push_bit 5 (of_bool (bit d 5)) OR
   push_bit 6 (of_bool (bit d 6)) OR push_bit 7 (of_bool (bit d 7)) = d"
  by (rule uint8_eqI) (simp_all add: bit_simps assms)

lemma ctrl_fields:
  "io_vram_inc (p_io (write_ctrl d p)) = bit d 2" "io_sp_pt_addr (p_io (write_ctrl d p)) = bit d 3"
  "io_bg_pt_addr (p_io (write_ctrl d p)) = bit d 4" "io_sp_size (p_io (write_ctrl d p)) = bit d 5"
  "io_ext_bus_dir (p_io (write_ctrl d p)) = bit d 6" "io_nmi_enabled (p_io (write_ctrl d p)) = bit d 7"
  "nt (tmp_of (write_ctrl d p)) = ucast (ucast (d AND 3) :: uint16) AND mask 2"
  unfolding write_ctrl_def and_mask_bit by simp_all

lemma mask_fields:
  "io_grey (p_io (write_mask d p)) = bit d 0" "io_bg_show_left (p_io (write_mask d p)) = bit d 1"
  "io_sp_show_left (p_io (write_mask d p)) = bit d 2" "io_bg_show (p_io (write_mask d p)) = bit d 3"
  "io_sp_show (p_io (write_mask d p)) = bit d 4" "io_red (p_io (write_mask d p)) = bit d 5"
  "io_green (p_io (write_mask d p)) = bit d 6" "io_blue (p_io (write_mask d p)) = bit d 7"
  unfolding write_mask_def and_mask_bit by simp_all

text \<open>
  \<^verbatim>\<open>PPUCTRL\<close> and \<^verbatim>\<open>PPUMASK\<close> hold what was written: after a write, the read without side effects
  that the debugger uses returns the written byte, for every byte.
\<close>

theorem ctrl_mask_roundtrip:
  "Option.bind (writereg P 0x2000 d p) (readreg_no_sideeff P 0x2000) = Some d \<and>
   Option.bind (writereg P 0x2001 d p) (readreg_no_sideeff P 0x2001) = Some d"
proof -
  have m: "(0x3 :: uint8) = mask 2" by (simp add: mask_eq_exp_minus_1)
  have n: "bit (ucast (ucast (ucast (d AND 3) :: uint16) AND mask 2 :: uint64) :: uint8) k \<longleftrightarrow> k < 2 \<and> bit d k" for k
    unfolding m by (auto simp: bit_simps dest: bit_imp_le_length)
  have "readreg_no_sideeff P 0x2000 (write_ctrl d q) = Some d" for q
    unfolding readreg_no_sideeff_def Let_def ctrl_fields if_P [OF refl] byte_of_bits2 [OF n] ..
  moreover have "readreg_no_sideeff P 0x2001 (write_mask d q) = Some d" for q
    unfolding readreg_no_sideeff_def Let_def mask_fields byte_of_bits by simp
  ultimately show ?thesis
    by (simp only: writereg_ctrl writereg_mask bind.bind_lunit)
qed

section \<open>Mirroring\<close>

lemma decode_vert: "decode VERT a = Some (a AND 0x7FF)"
  by simp

text \<open>
  With vertical mirroring address bit 11 is ignored, with horizontal mirroring bit 10 is ignored
  and bit 11 selects the upper half of the memory; every decoded address is inside the 2 KiB of
  video memory, so the assertions on it hold.
\<close>

lemma decode_bits:
  "\<exists>v h. decode VERT a = Some v \<and> (\<forall>n. bit v n = (n < 11 \<and> bit a n)) \<and> unat v < VRAM_SIZE \<and>
    decode HORZ a = Some h \<and> (\<forall>n. bit h n = (n < 11 \<and> bit a (if n = 10 then 11 else n))) \<and> unat h < VRAM_SIZE"
proof -
  have m: "(0x7FF :: uint16) = mask 11" "(0xFFF :: uint16) = mask 12" by (simp_all add: mask_eq_exp_minus_1)
  have two: "bit (2 :: uint64) k \<longleftrightarrow> k = 1" for k
    using bit_exp_iff [of 1 k, where ?'a = uint64] by auto
  have g: "bit (drop_bit 1 (getbits x 10 2)) n \<longleftrightarrow> n = 0 \<and> bit x 11" for x n
  proof -
    have "ucast (2 :: uint8) = (2 :: uint64)" by simp
    then show ?thesis unfolding getbits_def bit_drop_bit_eq o_apply bit_and_iff
      by (auto simp: two bit_1_iff)
  qed
  define h :: uint16 where "h = ucast (setbits (ucast (a AND mask 12)) 10 2
      (drop_bit 1 (getbits (ucast (a AND mask 12)) 10 2)))"
  have h: "decode HORZ a = Some h" unfolding h_def decode.simps Let_def m ..
  have hb0: "bit h n \<longleftrightarrow> n < 16 \<and> (if 10 \<le> n \<and> n < 12 then n = 10 \<and> bit a 11 else bit a n \<and> n < 12)" for n
    unfolding h_def unsigned_ucast_eq bit_take_bit_iff bit_setbits g bit_ucast_iff bit_and_iff bit_mask_iff
    by (auto dest: bit_imp_le_length)
  have hb: "bit h n = (n < 11 \<and> bit a (if n = 10 then 11 else n))" for n
    using hb0 [of n] by (cases "n = 10"; cases "n = 11") auto
  have vb: "bit (a AND 0x7FF) n = (n < 11 \<and> bit a n)" for n unfolding m by (auto simp: bit_simps)
  have lt: "unat w < VRAM_SIZE" if "\<And>n. bit w n \<Longrightarrow> n < 11" for w :: uint16
  proof -
    have "take_bit 11 w = w" using that by (intro bit_word_eqI) (auto simp: bit_simps)
    then have "unat w = take_bit 11 (unat w)" by (metis unsigned_take_bit_eq)
    also have "\<dots> < 2 ^ 11" by (rule take_bit_nat_less_exp)
    finally show ?thesis by (simp add: VRAM_SIZE_def)
  qed
  have "unat h < VRAM_SIZE" "unat (a AND 0x7FF) < VRAM_SIZE" by (rule lt, simp only: hb vb)+
  with h hb vb decode_vert [of a] show ?thesis by blast
qed

lemma decode_total: "mir \<noteq> OTHER \<Longrightarrow> \<exists>b. decode mir a = Some b \<and> unat b < VRAM_SIZE"
  using decode_bits [of a] by (cases mir) blast+

text \<open>Two name table addresses that are the same cell of the memory.\<close>

fun same_cell :: "mirroring \<Rightarrow> uint16 \<Rightarrow> uint16 \<Rightarrow> bool" where
  "same_cell VERT a b = (a AND 0x7FF = b AND 0x7FF)"
| "same_cell HORZ a b = (a AND 0xBFF = b AND 0xBFF)"
| "same_cell OTHER a b = False"

lemma decode_same_cell:
  assumes "mir \<noteq> OTHER"
  shows "decode mir a = decode mir b \<longleftrightarrow> same_cell mir a b"
proof (cases mir)
  case HORZ
  have m: "bit (0xBFF :: uint16) n \<longleftrightarrow> n < 12 \<and> n \<noteq> 10" for n
  proof -
    have "(0xBFF :: uint16) = mask 12 XOR push_bit 10 1" by (simp add: mask_eq_exp_minus_1)
    then show ?thesis by (auto simp only: bit_xor_iff bit_mask_iff bit_push_bit_iff bit_1_iff) simp_all
  qed
  from decode_bits [of a] decode_bits [of b] obtain g h where gh: "decode HORZ a = Some g" "decode HORZ b = Some h"
    "\<And>n. bit g n = (n < 11 \<and> bit a (if n = 10 then 11 else n))"
    "\<And>n. bit h n = (n < 11 \<and> bit b (if n = 10 then 11 else n))" by metis
  have "g = h \<longleftrightarrow> (\<forall>n. bit g n = bit h n)" by (auto intro: bit_word_eqI)
  also have "\<dots> \<longleftrightarrow> (\<forall>n. n < 11 \<longrightarrow> bit a (if n = 10 then 11 else n) = bit b (if n = 10 then 11 else n))"
    unfolding gh by blast
  also have "\<dots> \<longleftrightarrow> (\<forall>n. n < 12 \<and> n \<noteq> 10 \<longrightarrow> bit a n = bit b n)" (is "?l \<longleftrightarrow> ?r")
  proof
    assume ?l
    show ?r
    proof (intro allI impI)
      fix n :: nat assume "n < 12 \<and> n \<noteq> 10"
      with \<open>?l\<close> [rule_format, of 10] \<open>?l\<close> [rule_format, of n] show "bit a n = bit b n"
        by (cases "n = 11") auto
    qed
  qed auto
  also have "\<dots> \<longleftrightarrow> a AND 0xBFF = b AND 0xBFF"
  proof
    assume "a AND 0xBFF = b AND 0xBFF"
    then have *: "bit (a AND 0xBFF) n = bit (b AND 0xBFF) n" for n by simp
    show "\<forall>n. n < 12 \<and> n \<noteq> 10 \<longrightarrow> bit a n = bit b n" using * [unfolded bit_and_iff m] by blast
  next
    assume *: "\<forall>n. n < 12 \<and> n \<noteq> 10 \<longrightarrow> bit a n = bit b n"
    show "a AND 0xBFF = b AND 0xBFF" by (rule bit_word_eqI, unfold bit_and_iff m) (use * in blast)
  qed
  finally show ?thesis using HORZ gh by simp
qed (use assms in auto)

text \<open>
  C21: name tables are memory with the cartridge's mirroring: a byte written through the video bus
  is read back at every address that is the same cell (the addresses agree but for bit 11 with
  vertical mirroring, but for bit 10 with horizontal mirroring) and nothing else changes.
\<close>

theorem name_table_mirroring:
  assumes "mir \<noteq> OTHER"
  shows "\<exists>p'. nt_write mir a v p = Some p' \<and>
    (\<forall>b. nt_read mir b p' = (if same_cell mir a b then Some v else nt_read mir b p))"
proof -
  obtain x where x: "decode mir a = Some x" "unat x < VRAM_SIZE" using decode_total [OF assms] by blast
  have "nt_read mir b (p\<lparr>p_vrammem := (p_vrammem p)(unat x := v)\<rparr>) =
      (if same_cell mir a b then Some v else nt_read mir b p)" for b
  proof -
    obtain y where y: "decode mir b = Some y" "unat y < VRAM_SIZE" using decode_total [OF assms] by blast
    have "same_cell mir a b \<longleftrightarrow> x = y" using decode_same_cell [OF assms, of a b] x y by simp
    then show ?thesis using x y by (auto simp: nt_read_def word_unat_eq_iff)
  qed
  then show ?thesis using x by (simp add: nt_write_def)
qed

theorem name_table_mirroring_witness:
  "\<exists>p'. nt_write HORZ 0x2123 7 ppu_zero = Some p' \<and>
    (\<forall>b. nt_read HORZ b p' = (if same_cell HORZ 0x2123 b then Some 7 else nt_read HORZ b ppu_zero))"
  by (rule name_table_mirroring) simp

end
