(* ===== verification/PpuLine.thy ===== *)
theory PpuLine
  imports PpuTheorems
begin

text \<open>
  A line of the picture. The locale \<open>rendering\<close> is a video bus whose answers depend on the memories of
  the unit only. In it the pipeline of fetches and shift registers is followed over the 256 cycles
  of a visible line: which tiles are fetched, what the shift registers hold at each cycle, and which
  colour every pixel gets. The rest of a line moves the address to the next row, and the 240 lines
  make a frame.

  The shift registers move seven times per tile and to the right, so of every eight pixels the first
  repeats bit 6 of the tile before and the others are bits 0 to 6; bit 7 never reaches the screen
  (fine scroll 0). The register for the low attribute bit is never fed and the one for the high bit
  is overwritten, so all pixels use the first palette.
\<close>

unbundle bit_operations_syntax

section \<open>Shift registers\<close>

definition shift_step :: "shift \<Rightarrow> shift" where
  "shift_step s = s\<lparr>s_tlow := drop_bit 1 (s_tlow s), s_thigh := drop_bit 1 (s_thigh s), s_alow := drop_bit 1 (s_alow s),
     s_ahigh := ucast (setbit (ucast (drop_bit 1 (s_alow s))) 7 (s_feed_low s))\<rparr>"

lemma shift_run_step: "shift_run p = p\<lparr>p_shift := shift_step (p_shift p)\<rparr>"
  by (simp add: shift_run_def shift_step_def Let_def)

text \<open>The upper half of a register gets the byte of a tile.\<close>

definition fill :: "uint8 \<Rightarrow> uint16 \<Rightarrow> uint16" where
  "fill t w = ucast (setbits (ucast w) 8 8 (ucast t))"

lemma bit_fill: "bit (fill t w) n \<longleftrightarrow> (if n < 8 then bit w n else n < 16 \<and> bit t (n - 8))"
  by (auto simp: fill_def bit_simps bit_setbits dest: bit_imp_le_length)

lemma shift_fill_fields:
  "s_tlow (p_shift (shift_fill P p)) = fill (t_low (p_tile p)) (s_tlow (p_shift p))"
  "s_thigh (p_shift (shift_fill P p)) = fill (t_high (p_tile p)) (s_thigh (p_shift p))"
  "s_alow (p_shift (shift_fill P p)) = s_alow (p_shift p)" "s_ahigh (p_shift (shift_fill P p)) = s_ahigh (p_shift p)"
  by (simp_all add: shift_fill_def fill_def Let_def)

text \<open>The contents after the fill at the start of tile \<open>m\<close>, when the tiles before had the bytes \<open>T\<close>.\<close>

primrec window :: "uint16 \<Rightarrow> (nat \<Rightarrow> uint8) \<Rightarrow> nat \<Rightarrow> uint16" where
  "window w T 0 = w"
| "window w T (Suc m) = fill (T m) (drop_bit 7 (window w T m))"

definition shown_bit :: "(nat \<Rightarrow> uint8) \<Rightarrow> nat \<Rightarrow> nat \<Rightarrow> bool" where
  "shown_bit T m b = (if b = 0 then bit (T (m - 3)) 6 else if b < 8 then bit (T (m - 2)) (b - 1) else bit (T (m - 1)) (b - 8))"

lemma bit_window_Suc:
  "bit (window w T (Suc m)) b \<longleftrightarrow> (if b < 8 then bit (window w T m) (b + 7) else b < 16 \<and> bit (T m) (b - 8))"
  by (simp add: bit_fill bit_drop_bit_eq add.commute)

lemma bit_window:
  assumes "3 \<le> m" "b < 16"
  shows "bit (window w T m) b = shown_bit T m b"
proof -
  obtain k where m: "m = Suc (Suc (Suc k))" using le_Suc_ex [OF assms(1)] by (auto simp: numeral_3_eq_3)
  consider "b = 0" | "0 < b" "b < 8" | "8 \<le> b" by linarith
  then show ?thesis
  proof cases
    case 1
    have "bit (window w T m) b = bit (window w T (Suc (Suc k))) 7" using 1 by (simp only: m bit_window_Suc) simp
    also have "\<dots> = bit (window w T (Suc k)) 14" by (subst bit_window_Suc) simp
    also have "\<dots> = bit (T k) 6" by (subst bit_window_Suc) simp
    finally show ?thesis using 1 by (simp add: shown_bit_def m)
  next
    case 2
    have "bit (window w T m) b = bit (window w T (Suc (Suc k))) (b + 7)" using 2 by (simp only: m bit_window_Suc) simp
    also have "\<dots> = bit (T (Suc k)) (b - 1)" using 2 by (subst bit_window_Suc) simp
    finally show ?thesis using 2 by (simp add: shown_bit_def m)
  next
    case 3
    then show ?thesis using assms(2) by (simp only: m bit_window_Suc) (simp add: shown_bit_def)
  qed
qed

section \<open>One cycle\<close>

text \<open>The addresses of the fetches, and the bytes a reader \<open>R\<close> of the video memory answers.\<close>

definition nt_addr :: "uint16 \<Rightarrow> uint16" where
  "nt_addr v = 0x2000 OR (v AND 0x0FFF)"

definition attr_addr :: "uint16 \<Rightarrow> uint16" where
  "attr_addr v = 0x23C0 OR push_bit 10 (ucast (nt v)) OR push_bit 1 (ucast (coarse_y v) AND 0x1C) OR
     drop_bit 2 (ucast (coarse_x v) AND 0x1C)"

definition low_addr :: "bool \<Rightarrow> uint8 \<Rightarrow> uint16 \<Rightarrow> uint16" where
  "low_addr right t v = push_bit 12 (of_bool right) OR push_bit 4 (ucast t) OR ucast (fine_y v)"

definition high_addr :: "bool \<Rightarrow> uint8 \<Rightarrow> uint16 \<Rightarrow> uint16" where
  "high_addr right t v = push_bit 12 (of_bool right) OR push_bit 4 (ucast t) OR push_bit 3 1 OR ucast (fine_y v)"

lemmas line_addr_bounds = fetch_addr_bounds [folded nt_addr_def attr_addr_def low_addr_def high_addr_def]

lemmas fetch_folded = fetch_nt_def [folded nt_addr_def] fetch_attr_def [folded attr_addr_def]
  fetch_lowbg_def [folded low_addr_def] fetch_highbg_def [folded high_addr_def]

definition bg_step :: "(uint16 \<Rightarrow> uint8) \<Rightarrow> nat \<Rightarrow> ppu \<Rightarrow> ppu" where
  "bg_step R j p =
     (let t = p_tile p; v = addr_of p; b = io_bg_pt_addr (p_io p);
          t = (if j = 2 then t\<lparr>t_nt := R (nt_addr v)\<rparr> else if j = 4 then t\<lparr>t_attr := R (attr_addr v)\<rparr>
               else if j = 6 then t\<lparr>t_low := R (low_addr b (t_nt t) v)\<rparr>
               else if j = 0 then t\<lparr>t_high := R (high_addr b (t_nt t) v)\<rparr> else t)
      in p\<lparr>p_tile := t\<rparr>)"

definition line_step :: "(uint16 \<Rightarrow> uint8) \<Rightarrow> 'e ppu_ports \<Rightarrow> nat \<Rightarrow> ppu \<Rightarrow> ppu" where
  "line_step R P c p =
     (let p = bg_step R (c mod 8) p;
          p = (if c mod 8 = 1 \<and> c \<noteq> 1 then shift_fill P p else p);
          p = (if c mod 8 \<noteq> 1 then shift_run p else p);
          p = (if c mod 8 = 0 \<and> c \<noteq> 256 then inc_v_horzpos p else p)
      in if c = 256 then inc_v_vertpos p else p)"

text \<open>The address of the colour of a pixel, and whether it is white: the only colour told apart from black.\<close>

definition color_addr :: "ppu \<Rightarrow> uint16" where
  "color_addr p =
     (let s = p_shift p; x = unat (v_fine_x (p_vram p))
      in 0x3F00 + ucast (push_bit 4 (of_bool False) OR
           push_bit 2 (push_bit 1 (of_bool (bit (s_ahigh s) x)) OR of_bool (bit (s_alow s) x)) OR
           (push_bit 1 (of_bool (bit (s_thigh s) x)) OR of_bool (bit (s_tlow s) x)) :: uint8))"

definition shade :: "uint8 \<Rightarrow> uint32" where
  "shade v = (if v = 0x30 then 0xFFFFFFFF else 0)"

definition line_canvas :: "(uint16 \<Rightarrow> uint8) \<Rightarrow> nat \<Rightarrow> nat \<Rightarrow> ppu \<Rightarrow> canvas \<Rightarrow> canvas" where
  "line_canvas R c y p cv = (if 4 \<le> c \<and> c < 256 then the (drawpixel c y (shade (R (color_addr p))) cv) else cv)"

lemma and_one_bit:
  fixes w :: uint16 and v :: uint8
  assumes "n < 8"
  shows "w AND ucast (push_bit n 1 :: uint8) \<noteq> 0 \<longleftrightarrow> bit w n" "v AND push_bit n 1 \<noteq> 0 \<longleftrightarrow> bit v n"
proof -
  have "(ucast (push_bit n 1 :: uint8) :: uint16) = push_bit n 1"
    using assms by (intro bit_word_eqI) (auto simp: bit_simps)
  moreover have "u AND push_bit n 1 \<noteq> 0 \<longleftrightarrow> bit u n" for u :: "'a :: len word"
    by (simp add: bit_iff_and_push_bit_not_eq_0)
  ultimately show "w AND ucast (push_bit n 1 :: uint8) \<noteq> 0 \<longleftrightarrow> bit w n" "v AND push_bit n 1 \<noteq> 0 \<longleftrightarrow> bit v n"
    by simp_all
qed

locale rendering = video_bus P good signal
  for P :: "'x \<Rightarrow> 'e ppu_ports" and good :: "'x \<Rightarrow> bool" and signal :: "'e \<Rightarrow> 'e" +
  assumes vread_memory: "p_vrammem p = p_vrammem q \<Longrightarrow> p_palmem p = p_palmem q \<Longrightarrow> vread (P x) a p = vread (P x) a q"
begin

definition reads :: "'x \<Rightarrow> (uint16 \<Rightarrow> uint8) \<Rightarrow> ppu \<Rightarrow> bool" where
  "reads x R p \<longleftrightarrow> (\<forall>a < 0x4000. vread (P x) a p = Some (R a))"

lemma reads_memory: "reads x R p \<Longrightarrow> p_vrammem q = p_vrammem p \<Longrightarrow> p_palmem q = p_palmem p \<Longrightarrow> reads x R q"
  using vread_memory by (metis reads_def)

lemma background_reads: "reads x R p \<Longrightarrow> background_cycle (P x) j p = Some (bg_step R j p)"
  by (simp add: background_cycle_def bg_step_def reads_def fetch_folded line_addr_bounds Let_def)

lemma bg_output_reads:
  assumes "reads x R p" "fine_ok p"
  shows "bg_output (P x) p = Some (R (color_addr p))"
proof -
  have "bg_output (P x) p = vread (P x) (color_addr p) p"
    using assms(2) and_one_bit [of "unat (v_fine_x (p_vram p))"]
    by (simp add: bg_output_def getcolor_def color_addr_def fine_ok_def Let_def)
  moreover have "color_addr p < 0x4000" unfolding color_addr_def Let_def by (rule color_addr_bound)
  ultimately show ?thesis using assms(1) by (simp add: reads_def)
qed

end

context rendering
begin

lemma output_reads:
  assumes "reads x R p" "fine_ok p" "p_screen p = Some cv" "canvas_ok cv" "tw cv = 256" "th cv = 240"
    and "c = p_cycles p mod 341" "y = p_lines p mod 262" "y < 240" "4 \<le> c" "c \<le> 256"
  shows "ppu_output (P x) p = Some (p\<lparr>p_screen := Some (line_canvas R c y p cv)\<rparr>)"
proof (cases "c = 256")
  case True
  then show ?thesis using assms bg_output_reads [OF assms(1,2)] by (simp add: ppu_output_def line_canvas_def Let_def)
next
  case False
  have "0 < pixel_index cv c y" using assms(10) by (simp add: pixel_index_def)
  then obtain cv' where d: "drawpixel c y (shade (R (color_addr p))) cv = Some cv'"
    using drawpixel_ok [OF assms(4), of c y] assms(5,6,9,11) False by fastforce
  then show ?thesis using assms(3,7-11) False bg_output_reads [OF assms(1,2)]
    by (simp add: ppu_output_def line_canvas_def shade_def Let_def)
qed

lemma ccycle_reads:
  assumes "reads x R p" "fine_ok p" "p_screen p = Some cv" "canvas_ok cv" "tw cv = 256" "th cv = 240"
    and "c = p_cycles p mod 341" "y = p_lines p mod 262" "y < 240" "1 \<le> c" "c \<le> 256"
  shows "ccycle (P x) c p = Some (line_step R (P x) c (p\<lparr>p_screen := Some (line_canvas R c y p cv)\<rparr>))"
proof -
  let ?q = "p\<lparr>p_screen := Some (line_canvas R c y p cv)\<rparr>"
  have "p\<lparr>p_screen := Some cv\<rparr> = p" using assms(3) by simp
  then have "(if 4 \<le> c \<and> c \<le> 256 then ppu_output (P x) p else Some p) = Some ?q"
    using output_reads [OF assms(1-9)] assms(10,11) by (simp add: line_canvas_def)
  moreover have "background_cycle (P x) (c mod 8) ?q = Some (bg_step R (c mod 8) ?q)"
    by (rule background_reads) (rule reads_memory [OF assms(1)]; simp)
  ultimately show ?thesis using assms(10,11) unfolding ccycle_def line_step_def Let_def by simp
qed

lemma run_reads:
  assumes "reads x R p" "ppu_ok p" "p_screen p = Some cv"
    and "c = p_cycles p mod 341" "y = p_lines p mod 262" "y < 240" "1 \<le> c" "c \<le> 256"
  shows "ppu_run (P x) p e = Some (tick (line_step R (P x) c (p\<lparr>p_screen := Some (line_canvas R c y p cv)\<rparr>)), e)"
proof -
  have ok: "fine_ok p" "canvas_ok cv" "tw cv = 256" "th cv = 240"
    using assms(2,3) by (simp_all add: ppu_ok_def screen_ok_def)
  have "linetab ! (p_lines p mod 262) = y" using assms(5) by simp
  moreover have "run_cyclefunc (P x) (cycletab ! c) p = ccycle (P x) c p" using assms(7,8) by (simp add: cycletab_nth)
  ultimately show ?thesis
    using ccycle_reads [OF assms(1) ok(1) assms(3) ok(2-4) assms(4-8)] assms(4,6,8)
    by (simp add: ppu_run_def lcycle_def tick_def Let_def)
qed

end

section \<open>The pipeline over a line\<close>

text \<open>The address at tile \<open>n\<close> of a line, and the bytes fetched there.\<close>

definition hstep :: "ppu \<Rightarrow> uint16 \<Rightarrow> uint16" where
  "hstep p v = (if io_bg_show (p_io p) then inc_x v else v)"

definition vstep :: "ppu \<Rightarrow> uint16 \<Rightarrow> uint16" where
  "vstep p v = (if io_bg_show (p_io p) then inc_y v else v)"

definition tile_addr :: "ppu \<Rightarrow> nat \<Rightarrow> uint16" where
  "tile_addr p n = (hstep p ^^ n) (addr_of p)"

definition tile_name :: "(uint16 \<Rightarrow> uint8) \<Rightarrow> ppu \<Rightarrow> nat \<Rightarrow> uint8" where
  "tile_name R p n = R (nt_addr (tile_addr p n))"

definition tile_low :: "(uint16 \<Rightarrow> uint8) \<Rightarrow> ppu \<Rightarrow> nat \<Rightarrow> uint8" where
  "tile_low R p n = R (low_addr (io_bg_pt_addr (p_io p)) (tile_name R p n) (tile_addr p n))"

definition tile_high :: "(uint16 \<Rightarrow> uint8) \<Rightarrow> ppu \<Rightarrow> nat \<Rightarrow> uint8" where
  "tile_high R p n = R (high_addr (io_bg_pt_addr (p_io p)) (tile_name R p n) (tile_addr p n))"

text \<open>A shift register before step \<open>j\<close> of tile \<open>k\<close>, and how often it has moved by then.\<close>

definition register :: "uint16 \<Rightarrow> (nat \<Rightarrow> uint8) \<Rightarrow> nat \<Rightarrow> nat \<Rightarrow> uint16" where
  "register w T k j =
     (if j = 0 then if k = 0 then w else drop_bit 7 (window w T (k - 1)) else drop_bit (j - 1) (window w T k))"

definition moves :: "nat \<Rightarrow> nat \<Rightarrow> nat" where
  "moves k j = 7 * k + (j - 1)"

lemma register_steps:
  "register w T 0 1 = w"
  "register w T (Suc k) 1 = fill (T k) (register w T (Suc k) 0)"
  "0 < j \<Longrightarrow> j < 7 \<Longrightarrow> register w T k (Suc j) = drop_bit 1 (register w T k j)"
  "register w T (Suc k) 0 = drop_bit 1 (register w T k 7)"
  by (simp_all add: register_def drop_bit_drop_bit del: One_nat_def)

lemma moves_steps: "moves k 1 = moves k 0" "0 < j \<Longrightarrow> moves k (Suc j) = Suc (moves k j)" "moves (Suc k) 0 = Suc (moves k 7)"
  by (simp_all add: moves_def)

text \<open>What a cycle does, by its place in the tile.\<close>

lemma line_step_first: "line_step R P (8 * k + 1) p = (if k = 0 then p else shift_fill P p)"
proof -
  have "8 * k + 1 \<noteq> 256" by presburger
  then show ?thesis by (simp add: line_step_def bg_step_def Let_def)
qed

lemma line_step_middle:
  assumes "0 < j" "j < 7"
  shows "line_step R P (8 * k + 1 + j) p = shift_run (bg_step R (j + 1) p)"
proof -
  have "(8 * k + 1 + j) mod 8 = j + 1" "8 * k + 1 + j \<noteq> 256" using assms by presburger+
  then show ?thesis using assms by (simp add: line_step_def Let_def)
qed

lemma line_step_last:
  "line_step R P (8 * k + 8) p =
   (if k = 31 then inc_v_vertpos (shift_run (bg_step R 0 p)) else inc_v_horzpos (shift_run (bg_step R 0 p)))"
  by (simp add: line_step_def Let_def)

text \<open>The unit before step \<open>j\<close> of tile \<open>k\<close> of a line that it began as \<open>p0\<close>.\<close>

definition at_place :: "(uint16 \<Rightarrow> uint8) \<Rightarrow> ppu \<Rightarrow> nat \<Rightarrow> nat \<Rightarrow> ppu \<Rightarrow> bool" where
  "at_place R p0 k j p \<longleftrightarrow>
     (p_io p = p_io p0 \<and> p_vrammem p = p_vrammem p0 \<and> p_palmem p = p_palmem p0 \<and>
      v_fine_x (p_vram p) = v_fine_x (p_vram p0) \<and> tmp_of p = tmp_of p0 \<and>
      addr_of p = (if k < 32 then tile_addr p0 k else vstep p0 (tile_addr p0 31))) \<and>
     (let t = p_tile p in
      (2 \<le> j \<longrightarrow> t_nt t = tile_name R p0 k) \<and> (6 \<le> j \<longrightarrow> t_low t = tile_low R p0 k) \<and>
      (0 < k \<longrightarrow> (j < 6 \<longrightarrow> t_low t = tile_low R p0 (k - 1)) \<and> t_high t = tile_high R p0 (k - 1))) \<and>
     (let s = p_shift p; s0 = p_shift p0 in
      s_tlow s = register (s_tlow s0) (tile_low R p0) k j \<and> s_thigh s = register (s_thigh s0) (tile_high R p0) k j \<and>
      s_alow s = drop_bit (moves k j) (s_alow s0) \<and> (9 \<le> moves k j \<longrightarrow> (\<forall>n < 7. \<not> bit (s_ahigh s) n)))"

lemma at_place_start: "at_place R p0 0 0 p0"
  by (simp add: at_place_def register_def moves_def tile_addr_def)

lemma at_place_frame [simp]:
  "at_place R p0 k j (tick p) = at_place R p0 k j p" "at_place R p0 k j (p\<lparr>p_screen := s\<rparr>) = at_place R p0 k j p"
  by (simp_all add: at_place_def tick_def Let_def)

lemma ahigh_step:
  assumes "8 \<le> n" "s_alow s = drop_bit n (a :: uint8)"
  shows "\<forall>b < 7. \<not> bit (s_ahigh (shift_step s)) b"
proof -
  have "drop_bit 1 (s_alow s) = 0" using assms by (intro bit_word_eqI) (auto simp: bit_simps dest: bit_imp_le_length)
  then show ?thesis by (auto simp: shift_step_def bit_simps bit_setbits setbit_def)
qed

lemma shift_step_fields:
  "s_tlow (shift_step s) = drop_bit 1 (s_tlow s)" "s_thigh (shift_step s) = drop_bit 1 (s_thigh s)"
  "s_alow (shift_step s) = drop_bit 1 (s_alow s)"
  by (simp_all add: shift_step_def)

lemma place_first:
  assumes "at_place R p0 k 0 p"
  shows "at_place R p0 k 1 (line_step R P (8 * k + 1) p)"
proof (cases k)
  case 0
  have "line_step R P (8 * k + 1) p = p" by (simp only: line_step_first 0) simp
  then show ?thesis using assms 0 by (simp add: at_place_def register_def moves_def)
next
  case (Suc i)
  have s: "line_step R P (8 * k + 1) p = shift_fill P p" using line_step_first [of R P k p] Suc by simp
  have f: "p_io (shift_fill P p) = p_io p" "p_vram (shift_fill P p) = p_vram p" "p_tile (shift_fill P p) = p_tile p"
    "p_vrammem (shift_fill P p) = p_vrammem p" "p_palmem (shift_fill P p) = p_palmem p"
    by (simp_all add: shift_fill_def Let_def)
  show ?thesis using assms Suc unfolding s
    by (simp add: at_place_def f shift_fill_fields register_steps moves_steps Let_def del: One_nat_def)
qed

lemma place_middle:
  assumes "at_place R p0 k j p" "0 < j" "j < 7" "k < 32"
  shows "at_place R p0 k (Suc j) (line_step R P (8 * k + 1 + j) p)"
proof -
  have m: "register w T k (Suc j) = drop_bit 1 (register w T k j)" "moves k (Suc j) = Suc (moves k j)" for w T
    using assms(2,3) by (simp_all add: register_steps moves_steps)
  have a: "\<forall>b < 7. \<not> bit (s_ahigh (shift_step (p_shift p))) b" if "9 \<le> Suc (moves k j)"
    using ahigh_step [of "moves k j" "p_shift p" "s_alow (p_shift p0)"] that assms(1) by (simp add: at_place_def Let_def)
  have j: "j = 1 \<or> j = 2 \<or> j = 3 \<or> j = 4 \<or> j = 5 \<or> j = 6" using assms(2,3) by linarith
  show ?thesis
    unfolding line_step_middle [OF assms(2,3)] shift_run_step
    using assms a j
    by (auto simp: at_place_def m shift_step_fields bg_step_def tile_name_def tile_low_def Let_def)
qed

lemma place_last:
  assumes "at_place R p0 k 7 p" "k < 32"
  shows "at_place R p0 (Suc k) 0 (line_step R P (8 * k + 8) p)"
proof -
  let ?q = "shift_run (bg_step R 0 p)"
  have v: "p_io (line_step R P (8 * k + 8) p) = p_io ?q" "p_tile (line_step R P (8 * k + 8) p) = p_tile ?q"
    "p_shift (line_step R P (8 * k + 8) p) = p_shift ?q" "p_vrammem (line_step R P (8 * k + 8) p) = p_vrammem ?q"
    "p_palmem (line_step R P (8 * k + 8) p) = p_palmem ?q"
    "v_fine_x (p_vram (line_step R P (8 * k + 8) p)) = v_fine_x (p_vram ?q)"
    "tmp_of (line_step R P (8 * k + 8) p) = tmp_of ?q"
    "addr_of (line_step R P (8 * k + 8) p) = (if k = 31 then vstep ?q (addr_of ?q) else hstep ?q (addr_of ?q))"
    by (simp_all add: line_step_last inc_v_horzpos_def inc_v_vertpos_def hstep_def vstep_def with_addr_def with_vram_def)
  have q: "p_io ?q = p_io p" "p_vram ?q = p_vram p" "p_shift ?q = shift_step (p_shift p)" "p_vrammem ?q = p_vrammem p"
    "p_palmem ?q = p_palmem p" "t_low (p_tile ?q) = t_low (p_tile p)"
    "t_high (p_tile ?q) = R (high_addr (io_bg_pt_addr (p_io p)) (t_nt (p_tile p)) (addr_of p))"
    by (simp_all add: shift_run_step bg_step_def Let_def)
  have h: "hstep ?q = hstep p0" "vstep ?q = vstep p0"
    using assms(1) by (simp_all add: fun_eq_iff hstep_def vstep_def q at_place_def)
  have a: "\<forall>b < 7. \<not> bit (s_ahigh (shift_step (p_shift p))) b" if "9 \<le> Suc (moves k 7)"
    using ahigh_step [of "moves k 7" "p_shift p" "s_alow (p_shift p0)"] that assms(1) by (simp add: at_place_def Let_def)
  have e: "vstep p0 ((hstep p0 ^^ k) (addr_of p0)) = vstep p0 ((hstep p0 ^^ 31) (addr_of p0))" if "\<not> k < 31"
  proof -
    have "k = 31" using that assms(2) by simp
    then show ?thesis by simp
  qed
  show ?thesis using assms a e
    by (auto simp: at_place_def v q h shift_step_fields register_steps moves_steps tile_high_def tile_addr_def Let_def)
qed

lemma place_step:
  assumes "at_place R p0 k j p" "k < 32" "j < 8"
  shows "at_place R p0 (if j = 7 then Suc k else k) (if j = 7 then 0 else Suc j) (line_step R P (8 * k + 1 + j) p)"
proof -
  consider "j = 0" | "0 < j" "j < 7" | "j = 7" using assms(3) by linarith
  then show ?thesis
  proof cases
    case 1
    then show ?thesis using place_first [of R p0 k p P] assms(1) by simp
  next
    case 2
    then show ?thesis using place_middle [OF assms(1) 2 assms(2), of P] by simp
  next
    case 3
    then show ?thesis using place_last [of R p0 k p P] assms(1,2) by (simp add: add.commute)
  qed
qed

section \<open>The pixels of a line\<close>

text \<open>The colour of the pixel at \<open>x\<close>: two bits of the tiles select an entry of the first palette.\<close>

definition line_bit :: "(nat \<Rightarrow> uint8) \<Rightarrow> ppu \<Rightarrow> nat \<Rightarrow> bool" where
  "line_bit T p x = shown_bit T ((x - 2) div 8) (unat (v_fine_x (p_vram p)) + (x - 2) mod 8)"

definition line_color :: "(uint16 \<Rightarrow> uint8) \<Rightarrow> ppu \<Rightarrow> nat \<Rightarrow> uint8" where
  "line_color R p x =
     R (0x3F00 + of_bool (line_bit (tile_low R p) p x) + 2 * of_bool (line_bit (tile_high R p) p x))"

lemma register_bit:
  assumes "25 \<le> n" "f < 8"
  shows "bit (register w T (n div 8) (n mod 8)) f = shown_bit T ((n - 1) div 8) (f + (n - 1) mod 8)"
proof -
  define q r where "q = n div 8" and "r = n mod 8"
  have n: "n = 8 * q + r" "r < 8" by (simp_all add: q_def r_def)
  show ?thesis
  proof (cases r)
    case 0
    then obtain t where t: "q = Suc t" "3 \<le> t" using n assms(1) by (cases q) auto
    then have "n - 1 = 8 * t + 7" using n 0 by simp
    then have "(n - 1) div 8 = t" "(n - 1) mod 8 = 7" by simp_all
    then show ?thesis using 0 t assms(2) unfolding q_def [symmetric] r_def [symmetric]
      by (simp add: register_def bit_drop_bit_eq bit_window add.commute)
  next
    case (Suc s)
    then have "n - 1 = 8 * q + s" "s < 8" "3 \<le> q" using n assms(1) by simp_all
    moreover from this have "(n - 1) div 8 = q" "(n - 1) mod 8 = s" by simp_all
    ultimately show ?thesis using Suc assms(2) unfolding q_def [symmetric] r_def [symmetric]
      by (simp add: register_def bit_drop_bit_eq bit_window add.commute)
  qed
qed

lemma place_color:
  assumes "at_place R p0 (n div 8) (n mod 8) p" "25 \<le> n" "unat (v_fine_x (p_vram p0)) < 7"
  shows "R (color_addr p) = line_color R p0 (n + 1)"
proof -
  let ?f = "unat (v_fine_x (p_vram p0))"
  have "n = 8 * (n div 8) + n mod 8" "n mod 8 < 8" by simp_all
  then have m: "9 \<le> moves (n div 8) (n mod 8)" using assms(2) unfolding moves_def by linarith
  have "s_alow (p_shift p) = 0"
    using assms(1) m by (intro bit_word_eqI) (auto simp: at_place_def Let_def bit_simps dest: bit_imp_le_length)
  then have "\<not> bit (s_ahigh (p_shift p)) ?f" "\<not> bit (s_alow (p_shift p)) ?f" "unat (v_fine_x (p_vram p)) = ?f"
    using assms(1,3) m by (simp_all add: at_place_def Let_def)
  moreover have "bit (s_tlow (p_shift p)) ?f = line_bit (tile_low R p0) p0 (n + 1)"
    "bit (s_thigh (p_shift p)) ?f = line_bit (tile_high R p0) p0 (n + 1)"
    using assms by (simp_all add: at_place_def Let_def line_bit_def register_bit)
  ultimately show ?thesis by (simp add: color_addr_def line_color_def Let_def)
qed

lemma ppu_runs_Suc: "ppu_runs P (Suc n) p e = do { (p, e) \<leftarrow> ppu_runs P n p e; ppu_run P p e }"
proof (induction n arbitrary: p e)
  case 0
  show ?case by (cases "ppu_run P p e") auto
next
  case (Suc n)
  show ?case using Suc.IH by (subst ppu_runs.simps) (cases "ppu_run P p e", auto)
qed

lemma line_canvas_pixels:
  assumes "canvas_ok cv" "tw cv = 256" "th cv = 240" "y < 240"
  shows "canvas_ok (line_canvas R c y p cv)" "tw (line_canvas R c y p cv) = 256" "th (line_canvas R c y p cv) = 240"
    and "x' < 256 \<Longrightarrow> y' < 240 \<Longrightarrow> pixel (line_canvas R c y p cv) x' y' =
      (if 4 \<le> c \<and> x' = c \<and> y' = y then rgba (shade (R (color_addr p))) else pixel cv x' y')"
proof -
  let ?col = "shade (R (color_addr p))"
  have "\<exists>cv'. drawpixel c y ?col cv = Some cv' \<and> canvas_ok cv' \<and> tw cv' = 256 \<and> th cv' = 240 \<and>
    (\<forall>x' y'. x' < 256 \<and> y' < 240 \<longrightarrow> pixel cv' x' y' = (if x' = c \<and> y' = y then rgba ?col else pixel cv x' y'))"
    if "4 \<le> c" "c < 256" using drawpixel_pixels [of cv c y ?col] assms that by simp
  then show "canvas_ok (line_canvas R c y p cv)" "tw (line_canvas R c y p cv) = 256" "th (line_canvas R c y p cv) = 240"
    and "x' < 256 \<Longrightarrow> y' < 240 \<Longrightarrow> pixel (line_canvas R c y p cv) x' y' =
      (if 4 \<le> c \<and> x' = c \<and> y' = y then rgba (shade (R (color_addr p))) else pixel cv x' y')"
    using assms by (auto simp: line_canvas_def)
qed

text \<open>The pixels of line \<open>y\<close> drawn so far, and the rest of the canvas.\<close>

definition drawn :: "(uint16 \<Rightarrow> uint8) \<Rightarrow> ppu \<Rightarrow> nat \<Rightarrow> nat \<Rightarrow> canvas \<Rightarrow> canvas \<Rightarrow> bool" where
  "drawn R p y n cv0 cv \<longleftrightarrow>
     (\<forall>x. 26 \<le> x \<and> x \<le> n \<and> x < 256 \<longrightarrow> pixel cv x y = rgba (shade (line_color R p x))) \<and>
     (\<forall>x y'. x < 256 \<and> y' < 240 \<and> y' \<noteq> y \<longrightarrow> pixel cv x y' = pixel cv0 x y')"

lemma drawn_step:
  assumes "drawn R p0 y n cv0 cv" "canvas_ok cv" "tw cv = 256" "th cv = 240" "y < 240"
    and "25 \<le> n \<Longrightarrow> R (color_addr p) = line_color R p0 (n + 1)"
  shows "drawn R p0 y (Suc n) cv0 (line_canvas R (n + 1) y p cv)"
  using assms by (auto simp: drawn_def line_canvas_pixels(4) le_Suc_eq)

lemma line_step_frame [simp]:
  "p_screen (line_step R P c p) = p_screen p" "p_cycles (line_step R P c p) = p_cycles p"
  "p_lines (line_step R P c p) = p_lines p" "p_odd_frame (line_step R P c p) = p_odd_frame p"
  "v_fine_x (p_vram (line_step R P c p)) = v_fine_x (p_vram p)"
  by (simp_all add: line_step_def bg_step_def shift_fill_def shift_run_def inc_v_horzpos_def inc_v_vertpos_def with_addr_def
      with_vram_def Let_def)

context rendering
begin

lemma line_cycle:
  assumes "reads x R p0" "at_place R p0 (n div 8) (n mod 8) p" "n < 256" "unat (v_fine_x (p_vram p0)) < 7"
    and "ppu_ok p" "p_cycles p mod 341 = n + 1" "p_lines p mod 262 = y" "y < 240" "p_screen p = Some cv" "drawn R p0 y n cv0 cv"
  shows "\<exists>p' cv'. ppu_run (P x) p e = Some (p', e) \<and> ppu_ok p' \<and> at_place R p0 (Suc n div 8) (Suc n mod 8) p' \<and>
    p_cycles p' = p_cycles p + 1 \<and> p_lines p' = p_lines p \<and> p_screen p' = Some cv' \<and> drawn R p0 y (Suc n) cv0 cv'"
proof -
  let ?cv = "line_canvas R (n + 1) y p cv"
  let ?p = "line_step R (P x) (n + 1) (p\<lparr>p_screen := Some ?cv\<rparr>)"
  have ok: "timing_ok p" "canvas_ok cv" "tw cv = 256" "th cv = 240" "fine_ok p"
    using assms(5,9) by (simp_all add: ppu_ok_def screen_ok_def)
  have "reads x R p" using assms(2) by (intro reads_memory [OF assms(1)]) (simp_all add: at_place_def)
  from run_reads [OF this assms(5,9), of "n + 1" y e] have run: "ppu_run (P x) p e = Some (tick ?p, e)"
    using assms(3,6-8) by simp
  have t: "timing_ok ?p" "\<not> at_frame_end ?p"
    using ok(1) assms(7,8) by (auto simp: timing_ok_def at_frame_end_def split: if_splits)
  have "screen_ok ?p" "fine_ok ?p"
    using line_canvas_pixels(1-3) [OF ok(2-4) assms(8)] ok(5) by (simp_all add: screen_ok_def fine_ok_def)
  then have "ppu_ok (tick ?p)" using tick_ok tick_within_frame [OF t] by blast
  moreover have "at_place R p0 (Suc n div 8) (Suc n mod 8) (tick ?p)"
  proof -
    have n: "8 * (n div 8) + 1 + n mod 8 = n + 1" "n div 8 < 32" "n mod 8 < 8" using assms(3) by simp_all
    have "(if n mod 8 = 7 then Suc (n div 8) else n div 8) = Suc n div 8" "(if n mod 8 = 7 then 0 else Suc (n mod 8)) = Suc n mod 8"
      by (simp_all add: div_Suc mod_Suc)
    then show ?thesis using place_step [of R p0 "n div 8" "n mod 8" "p\<lparr>p_screen := Some ?cv\<rparr>" "P x"] assms(2) n by simp
  qed
  moreover have "(p_cycles p + 1) div 341 = p_cycles p div 341" using assms(3,6) div_next_341 [of "p_cycles p"] by simp
  then have "p_lines (tick ?p) = p_lines p" "p_cycles (tick ?p) = p_cycles p + 1"
    using tick_counters [OF t(1)] ok(1) by (simp_all add: timing_ok_def)
  moreover have "p_screen (tick ?p) = Some ?cv" by (simp add: tick_def Let_def)
  moreover have "drawn R p0 y (Suc n) cv0 ?cv"
    using place_color [OF assms(2) _ assms(4)] by (intro drawn_step assms ok)
  ultimately show ?thesis using run by blast
qed

lemma line_cycles:
  assumes "reads x R p0" "ppu_ok p0" "p_cycles p0 mod 341 = 1" "p_lines p0 mod 262 = y" "y < 240"
    and "p_screen p0 = Some cv0" "unat (v_fine_x (p_vram p0)) < 7" "n \<le> 256"
  shows "\<exists>p cv. ppu_runs (P x) n p0 e = Some (p, e) \<and> ppu_ok p \<and> at_place R p0 (n div 8) (n mod 8) p \<and>
    p_cycles p = p_cycles p0 + n \<and> p_lines p = p_lines p0 \<and> p_screen p = Some cv \<and> drawn R p0 y n cv0 cv"
  using assms(8)
proof (induction n)
  case 0
  then show ?case using assms by (simp add: at_place_start drawn_def)
next
  case (Suc n)
  then obtain p cv where p: "ppu_runs (P x) n p0 e = Some (p, e)" "ppu_ok p" "at_place R p0 (n div 8) (n mod 8) p"
    "p_cycles p = p_cycles p0 + n" "p_lines p = p_lines p0" "p_screen p = Some cv" "drawn R p0 y n cv0 cv" by auto
  have "(p_cycles p0 + n) mod 341 = n + 1"
    using assms(3) Suc.prems mod_add_left_eq [of "p_cycles p0" 341 n] by simp
  with line_cycle [OF assms(1) p(3) _ assms(7) p(2) _ _ assms(5) p(6,7), of e] Suc.prems assms(4) p(4,5)
  obtain p' cv' where "ppu_run (P x) p e = Some (p', e)" "ppu_ok p'" "at_place R p0 (Suc n div 8) (Suc n mod 8) p'"
    "p_cycles p' = p_cycles p + 1" "p_lines p' = p_lines p" "p_screen p' = Some cv'" "drawn R p0 y (Suc n) cv0 cv'" by auto
  then show ?case using p(1,4,5) by (simp add: ppu_runs_Suc del: ppu_runs.simps)
qed

end

section \<open>Between two lines\<close>

text \<open>What the rest of a line leaves alone; the address after \<open>n\<close> cycles of it, from cycle 257 on.\<close>

definition same_video :: "ppu \<Rightarrow> ppu \<Rightarrow> bool" where
  "same_video p q \<longleftrightarrow> p_io q = p_io p \<and> p_vrammem q = p_vrammem p \<and> p_palmem q = p_palmem p \<and>
     v_fine_x (p_vram q) = v_fine_x (p_vram p) \<and> tmp_of q = tmp_of p \<and> p_screen q = p_screen p"

lemma same_video_refl [simp]: "same_video p p"
  by (simp add: same_video_def)

lemma same_video_trans: "same_video p q \<Longrightarrow> same_video q r \<Longrightarrow> same_video p r"
  by (simp add: same_video_def)

lemma same_video_steps: "same_video p q \<Longrightarrow> hstep q = hstep p \<and> vstep q = vstep p"
  by (simp add: same_video_def fun_eq_iff hstep_def vstep_def)

lemma same_video_tick [simp]: "same_video p (tick q) = same_video p q" "addr_of (tick p) = addr_of p"
  by (simp_all add: same_video_def tick_def Let_def)

definition hcopy :: "ppu \<Rightarrow> uint16 \<Rightarrow> uint16" where
  "hcopy p v = (if io_bg_show (p_io p) then copy_x (tmp_of p) v else v)"

definition rest_step :: "(uint16 \<Rightarrow> uint8) \<Rightarrow> 'e ppu_ports \<Rightarrow> nat \<Rightarrow> ppu \<Rightarrow> ppu" where
  "rest_step R P c p = (if 321 \<le> c then line_step R P c p else if c = 257 then copy_v_horzpos p else p)"

lemma line_step_video: "same_video p (line_step R P c p)"
  by (simp add: same_video_def line_step_def bg_step_def shift_fill_def shift_run_def inc_v_horzpos_def inc_v_vertpos_def
      with_addr_def with_vram_def Let_def)

lemma line_step_addr: "257 < c \<Longrightarrow> addr_of (line_step R P c p) = (if c mod 8 = 0 then hstep p (addr_of p) else addr_of p)"
  by (simp add: line_step_def bg_step_def shift_fill_def shift_run_def inc_v_horzpos_def hstep_def with_addr_def with_vram_def
      Let_def)

lemma rest_step_video: "same_video p (rest_step R P c p)" "keeps p (rest_step R P c p)"
proof -
  have "same_video p (copy_v_horzpos p)" by (simp add: same_video_def copy_v_horzpos_def with_addr_def with_vram_def)
  then show v: "same_video p (rest_step R P c p)" by (simp add: rest_step_def line_step_video)
  have "same_timing p (rest_step R P c p)"
    by (simp add: rest_step_def same_timing_def copy_v_horzpos_def with_addr_def with_vram_def)
  then show "keeps p (rest_step R P c p)" using v by (simp add: keeps_def same_video_def screen_ok_def has_screen_def)
qed

lemma rest_step_addr:
  assumes "c = 0 \<or> 257 \<le> c"
  shows "addr_of (rest_step R P c p) =
    (if c = 257 then hcopy p (addr_of p) else if 321 \<le> c \<and> c mod 8 = 0 then hstep p (addr_of p) else addr_of p)"
  using assms by (auto simp: rest_step_def line_step_addr hcopy_def copy_v_horzpos_def with_addr_def with_vram_def)

context rendering
begin

lemma rest_run:
  assumes "reads x R p" "ppu_ok p" "c = p_cycles p mod 341" "c = 0 \<or> 257 \<le> c" "p_lines p mod 262 < 240"
  shows "ppu_run (P x) p e = Some (tick (rest_step R (P x) c p), e)"
proof -
  have "c \<le> 340" using assms(3) mod_less_divisor [of 341 "p_cycles p"] by linarith
  then have "run_cyclefunc (P x) (cycletab ! c) p = Some (rest_step R (P x) c p)"
    using assms(4) background_reads [OF assms(1)]
    by (auto simp: cycletab_nth ccycle_def rest_step_def line_step_def Let_def)
  then show ?thesis using assms(3,5) \<open>c \<le> 340\<close> by (simp add: ppu_run_def lcycle_def tick_def Let_def)
qed

end

definition rest_addr :: "ppu \<Rightarrow> nat \<Rightarrow> uint16" where
  "rest_addr p n =
     (let v = hcopy p (addr_of p)
      in if n = 0 then addr_of p else if n < 72 then v else if n < 80 then hstep p v else hstep p (hstep p v))"

lemma rest_addr_Suc:
  assumes "n < 85" "c = (257 + n) mod 341"
  shows "rest_addr p (Suc n) =
    (if c = 257 then hcopy p (rest_addr p n) else if 321 \<le> c \<and> c mod 8 = 0 then hstep p (rest_addr p n) else rest_addr p n)"
proof -
  have c: "c = (if n = 84 then 0 else 257 + n)" using assms by (simp add: mod_if)
  have "(257 + n) mod 8 = 0 \<longleftrightarrow> n = 71 \<or> n = 79" if "64 \<le> n" "n < 84"
  proof -
    have "n \<in> {64..<84}" using that by simp
    then show ?thesis by (simp add: atLeastLessThan_nat_numeral) auto
  qed
  then show ?thesis using assms(1) by (auto simp: c rest_addr_def Let_def)
qed

text \<open>The line and the cycle of a unit that is \<open>n\<close> cycles after cycle 257 of a line above the last.\<close>

lemma rest_place:
  assumes "timing_ok p" "timing_ok q" "p_cycles p mod 341 = 257" "p_lines p mod 262 < 239"
    and "p_cycles q = p_cycles p + n" "n \<le> 85"
  shows "p_cycles q mod 341 = (257 + n) mod 341" "p_lines q mod 262 = p_lines p mod 262 + of_bool (84 \<le> n)"
proof -
  define l where "l = p_lines p"
  have "p_cycles p = 341 * l + 257"
    using assms(1,3) div_mult_mod_eq [of "p_cycles p" 341] by (simp add: timing_ok_def l_def)
  then have q: "p_cycles q = 341 * l + (257 + n)" using assms(5) by simp
  then show "p_cycles q mod 341 = (257 + n) mod 341" by simp
  have "p_lines q = l + (257 + n) div 341" using assms(2) q by (simp add: timing_ok_def)
  moreover have "(257 + n) div 341 = of_bool (84 \<le> n)" using assms(6) by (auto simp: div_if)
  moreover have "(l + 1) mod 262 = l mod 262 + 1" using assms(4) by (simp add: mod_Suc l_def)
  ultimately show "p_lines q mod 262 = p_lines p mod 262 + of_bool (84 \<le> n)" by (simp add: l_def)
qed

context rendering
begin

lemma rest_cycles:
  assumes "reads x R p" "ppu_ok p" "p_cycles p mod 341 = 257" "p_lines p mod 262 < 239" "n \<le> 85"
  shows "\<exists>q. ppu_runs (P x) n p e = Some (q, e) \<and> ppu_ok q \<and> same_video p q \<and> p_cycles q = p_cycles p + n \<and>
    addr_of q = rest_addr p n"
  using assms(5)
proof (induction n)
  case 0
  then show ?case using assms(2) by (simp add: rest_addr_def)
next
  case (Suc n)
  then obtain q where q: "ppu_runs (P x) n p e = Some (q, e)" "ppu_ok q" "same_video p q" "p_cycles q = p_cycles p + n"
    "addr_of q = rest_addr p n" by auto
  define c where "c = p_cycles q mod 341"
  let ?q = "rest_step R (P x) c q"
  have t: "timing_ok p" "timing_ok q" using assms(2) q(2) by (simp_all add: ppu_ok_def)
  have place: "c = (257 + n) mod 341" "p_lines q mod 262 < 240"
    using rest_place [OF t assms(3,4) q(4)] Suc.prems assms(4) by (simp_all add: c_def)
  have c: "c = 0 \<or> 257 \<le> c" using place(1) Suc.prems by (simp add: mod_if)
  have "reads x R q" using q(3) by (intro reads_memory [OF assms(1)]) (simp_all add: same_video_def)
  from rest_run [OF this q(2) c_def c place(2)] have "ppu_runs (P x) (Suc n) p e = Some (tick ?q, e)"
    using q(1) by (simp add: ppu_runs_Suc del: ppu_runs.simps)
  moreover have ok: "timing_ok ?q" "screen_ok ?q" "fine_ok ?q" "\<not> at_frame_end ?q" "p_cycles ?q = p_cycles q"
    using keeps_ok [OF rest_step_video(2) q(2), of R "P x" c] rest_step_video(2) [of q R "P x" c] place(2)
    by (simp_all add: ppu_ok_def keeps_def same_timing_def at_frame_end_def)
  then have "ppu_ok (tick ?q)" "p_cycles (tick ?q) = p_cycles p + Suc n"
    using tick_ok tick_within_frame tick_counters q(4) by simp_all
  moreover have "same_video p (tick ?q)" using same_video_trans [OF q(3) rest_step_video(1)] by simp
  moreover have "hcopy q = hcopy p" "hstep q = hstep p"
    using q(3) same_video_steps by (simp_all add: fun_eq_iff hcopy_def same_video_def)
  then have "addr_of (tick ?q) = rest_addr p (Suc n)"
    using rest_step_addr [OF c, of R "P x" q] rest_addr_Suc [of n c p] place(1) Suc.prems q(5) by simp
  ultimately show ?case by blast
qed

end

section \<open>The lines of a frame\<close>

text \<open>
  The address from one line to the next: 31 steps to the right, one down, back to the left edge of the
  temporary address, and two steps for the tiles fetched ahead.
\<close>

definition next_row :: "ppu \<Rightarrow> uint16 \<Rightarrow> uint16" where
  "next_row p v = hstep p (hstep p (hcopy p (vstep p ((hstep p ^^ 31) v))))"

definition row_addr :: "ppu \<Rightarrow> nat \<Rightarrow> uint16" where
  "row_addr p y = (next_row p ^^ y) (addr_of p)"

text \<open>The unit at the start of row \<open>y\<close>, and the colour of the pixels there.\<close>

definition at_row :: "ppu \<Rightarrow> nat \<Rightarrow> ppu" where
  "at_row p y = with_addr (\<lambda>_. row_addr p y) p"

definition frame_color :: "(uint16 \<Rightarrow> uint8) \<Rightarrow> ppu \<Rightarrow> nat \<Rightarrow> nat \<Rightarrow> uint8" where
  "frame_color R p x y = line_color R (at_row p y) x"

definition same_regs :: "ppu \<Rightarrow> ppu \<Rightarrow> bool" where
  "same_regs p q \<longleftrightarrow> p_io q = p_io p \<and> p_vrammem q = p_vrammem p \<and> p_palmem q = p_palmem p \<and>
     v_fine_x (p_vram q) = v_fine_x (p_vram p) \<and> tmp_of q = tmp_of p"

lemma same_regs_trans: "same_regs p q \<Longrightarrow> same_regs q r \<Longrightarrow> same_regs p r"
  by (simp add: same_regs_def)

lemma same_regs_steps:
  assumes "same_regs p q"
  shows "hstep q = hstep p \<and> vstep q = vstep p \<and> hcopy q = hcopy p \<and> next_row q = next_row p"
proof -
  have "hstep q = hstep p" "vstep q = vstep p" "hcopy q = hcopy p"
    using assms by (simp_all add: same_regs_def fun_eq_iff hstep_def vstep_def hcopy_def)
  then show ?thesis by (simp add: next_row_def [abs_def])
qed

lemma line_color_row:
  assumes "same_regs p q" "addr_of q = row_addr p y"
  shows "line_color R q x = frame_color R p x y"
proof -
  let ?r = "at_row p y"
  have r: "addr_of ?r = addr_of q" "p_io ?r = p_io q" "v_fine_x (p_vram ?r) = v_fine_x (p_vram q)"
    using assms by (simp_all add: at_row_def same_regs_def)
  then have "tile_addr ?r = tile_addr q" by (simp add: fun_eq_iff tile_addr_def hstep_def [abs_def])
  with r have "tile_low R ?r = tile_low R q" "tile_high R ?r = tile_high R q"
    by (simp_all add: fun_eq_iff tile_low_def tile_high_def tile_name_def)
  with r show ?thesis by (simp add: frame_color_def line_color_def line_bit_def)
qed

lemma ppu_runs_add: "ppu_runs P (m + n) p e = do { (p, e) \<leftarrow> ppu_runs P m p e; ppu_runs P n p e }"
proof (induction m arbitrary: p e)
  case (Suc m)
  then show ?case by (cases "ppu_run P p e") auto
qed simp

context rendering
begin

text \<open>A line up to its last pixel, and the whole of it.\<close>

lemma line_part:
  assumes "reads x R q" "ppu_ok q" "p_cycles q mod 341 = 1" "p_lines q mod 262 = y" "y < 240"
    and "p_screen q = Some cv" "unat (v_fine_x (p_vram q)) < 7"
  shows "\<exists>q' cv'. ppu_runs (P x) 256 q e = Some (q', e) \<and> ppu_ok q' \<and> same_regs q q' \<and> p_cycles q' = p_cycles q + 256 \<and>
    p_lines q' = p_lines q \<and> addr_of q' = vstep q ((hstep q ^^ 31) (addr_of q)) \<and> p_screen q' = Some cv' \<and>
    drawn R q y 256 cv cv'"
  using line_cycles [OF assms order_refl, of e] by (auto simp: at_place_def same_regs_def tile_addr_def)

lemma line_whole:
  assumes "reads x R q" "ppu_ok q" "p_cycles q mod 341 = 1" "p_lines q mod 262 = y" "y < 239"
    and "p_screen q = Some cv" "unat (v_fine_x (p_vram q)) < 7"
  shows "\<exists>q' cv'. ppu_runs (P x) 341 q e = Some (q', e) \<and> ppu_ok q' \<and> same_regs q q' \<and> p_cycles q' mod 341 = 1 \<and>
    p_lines q' mod 262 = y + 1 \<and> addr_of q' = next_row q (addr_of q) \<and> p_screen q' = Some cv' \<and> drawn R q y 256 cv cv'"
proof -
  obtain r cv' where r: "ppu_runs (P x) 256 q e = Some (r, e)" "ppu_ok r" "same_regs q r" "p_cycles r = p_cycles q + 256"
    "p_lines r = p_lines q" "addr_of r = vstep q ((hstep q ^^ 31) (addr_of q))" "p_screen r = Some cv'"
    "drawn R q y 256 cv cv'" using line_part [OF assms(1-4) _ assms(6,7)] assms(5) by fastforce
  have p: "reads x R r" "p_cycles r mod 341 = 257" "p_lines r mod 262 < 239"
    using r(3-5) assms(3-5) mod_add_left_eq [of "p_cycles q" 341 256]
    by (auto simp: same_regs_def intro: reads_memory [OF assms(1)])
  obtain q' where q': "ppu_runs (P x) 85 r e = Some (q', e)" "ppu_ok q'" "same_video r q'" "p_cycles q' = p_cycles r + 85"
    "addr_of q' = rest_addr r 85" using rest_cycles [OF p(1) r(2) p(2,3) order_refl, of e] by blast
  have "timing_ok r" "timing_ok q'" using r(2) q'(2) by (simp_all add: ppu_ok_def)
  from rest_place [OF this p(2,3) q'(4)] have "p_cycles q' mod 341 = 1" "p_lines q' mod 262 = y + 1"
    using r(5) assms(4) by simp_all
  moreover have "same_regs q q'" using r(3) q'(3) by (simp add: same_regs_def same_video_def)
  moreover have "addr_of q' = next_row q (addr_of q)"
    using q'(5) r(6) same_regs_steps [OF r(3)] by (simp add: rest_addr_def next_row_def)
  moreover have "p_screen q' = Some cv'" using q'(3) r(7) by (simp add: same_video_def)
  moreover have "ppu_runs (P x) 341 q e = Some (q', e)"
    using ppu_runs_add [of "P x" 256 85 q e] r(1) q'(1) by simp
  ultimately show ?thesis using q'(2) r(8) by blast
qed

end

text \<open>The lines above \<open>y\<close> are drawn.\<close>

definition drawn_above :: "(uint16 \<Rightarrow> uint8) \<Rightarrow> ppu \<Rightarrow> nat \<Rightarrow> canvas \<Rightarrow> bool" where
  "drawn_above R p y cv \<longleftrightarrow>
     (\<forall>x y'. 26 \<le> x \<and> x < 256 \<and> y' < y \<longrightarrow> pixel cv x y' = rgba (shade (frame_color R p x y')))"

lemma drawn_next:
  assumes "drawn_above R p y cv" "drawn R q y 256 cv cv'" "same_regs p q" "addr_of q = row_addr p y" "y < 240"
  shows "drawn_above R p (Suc y) cv'"
  using assms line_color_row [OF assms(3,4)] by (auto simp: drawn_above_def drawn_def less_Suc_eq)

context rendering
begin

lemma frame_lines:
  assumes "reads x R p" "ppu_ok p" "p_cycles p mod 341 = 1" "p_lines p mod 262 = 0"
    and "p_screen p = Some cv" "unat (v_fine_x (p_vram p)) < 7" "y \<le> 239"
  shows "\<exists>q cv'. ppu_runs (P x) (341 * y) p e = Some (q, e) \<and> ppu_ok q \<and> same_regs p q \<and> p_cycles q mod 341 = 1 \<and>
    p_lines q mod 262 = y \<and> addr_of q = row_addr p y \<and> p_screen q = Some cv' \<and> drawn_above R p y cv'"
  using assms(7)
proof (induction y)
  case 0
  then show ?case using assms by (simp add: same_regs_def row_addr_def drawn_above_def)
next
  case (Suc y)
  then obtain q cv' where q: "ppu_runs (P x) (341 * y) p e = Some (q, e)" "ppu_ok q" "same_regs p q"
    "p_cycles q mod 341 = 1" "p_lines q mod 262 = y" "addr_of q = row_addr p y" "p_screen q = Some cv'" "drawn_above R p y cv'"
    by auto
  have "reads x R q" "unat (v_fine_x (p_vram q)) < 7"
    using q(3) assms(6) by (auto simp: same_regs_def intro: reads_memory [OF assms(1)])
  from line_whole [OF this(1) q(2,4,5) _ q(7) this(2), of e] Suc.prems obtain r cv2 where
    r: "ppu_runs (P x) 341 q e = Some (r, e)" "ppu_ok r" "same_regs q r" "p_cycles r mod 341 = 1" "p_lines r mod 262 = y + 1"
    "addr_of r = next_row q (addr_of q)" "p_screen r = Some cv2" "drawn R q y 256 cv' cv2" by auto
  have "ppu_runs (P x) (341 * Suc y) p e = Some (r, e)"
    using ppu_runs_add [of "P x" "341 * y" 341 p e] q(1) r(1) by (simp add: add.commute)
  moreover have "addr_of r = row_addr p (Suc y)" using r(6) q(6) same_regs_steps [OF q(3)] by (simp add: row_addr_def)
  moreover have "drawn_above R p (Suc y) cv2" using drawn_next [OF q(8) r(8) q(3,6)] Suc.prems by simp
  ultimately show ?case using r same_regs_trans [OF q(3) r(3)] by auto
qed

lemma frame_pixels:
  assumes "reads x R p" "ppu_ok p" "p_cycles p mod 341 = 1" "p_lines p mod 262 = 0"
    and "p_screen p = Some cv" "unat (v_fine_x (p_vram p)) < 7"
  shows "\<exists>q cv'. ppu_runs (P x) (341 * 239 + 256) p e = Some (q, e) \<and> p_screen q = Some cv' \<and> drawn_above R p 240 cv'"
proof -
  obtain q cv' where q: "ppu_runs (P x) (341 * 239) p e = Some (q, e)" "ppu_ok q" "same_regs p q"
    "p_cycles q mod 341 = 1" "p_lines q mod 262 = 239" "addr_of q = row_addr p 239" "p_screen q = Some cv'" "drawn_above R p 239 cv'"
    using frame_lines [OF assms order_refl, of e] by blast
  have "reads x R q" "unat (v_fine_x (p_vram q)) < 7"
    using q(3) assms(6) by (auto simp: same_regs_def intro: reads_memory [OF assms(1)])
  from line_part [OF this(1) q(2,4,5) _ q(7) this(2), of e] obtain r cv2 where
    r: "ppu_runs (P x) 256 q e = Some (r, e)" "p_screen r = Some cv2" "drawn R q 239 256 cv' cv2" by auto
  moreover have "drawn_above R p 240 cv2" using drawn_next [OF q(8) r(3) q(3,6)] by simp
  ultimately show ?thesis using q(1) ppu_runs_add [of "P x" "341 * 239" 256 p e] by simp
qed

end

section \<open>Where the rows are\<close>

lemma hpos_steps: "hpos ((inc_x ^^ n) v) = (hpos v + n) mod 64 \<and> same_vertical ((inc_x ^^ n) v) v"
proof (induction n)
  case 0
  have "hpos v < 64" using field_bounds(4) [of v] by (simp add: hpos_def)
  then show ?case by (simp add: same_vertical_def)
next
  case (Suc n)
  then show ?case using inc_x_position [of "(inc_x ^^ n) v"] by (auto simp: same_vertical_def mod_simps)
qed

lemma same_vertical_vpos: "same_vertical a b \<Longrightarrow> vpos a = vpos b \<and> coarse_y a = coarse_y b"
  by (simp add: same_vertical_def vpos_def)

text \<open>With the background shown, every row starts two tiles right of the temporary address, one row lower.\<close>

lemma next_row_position:
  assumes "io_bg_show (p_io p)" "unat (coarse_y v) < 30"
  shows "hpos (next_row p v) = (hpos (tmp_of p) + 2) mod 64 \<and> vpos (next_row p v) = (vpos v + 1) mod 480 \<and>
    unat (coarse_y (next_row p v)) < 30"
proof -
  define a where "a = (inc_x ^^ 31) v"
  have a: "vpos a = vpos v" "coarse_y a = coarse_y v"
    using hpos_steps [of 31 v] same_vertical_vpos by (simp_all add: a_def)
  have y: "vpos (inc_y a) = (vpos v + 1) mod 480" "unat (coarse_y (inc_y a)) < 30"
    using inc_y_position [of a] assms(2) a by simp_all
  have h: "hstep p = inc_x" using assms(1) by (simp add: fun_eq_iff hstep_def)
  define c where "c = copy_x (tmp_of p) (inc_y a)"
  have c: "hpos c = hpos (tmp_of p)" "same_vertical c (inc_y a)"
    using copy_x_position by (simp_all add: c_def)
  have "next_row p v = (inc_x ^^ 2) c"
    using assms(1) by (simp add: next_row_def h hcopy_def vstep_def a_def c_def numeral_2_eq_2)
  with hpos_steps [of 2 c] c y same_vertical_vpos [of c "inc_y a"] same_vertical_vpos [of "(inc_x ^^ 2) c" c]
  show ?thesis by simp
qed

lemma row_position:
  assumes "io_bg_show (p_io p)" "unat (coarse_y (addr_of p)) < 30"
  shows "vpos (row_addr p y) = (vpos (addr_of p) + y) mod 480 \<and>
    hpos (row_addr p y) = (if y = 0 then hpos (addr_of p) else (hpos (tmp_of p) + 2) mod 64) \<and> unat (coarse_y (row_addr p y)) < 30"
proof (induction y)
  case 0
  have "unat (fine_y (addr_of p)) < 8" by (rule field_bounds)
  then have "vpos (addr_of p) < 480" using assms(2) by (simp add: vpos_def)
  then show ?case using assms(2) by (simp add: row_addr_def)
next
  case (Suc y)
  have "row_addr p (Suc y) = next_row p (row_addr p y)" by (simp add: row_addr_def)
  then show ?case using next_row_position [OF assms(1), of "row_addr p y"] Suc by (simp add: mod_simps)
qed

end
