(* ===== verification/File.thy ===== *)
theory File
  imports Prelude
begin

text \<open>
  Reading from a file, \<^verbatim>\<open>emu/util/file.hpp\<close> and \<^verbatim>\<open>emu/util/file.cpp\<close>. A readable \<^verbatim>\<open>FILE\<close> of the C library
  is the list of the bytes still to come; \<^verbatim>\<open>EOF\<close> is \<open>None\<close>. A \<^verbatim>\<open>File\<close> whose buffer pointer is null is
  closed. \<^verbatim>\<open>fopen\<close> and \<^verbatim>\<open>fclose\<close> are parameters. The streams of the C library underneath, with seeking and
  writing, are in theory \<open>FileStream\<close>.
\<close>

section \<open>The class\<close>

record ufile =
  filbuf :: "uint8 list option"
  filname :: string

type_synonym stream = "uint8 list"

definition getc :: "stream \<Rightarrow> uint8 option \<times> stream" where
  "getc s = (case s of [] \<Rightarrow> (None, []) | x # xs \<Rightarrow> (Some x, xs))"

definition ungetc :: "uint8 option \<Rightarrow> stream \<Rightarrow> stream" where
  "ungetc c s = (case c of None \<Rightarrow> s | Some x \<Rightarrow> x # s)"

text \<open>\<^verbatim>\<open>fread(buf, 1, nb, f)\<close>: the bytes stored at the start of the buffer, and the rest.\<close>

definition bread :: "nat \<Rightarrow> stream \<Rightarrow> uint8 list \<times> stream" where
  "bread nb s = (take nb s, drop nb s)"

definition is_space :: "uint8 \<Rightarrow> bool" where
  "is_space c \<longleftrightarrow> c = 0x20 \<or> c = 0x09"

definition is_delim :: "uint8 \<Rightarrow> bool" where
  "is_delim c \<longleftrightarrow> c = 0x0A \<or> c = 0x20 \<or> c = 0x09"

text \<open>The two loops over \<^verbatim>\<open>c = getc()\<close>: both end at the first character that fails the test, or
  at the end, and return that character.\<close>

function skip_loop :: "(uint8 \<Rightarrow> bool) \<Rightarrow> stream \<Rightarrow> uint8 option \<times> stream" where
  "skip_loop p s =
     (case getc s of
        (None, s') \<Rightarrow> (None, s')
      | (Some c, s') \<Rightarrow> if p c then skip_loop p s' else (Some c, s'))"
  by pat_completeness auto
termination
  by (relation "measure (\<lambda>(p, s). length s)") (auto simp: getc_def split: list.splits)

function take_loop :: "(uint8 \<Rightarrow> bool) \<Rightarrow> stream \<Rightarrow> stream \<Rightarrow> stream \<times> uint8 option \<times> stream" where
  "take_loop p str s =
     (case getc s of
        (None, s') \<Rightarrow> (str, None, s')
      | (Some c, s') \<Rightarrow> if p c then take_loop p (str @ [c]) s' else (str, Some c, s'))"
  by pat_completeness auto
termination
  by (relation "measure (\<lambda>(p, str, s). length s)") (auto simp: getc_def split: list.splits)

declare skip_loop.simps [simp del] take_loop.simps [simp del]

definition getword :: "stream \<Rightarrow> bool \<times> stream \<times> stream" where
  "getword s =
     (let (c, s) = skip_loop is_space s;
          s = ungetc c s;
          (str, c, s) = take_loop (\<lambda>c. \<not> is_delim c) [] s;
          s = ungetc c s
      in (c \<noteq> None, str, s))"

definition getline :: "uint8 \<Rightarrow> stream \<Rightarrow> bool \<times> stream \<times> stream" where
  "getline delim s =
     (let (c, s) = skip_loop is_space s;
          s = ungetc c s;
          (str, c, s) = take_loop (\<lambda>c. c \<noteq> delim) [] s
      in (c \<noteq> None, str, s))"

section \<open>Opening and closing\<close>

text \<open>
  The whole object: besides the buffer and the name the text of the last error, and whether the
  buffer is one of the standard streams, which are never closed.
\<close>

record file_obj = ufile +
  errstr :: string
  is_std :: bool

datatype fmode = M_READ | M_WRITE | M_MODIFY | M_APPEND

type_synonym fopen = "string \<Rightarrow> string \<Rightarrow> stream option \<times> string"

definition file_default :: file_obj where
  "file_default = \<lparr>filbuf = None, filname = [], errstr = [], is_std = False\<rparr>"

definition file_bool :: "file_obj \<Rightarrow> bool" where
  "file_bool f \<longleftrightarrow> filbuf f \<noteq> None"

definition file_close :: "int \<Rightarrow> file_obj \<Rightarrow> int \<times> file_obj" where
  "file_close ret f =
     (if filbuf f = None \<or> is_std f then (0, f) else (ret, f\<lparr>filbuf := None, filname := []\<rparr>))"

primrec mode_str :: "fmode \<Rightarrow> string" where
  "mode_str M_READ = ''rb''"
| "mode_str M_WRITE = ''wb''"
| "mode_str M_MODIFY = ''rb+''"
| "mode_str M_APPEND = ''ab''"

text \<open>\<open>fopen\<close> answers with the buffer or null, and with the text of \<^verbatim>\<open>errno\<close>.\<close>

definition file_open :: "fopen \<Rightarrow> string \<Rightarrow> fmode \<Rightarrow> file_obj \<Rightarrow> bool \<times> file_obj" where
  "file_open fopen pathname filemode f =
     (let f = snd (file_close 0 f);
          (buf, err) = fopen pathname (mode_str filemode);
          f = f\<lparr>filbuf := buf, is_std := False\<rparr>
      in if buf = None then (False, f\<lparr>errstr := err\<rparr>) else (True, f\<lparr>filname := pathname\<rparr>))"

definition file_assoc :: "stream option \<Rightarrow> bool \<Rightarrow> file_obj \<Rightarrow> file_obj" where
  "file_assoc buf std f = f\<lparr>filbuf := buf, is_std := std\<rparr>"

definition file_release :: "file_obj \<Rightarrow> stream option \<times> file_obj" where
  "file_release f = (filbuf f, f\<lparr>filname := [], filbuf := None, is_std := False\<rparr>)"

text \<open>Move assignment swaps buffers and names, and leaves the error texts where they are.\<close>

definition file_move :: "file_obj \<Rightarrow> file_obj \<Rightarrow> file_obj \<times> file_obj" where
  "file_move this f =
     (this\<lparr>filbuf := filbuf f, is_std := is_std f, filname := filname f\<rparr>,
      f\<lparr>filbuf := filbuf this, is_std := is_std this, filname := filname this\<rparr>)"

lemma file_move_move: "file_move this f = (this', f') \<Longrightarrow> file_move this' f' = (this, f)"
  by (auto simp: file_move_def)

lemma file_open_result:
  assumes "file_open fopen path md f = (ok, f')"
  shows "ok = file_bool f'" "file_bool f' \<longleftrightarrow> fst (fopen path (mode_str md)) \<noteq> None"
    "\<not> ok \<Longrightarrow> errstr f' = snd (fopen path (mode_str md))" "ok \<Longrightarrow> filname f' = path"
  using assms by (auto simp: file_open_def Let_def case_prod_unfold file_bool_def split: if_splits)

lemma file_close_twice: "file_close r (snd (file_close r f)) = (0, snd (file_close r f))"
  by (simp add: file_close_def)

section \<open>What the loops compute\<close>

lemma skip_loop_eq: "ungetc (fst (skip_loop p s)) (snd (skip_loop p s)) = dropWhile p s"
proof (induction s)
  case Nil
  then show ?case by (simp add: skip_loop.simps getc_def ungetc_def)
next
  case (Cons x s)
  then show ?case by (subst (1 2) skip_loop.simps) (simp add: getc_def ungetc_def)
qed

lemma take_loop_eq:
  "take_loop p str s =
   (str @ takeWhile p s,
    (case dropWhile p s of [] \<Rightarrow> None | c # _ \<Rightarrow> Some c), (case dropWhile p s of [] \<Rightarrow> [] | _ # r \<Rightarrow> r))"
proof (induction s arbitrary: str)
  case Nil
  then show ?case by (simp add: take_loop.simps getc_def)
next
  case (Cons x s)
  then show ?case by (subst take_loop.simps) (simp add: getc_def)
qed

lemma getline_eq:
  "getline delim s =
   (let t = dropWhile is_space s
    in (delim \<in> set t, takeWhile (\<lambda>c. c \<noteq> delim) t, tl (dropWhile (\<lambda>c. c \<noteq> delim) t)))"
proof -
  have "(case dropWhile (\<lambda>c. c \<noteq> delim) t of [] \<Rightarrow> None | c # _ \<Rightarrow> Some c) \<noteq> None \<longleftrightarrow> delim \<in> set t" for t :: stream
    by (induction t) auto
  moreover have "(case u of [] \<Rightarrow> [] | _ # r \<Rightarrow> r) = tl u" for u :: stream by (cases u) auto
  ultimately show ?thesis
    by (simp add: getline_def Let_def case_prod_unfold skip_loop_eq take_loop_eq)
qed

text \<open>
  A successful \<^verbatim>\<open>getline\<close> consumes the delimiter, so the loop of \<^verbatim>\<open>getall\<close> ends.
\<close>

lemma getline_shorter:
  assumes "getline delim s = (True, str, s')"
  shows "length s' < length s"
proof -
  let ?t = "dropWhile is_space s" and ?u = "dropWhile (\<lambda>c. c \<noteq> delim) (dropWhile is_space s)"
  have d: "delim \<in> set ?t" and s': "s' = tl ?u"
    using assms by (simp_all add: getline_eq Let_def)
  have "?u \<noteq> []" using d by (simp add: dropWhile_eq_Nil_conv)
  then have "length s' < length ?u" by (simp add: s')
  also have "\<dots> \<le> length s" by (meson length_dropWhile_le le_trans)
  finally show ?thesis .
qed

function getall :: "stream \<Rightarrow> stream \<Rightarrow> stream" where
  "getall str s =
     (case getline 0x0A s of
        (ok, tmp, s') \<Rightarrow> if ok then getall (str @ tmp @ [0x0A]) s' else str)"
  by pat_completeness auto
termination
  by (relation "measure (\<lambda>(str, s). length s)") (auto dest: getline_shorter [OF sym])

declare getall.simps [simp del]

section \<open>Reading a text\<close>

definition plain_line :: "stream \<Rightarrow> bool" where
  "plain_line l \<longleftrightarrow> 0x0A \<notin> set l \<and> (l \<noteq> [] \<longrightarrow> \<not> is_space (hd l))"

lemma getline_plain:
  assumes "plain_line l"
  shows "getline 0x0A (l @ 0x0A # s) = (True, l, s)"
proof -
  have "dropWhile is_space (l @ 0x0A # s) = l @ 0x0A # s"
    using assms by (cases l) (simp_all add: plain_line_def is_space_def)
  moreover have "takeWhile (\<lambda>c. c \<noteq> 0x0A) (l @ 0x0A # s) = l" "dropWhile (\<lambda>c. c \<noteq> 0x0A) (l @ 0x0A # s) = 0x0A # s"
    using assms by (auto simp: plain_line_def takeWhile_append dropWhile_append)
  ultimately show ?thesis by (simp add: getline_eq)
qed

lemma getall_lines:
  assumes "list_all plain_line ls" "0x0A \<notin> set rest"
  shows "getall str (concat (map (\<lambda>l. l @ [0x0A]) ls) @ rest) = str @ concat (map (\<lambda>l. l @ [0x0A]) ls)"
  using assms(1)
proof (induction ls arbitrary: str)
  case Nil
  have "0x0A \<notin> set (dropWhile is_space rest)" using assms(2) by (meson set_dropWhileD)
  then show ?case by (subst getall.simps) (simp add: getline_eq Let_def)
next
  case (Cons l ls)
  then show ?case by (subst getall.simps) (simp add: getline_plain)
qed

text \<open>
  C30: \<^verbatim>\<open>getall\<close> returns the terminated lines of a text unchanged, provided no line starts with a
  blank, and drops an unterminated last line.
\<close>

theorem getall_terminated_lines:
  assumes "list_all plain_line ls" "0x0A \<notin> set rest"
  shows "getall [] (concat (map (\<lambda>l. l @ [0x0A]) ls) @ rest) = concat (map (\<lambda>l. l @ [0x0A]) ls)"
  using getall_lines [OF assms, of "[]"] by simp

theorem getall_terminated_lines_witness:
  "getall [] (concat (map (\<lambda>l. l @ [0x0A]) [[0x61, 0x62], [], [0x63]]) @ [0x64]) =
   concat (map (\<lambda>l. l @ [0x0A]) [[0x61, 0x62], [], [0x63]])"
  by (rule getall_terminated_lines) (simp_all add: plain_line_def is_space_def)

section \<open>Bytes and characters\<close>

definition text_of :: "stream \<Rightarrow> string" where
  "text_of s = map (\<lambda>b. char_of (unat b)) s"

definition bytes_of :: "string \<Rightarrow> stream" where
  "bytes_of t = map (\<lambda>c. of_nat (of_char c)) t"

lemma byte_char: "char_of (unat (of_nat (of_char c) :: uint8)) = c"
proof -
  have "of_char c < (256 :: nat)" by simp
  then show ?thesis by (simp add: unat_of_nat)
qed

lemma byte_char_eq: "(of_nat (of_char c) = (of_nat (of_char d) :: uint8)) = (c = d)"
  by (metis byte_char)

lemma text_of_bytes [simp]: "text_of (bytes_of t) = t"
  by (simp add: text_of_def bytes_of_def byte_char comp_def)

lemma bytes_of_append [simp]: "bytes_of (s @ t) = bytes_of s @ bytes_of t" "bytes_of (c # s) = of_nat (of_char c) # bytes_of s"
  "bytes_of [] = []"
  by (simp_all add: bytes_of_def)

lemma bytes_of_eq_Nil [simp]: "bytes_of t = [] \<longleftrightarrow> t = []"
  by (simp add: bytes_of_def)

lemma byte_in_bytes_of: "of_nat (of_char c) \<in> set (bytes_of t) \<longleftrightarrow> c \<in> set t"
  by (auto simp: bytes_of_def byte_char_eq image_iff)

lemma byte_literals: "(0x0A :: uint8) = of_nat (of_char CHR 0x0A)" "(0x20 :: uint8) = of_nat (of_char CHR '' '')"
  "(0x09 :: uint8) = of_nat (of_char CHR 0x09)"
  by simp_all

lemma plain_line_bytes:
  "plain_line (bytes_of t) \<longleftrightarrow> CHR 0x0A \<notin> set t \<and> (t \<noteq> [] \<longrightarrow> hd t \<noteq> CHR '' '' \<and> hd t \<noteq> CHR 0x09)"
  unfolding plain_line_def is_space_def byte_literals byte_in_bytes_of by (cases t) (simp_all add: byte_char_eq del: of_char_Char)

end
