(* ===== verification/Cartridge.thy ===== *)
theory Cartridge
  imports HeapArray File Ppu
begin

text \<open>
  The cartridge of \<^verbatim>\<open>emu/core/cartridge.hpp\<close> and \<^verbatim>\<open>emu/core/cartridge.cpp\<close>: parsing an iNES image and
  reading the program and character memories. Arrays of the class that start uninitialised are
  functions from indices; a short read leaves their tail as it was. Fresh blocks of the two
  memories have contents from the parameter \<open>junk\<close>. The handlers that \<^verbatim>\<open>attach_bus\<close> installs are in
  theory \<open>Emulator\<close>.
\<close>

unbundle bit_operations_syntax

section \<open>The class\<close>

definition HEADER_LEN :: nat where "HEADER_LEN = 16"
definition TRAINER_LEN :: nat where "TRAINER_LEN = 512"

record cartridge =
  c_name :: string
  c_format :: string
  c_prgrom :: "uint8 heaparray"
  c_chrrom :: "uint8 heaparray"
  c_header :: "nat \<Rightarrow> uint8"
  c_trainer :: "nat \<Rightarrow> uint8"
  c_mapper :: uint16
  c_submapper :: uint8
  c_prgram_size :: uint32
  c_chrram_size :: uint32
  c_nt_mirroring :: mirroring
  has_prgram :: bool
  has_chrram :: bool
  has_battery :: bool
  has_trainer :: bool

definition store_bytes :: "uint8 list \<Rightarrow> (nat \<Rightarrow> uint8) \<Rightarrow> nat \<Rightarrow> uint8" where
  "store_bytes bs f i = (if i < length bs then bs ! i else f i)"

datatype format = INVALID | INES | NES20

definition file_format :: "(nat \<Rightarrow> uint8) \<Rightarrow> format" where
  "file_format h =
     (if h 0 = 0x4E \<and> h 1 = 0x45 \<and> h 2 = 0x53 \<and> h 3 = 0x1A
      then (if h 7 AND 0xC = 0x8 then NES20 else INES) else INVALID)"

definition parse_common :: "cartridge \<Rightarrow> cartridge" where
  "parse_common c = (let h = c_header c in
     c\<lparr>c_nt_mirroring := (if h 6 AND 1 = 0 then HORZ else VERT),
       has_battery := (h 6 AND 2 \<noteq> 0), has_trainer := (h 6 AND 4 \<noteq> 0),
       c_mapper := ucast (drop_bit 4 (h 6 AND 0xF0)) OR ucast (h 7 AND 0xF0)\<rparr>)"

definition parse_ines :: "cartridge \<Rightarrow> cartridge" where
  "parse_ines c = (let h = c_header c;
       c = (if h 5 = 0 then c\<lparr>has_chrram := True\<rparr> else c)
     in c\<lparr>c_prgram_size := ucast (h 8), has_prgram := (h 10 AND 0x10 \<noteq> 0)\<rparr>)"

text \<open>Resizing one of the memories and reading its contents from the image.\<close>

definition load_rom :: "(nat \<Rightarrow> uint8) \<Rightarrow> nat \<Rightarrow> uint8 heaparray \<Rightarrow> stream \<Rightarrow> uint8 heaparray \<times> stream" where
  "load_rom junk len a s =
     (let a = ha_reset len junk a; (bs, s) = bread (ha_size a) s
      in (a\<lparr>ha_elems := store_bytes bs (ha_elems a)\<rparr>, s))"

definition parse_body :: "(nat \<Rightarrow> uint8) \<Rightarrow> cartridge \<Rightarrow> stream \<Rightarrow> cartridge \<times> stream" where
  "parse_body junk c s =
     (let c = parse_ines (parse_common (c\<lparr>c_format := ''iNES''\<rparr>));
          (c, s) = (if has_trainer c
                    then (let (bs, s) = bread TRAINER_LEN s
                          in (c\<lparr>c_trainer := store_bytes bs (c_trainer c)\<rparr>, s))
                    else (c, s));
          (c, s) = (if \<not> has_prgram c
                    then (let (a, s) = load_rom junk (unat (c_header c 4) * 16384) (c_prgrom c) s
                          in (c\<lparr>c_prgrom := a\<rparr>, s))
                    else (c, s));
          (c, s) = (if \<not> has_chrram c
                    then (let (a, s) = load_rom junk (unat (c_header c 5) * 8192) (c_chrrom c) s
                          in (c\<lparr>c_chrrom := a\<rparr>, s))
                    else (c, s))
      in (c, s))"

definition parse :: "(nat \<Rightarrow> uint8) \<Rightarrow> ufile \<Rightarrow> cartridge \<Rightarrow> bool \<times> cartridge \<times> ufile" where
  "parse junk romfile c =
     (case filbuf romfile of
        None \<Rightarrow> (False, c, romfile)
      | Some s \<Rightarrow>
          (let c = c\<lparr>c_name := filname romfile\<rparr>;
               (bs, s) = bread HEADER_LEN s;
               c = c\<lparr>c_header := store_bytes bs (c_header c)\<rparr>
           in case file_format (c_header c) of
                INES \<Rightarrow> (let (c, s) = parse_body junk c s in (True, c, romfile\<lparr>filbuf := Some s\<rparr>))
              | _ \<Rightarrow> (False, c, romfile\<lparr>filbuf := Some s\<rparr>)))"

definition read_prgrom :: "uint16 \<Rightarrow> cartridge \<Rightarrow> uint8 option" where
  "read_prgrom addr c =
     (let offset = addr - 0x8000;
          start = of_nat (ha_size (c_prgrom c)) - 0x8000;
          eff_addr = start + offset
      in ha_get (c_prgrom c) (unat eff_addr))"

definition read_chrrom :: "uint16 \<Rightarrow> cartridge \<Rightarrow> uint8 option" where
  "read_chrrom addr c = ha_get (c_chrrom c) (unat addr)"

definition getinfo :: "formatter \<Rightarrow> cartridge \<Rightarrow> string" where
  "getinfo F c =
     c_name c @ '': '' @ c_format c @ '', mapper '' @ fmtdec F (uint (c_mapper c)) @ '', '' @
     fmtdec F (uint (c_header c 4)) @ ''x16k PRG ROM, '' @ fmtdec F (uint (c_header c 5)) @
     ''x8k CHR ROM, '' @ fmtdec F (if has_prgram c then uint (c_prgram_size c) else 0) @ '' PRG RAM, '' @
     fmtdec F (if has_chrram c then uint (c_chrram_size c) else 0) @ '' CHR RAM, '' @
     (if c_nt_mirroring c = HORZ then ''H'' else ''V'') @ ''-Mirror'' @
     (if has_battery c then '', contains SRAM'' else []) @
     (if has_trainer c then '', contains Trainer'' else [])"

section \<open>Parsing an image\<close>

lemma store_bytes_in [simp]: "i < length bs \<Longrightarrow> store_bytes bs f i = bs ! i"
  by (simp add: store_bytes_def)

definition holds_bytes :: "uint8 heaparray \<Rightarrow> uint8 list \<Rightarrow> bool" where
  "holds_bytes a bs \<longleftrightarrow> ha_len a = length bs \<and> (\<forall>i. i < length bs \<longrightarrow> ha_get a i = Some (bs ! i))"

lemma load_rom_exact:
  assumes "length bs = n"
  shows "\<exists>a'. load_rom junk n a (bs @ rest) = (a', rest) \<and> holds_bytes a' bs"
  using assms by (simp add: load_rom_def Let_def bread_def ha_reset_def ha_size_def holds_bytes_def ha_get_def)

lemma file_format_cong:
  "(\<And>i. i < 16 \<Longrightarrow> g i = h i) \<Longrightarrow> file_format g = file_format h"
  by (simp add: file_format_def)

text \<open>
  The parts of an iNES image with character ROM, in file order. Bit 4 of byte 10 is clear: \<^verbatim>\<open>parse\<close> also accepts an
  image with the bit set, takes it for one with program RAM and then loads no program memory.
\<close>

definition ines_image :: "uint8 list \<Rightarrow> uint8 list \<Rightarrow> uint8 list \<Rightarrow> uint8 list \<Rightarrow> bool" where
  "ines_image hdr tr prg chr \<longleftrightarrow> length hdr = 16 \<and> file_format (nth hdr) = INES \<and>
     hdr ! 10 AND 0x10 = 0 \<and> hdr ! 5 \<noteq> 0 \<and>
     length tr = (if hdr ! 6 AND 4 \<noteq> 0 then 512 else 0) \<and>
     length prg = unat (hdr ! 4) * 16384 \<and> length chr = unat (hdr ! 5) * 8192"

lemma parse_parts:
  assumes "ines_image hdr tr prg chr" "filbuf f = Some (hdr @ tr @ prg @ chr @ rest)" "\<not> has_chrram c"
  shows "\<exists>c' f'. parse junk f c = (True, c', f') \<and> holds_bytes (c_prgrom c') prg \<and>
    holds_bytes (c_chrrom c') chr \<and> filbuf f' = Some rest \<and>
    c_nt_mirroring c' = (if bit (hdr ! 6) 0 then VERT else HORZ) \<and>
    c_mapper c' = ucast (drop_bit 4 (hdr ! 6 AND 0xF0)) OR ucast (hdr ! 7 AND 0xF0)"
proof -
  have im: "length hdr = 16" "file_format (nth hdr) = INES" "hdr ! 10 AND 0x10 = 0" "hdr ! 5 \<noteq> 0"
    "length tr = (if hdr ! 6 AND 4 \<noteq> 0 then 512 else 0)"
    "length prg = unat (hdr ! 4) * 16384" "length chr = unat (hdr ! 5) * 8192"
    using assms(1) by (simp_all add: ines_image_def)
  define c0 where "c0 = c\<lparr>c_name := filname f, c_header := store_bytes hdr (c_header c)\<rparr>"
  define c1 where "c1 = parse_ines (parse_common (c0\<lparr>c_format := ''iNES''\<rparr>))"
  have h: "c_header c0 i = hdr ! i" if "i < 16" for i using that im(1) by (simp add: c0_def)
  have ff: "file_format (c_header c0) = INES" using file_format_cong [of "c_header c0" "nth hdr"] h im(2) by simp
  have c1: "c_header c1 = c_header c0" "\<not> has_prgram c1" "\<not> has_chrram c1" "has_trainer c1 = (hdr ! 6 AND 4 \<noteq> 0)"
    "c_nt_mirroring c1 = (if hdr ! 6 AND 1 = 0 then HORZ else VERT)"
    "c_mapper c1 = ucast (drop_bit 4 (hdr ! 6 AND 0xF0)) OR ucast (hdr ! 7 AND 0xF0)"
    using assms(3) im h by (simp_all add: c1_def parse_ines_def parse_common_def Let_def) (simp add: c0_def)
  define c2 where "c2 = (if has_trainer c1 then c1\<lparr>c_trainer := store_bytes tr (c_trainer c1)\<rparr> else c1)"
  have tr: "(if has_trainer c1 then (let (bs, s) = bread TRAINER_LEN (tr @ prg @ chr @ rest)
        in (c1\<lparr>c_trainer := store_bytes bs (c_trainer c1)\<rparr>, s)) else (c1, tr @ prg @ chr @ rest))
      = (c2, prg @ chr @ rest)"
    using im(5) c1(4) by (auto simp: c2_def bread_def TRAINER_LEN_def split: if_splits)
  have c2: "c_header c2 = c_header c0" "\<not> has_prgram c2" "\<not> has_chrram c2" "c_nt_mirroring c2 = c_nt_mirroring c1"
    "c_mapper c2 = c_mapper c1" using c1 by (simp_all add: c2_def)
  obtain a where a: "load_rom junk (unat (hdr ! 4) * 16384) (c_prgrom c2) (prg @ chr @ rest) = (a, chr @ rest)"
    "holds_bytes a prg" using load_rom_exact [OF im(6)] by blast
  obtain b where b: "load_rom junk (unat (hdr ! 5) * 8192) (c_chrrom c2) (chr @ rest) = (b, rest)"
    "holds_bytes b chr" using load_rom_exact [OF im(7)] by blast
  have "parse_body junk c0 (tr @ prg @ chr @ rest) = (c2\<lparr>c_prgrom := a, c_chrrom := b\<rparr>, rest)"
    unfolding parse_body_def Let_def c1_def [symmetric] tr [unfolded Let_def] using c2 a b h by simp
  then have "parse junk f c = (True, c2\<lparr>c_prgrom := a, c_chrrom := b\<rparr>, f\<lparr>filbuf := Some rest\<rparr>)"
    using assms(2) im(1) ff by (simp add: parse_def bread_def HEADER_LEN_def c0_def Let_def)
  moreover have "(hdr ! 6 AND 1 = 0) = (\<not> bit (hdr ! 6) 0)" using and_mask_bit(1) [of "hdr ! 6"] by argo
  ultimately show ?thesis using a b c1 c2 by auto
qed

text \<open>
  C25: parsing a complete iNES image with character ROM and bit 4 of header byte 10 clear (with the bit set
  the code loads no program memory) succeeds and stores its parts: the
  program memory holds exactly the bytes after the header and the optional trainer, the
  character memory the bytes after those, the mirroring is bit 0 of byte 6 and the mapper its
  high nibble with that of byte 7; reading stops right after the character memory.
\<close>

theorem parse_image:
  assumes "ines_image hdr tr prg chr" "filbuf f = Some (hdr @ tr @ prg @ chr @ rest)" "\<not> has_chrram c"
  shows "\<exists>c' f'. parse junk f c = (True, c', f') \<and> holds_bytes (c_prgrom c') prg \<and>
    holds_bytes (c_chrrom c') chr \<and> filbuf f' = Some rest \<and>
    c_nt_mirroring c' = (if bit (hdr ! 6) 0 then VERT else HORZ) \<and>
    c_mapper c' = ucast (drop_bit 4 (hdr ! 6 AND 0xF0)) OR ucast (hdr ! 7 AND 0xF0)"
  using assms by (rule parse_parts)

text \<open>
  An image is rejected exactly when the file is closed, the magic number is wrong or it is in
  the NES 2.0 format; a rejected image leaves both memories of the cartridge as they were.
\<close>

theorem parse_rejects:
  "(\<not> fst (parse junk f c)) =
     (case filbuf f of None \<Rightarrow> True
      | Some s \<Rightarrow> file_format (store_bytes (take 16 s) (c_header c)) \<noteq> INES) \<and>
   (fst (parse junk f c) \<or> c_prgrom (fst (snd (parse junk f c))) = c_prgrom c \<and>
      c_chrrom (fst (snd (parse junk f c))) = c_chrrom c)"
  by (auto simp: parse_def bread_def HEADER_LEN_def Let_def case_prod_unfold split: option.splits format.splits)

section \<open>Reading the program memory\<close>

lemma eff_addr: "unat ((of_nat n - 0x8000) + (a - 0x8000) :: uint16) = (n + unat a) mod 65536"
proof -
  have "x - k + (a - k) = x + a - (k + k)" for x k :: uint16 by (simp add: algebra_simps)
  then have "(of_nat n - 0x8000) + (a - 0x8000) = of_nat n + a - (0x8000 + 0x8000)" .
  also have "(0x8000 :: uint16) + 0x8000 = 0" by simp
  finally have "(of_nat n - 0x8000) + (a - 0x8000) = (of_nat (n + unat a) :: uint16)" by simp
  then show ?thesis by (simp only: unat_of_nat) simp
qed

lemma mod_65536: "r < 65536 \<Longrightarrow> (65536 + r) mod 65536 = r" for r :: nat
  by simp

lemma read_prgrom_eq:
  "read_prgrom a c = ha_get (c_prgrom c) ((ha_len (c_prgrom c) + unat a) mod 65536)"
  by (simp only: read_prgrom_def Let_def ha_size_def eff_addr)

lemma read_last_32k:
  assumes "holds_bytes (c_prgrom c) prg" "length prg = n * 16384" "2 \<le> n" "n \<le> 4" "0x8000 \<le> a"
  shows "read_prgrom a c = Some (prg ! (length prg - 0x8000 + (unat a - 0x8000)))"
proof -
  have a: "0x8000 \<le> unat a" "unat a < 65536" using assms(5) by (simp_all add: word_le_nat_alt)
  define r where "r = length prg - 0x8000 + (unat a - 0x8000)"
  have r: "length prg + unat a = 65536 + r" "r < 65536" "r < length prg"
    unfolding r_def using a assms(2-4) by linarith+
  then show ?thesis using assms(1)
    unfolding read_prgrom_eq r_def [symmetric] holds_bytes_def by (simp add: mod_65536)
qed

text \<open>
  With two to four banks of 16 KiB, every address from \<^verbatim>\<open>0x8000\<close> up reads the last 32 KiB of the
  program memory in order.
\<close>

theorem prgrom_last_32k:
  assumes "holds_bytes (c_prgrom c) prg" "length prg = n * 16384" "2 \<le> n" "n \<le> 4" "0x8000 \<le> a"
  shows "read_prgrom a c = Some (prg ! (length prg - 0x8000 + (unat a - 0x8000)))"
  using assms by (rule read_last_32k)

text \<open>
  C26: with one bank of 16 KiB the upper half \<^verbatim>\<open>0xC000\<close> to \<^verbatim>\<open>0xFFFF\<close> reads the bank in order, but
  every read from \<^verbatim>\<open>0x8000\<close> to \<^verbatim>\<open>0xBFFF\<close>, where the bank should appear again, is outside the array.
\<close>

theorem prgrom_16k:
  assumes "holds_bytes (c_prgrom c) prg" "length prg = 16384" "0x8000 \<le> a"
  shows "read_prgrom a c = (if 0xC000 \<le> a then Some (prg ! (unat a - 0xC000)) else None)"
proof -
  have a: "0x8000 \<le> unat a" "unat a < 65536" using assms(3) by (simp_all add: word_le_nat_alt)
  have l: "ha_len (c_prgrom c) = 16384" using assms(1,2) by (simp add: holds_bytes_def)
  show ?thesis
  proof (cases "0xC000 \<le> unat a")
    case True
    define r where "r = unat a - 0xC000"
    have r: "16384 + unat a = 65536 + r" "r < 16384" unfolding r_def using True a by linarith+
    then have "read_prgrom a c = Some (prg ! r)"
      using assms(1,2) unfolding read_prgrom_eq l by (simp add: mod_65536 holds_bytes_def)
    then show ?thesis using True by (simp add: r_def word_le_nat_alt)
  next
    case False
    then have "(16384 + unat a) mod 65536 = 16384 + unat a" by (intro mod_less) linarith
    then show ?thesis using False a by (simp add: read_prgrom_eq l ha_get_def word_le_nat_alt)
  qed
qed

section \<open>A fresh cartridge and a small image\<close>

definition cartridge_new :: "(nat \<Rightarrow> uint8) \<Rightarrow> cartridge" where
  "cartridge_new junk = \<lparr>c_name = [], c_format = [], c_prgrom = ha_default junk, c_chrrom = ha_default junk,
     c_header = junk, c_trainer = junk, c_mapper = 0, c_submapper = 0, c_prgram_size = 0,
     c_chrram_size = 0, c_nt_mirroring = VERT, has_prgram = False, has_chrram = False,
     has_battery = False, has_trainer = False\<rparr>"

definition small_header :: "uint8 list" where
  "small_header = [0x4E, 0x45, 0x53, 0x1A, 2, 1, 1, 0, 0, 0, 0, 0, 0, 0, 0, 0]"

lemma small_image: "ines_image small_header [] (replicate 0x8000 0xEA) (replicate 0x2000 0)"
  by (simp add: ines_image_def small_header_def file_format_def)

theorem parse_image_witness:
  "\<exists>c' f'. parse (\<lambda>_. 0) \<lparr>filbuf = Some (small_header @ [] @ replicate 0x8000 0xEA @ replicate 0x2000 0 @ []), filname = ''a''\<rparr>
      (cartridge_new (\<lambda>_. 0)) = (True, c', f') \<and> holds_bytes (c_prgrom c') (replicate 0x8000 0xEA)"
  using parse_image [OF small_image, of
      "\<lparr>filbuf = Some (small_header @ [] @ replicate 0x8000 0xEA @ replicate 0x2000 0 @ []), filname = ''a''\<rparr>" "[]"
      "cartridge_new (\<lambda>_. 0)" "\<lambda>_. 0"]
  by (auto simp: cartridge_new_def simp del: append.simps)

definition rom_of :: "uint8 list \<Rightarrow> uint8 heaparray" where
  "rom_of bs = \<lparr>ha_len = length bs, ha_elems = nth bs\<rparr>"

lemma rom_of_holds: "holds_bytes (rom_of bs) bs"
  by (simp add: holds_bytes_def rom_of_def ha_get_def)

theorem prgrom_last_32k_witness:
  "read_prgrom 0x8001 ((cartridge_new (\<lambda>_. 0))\<lparr>c_prgrom := rom_of (replicate 0x8000 0xEA)\<rparr>) =
   Some (replicate 0x8000 0xEA ! (length (replicate 0x8000 (0xEA :: uint8)) - 0x8000 + (unat (0x8001 :: uint16) - 0x8000)))"
  by (rule prgrom_last_32k [where n = 2]) (simp_all add: rom_of_holds)

theorem prgrom_16k_witness:
  "read_prgrom 0x8001 ((cartridge_new (\<lambda>_. 0))\<lparr>c_prgrom := rom_of (replicate 0x4000 0xEA)\<rparr>) =
   (if 0xC000 \<le> (0x8001 :: uint16) then Some (replicate 0x4000 0xEA ! (unat (0x8001 :: uint16) - 0xC000)) else None)"
  by (rule prgrom_16k) (simp_all add: rom_of_holds)

end
