(* ===== verification/Emulator.thy ===== *)
theory Emulator
  imports Bus CpuRefines CpuInvariant PpuLine Cartridge
begin

text \<open>
  The machine, \<^verbatim>\<open>emu/core/emulator.hpp\<close> and \<^verbatim>\<open>emu/core/emulator.cpp\<close>: the wiring of the two buses by the
  \<^verbatim>\<open>attach_bus\<close> functions of the processor, the picture unit and the cartridge, and the loops that run
  an instruction and a frame.

  The closures on the buses are values of four datatypes, one constructor per lambda of the
  source, with an interpreter each. What the processor reaches through its bus is the record
  \<open>memside\<close>: RAM, picture unit, both buses, cartridge. Parameters: \<open>ns\<close> is the result of the
  negative shift of the picture unit, \<open>cb\<close> the callback of an attached debugger, \<open>junk\<close> the
  contents of fresh memory blocks.
\<close>

unbundle bit_operations_syntax

section \<open>Handlers\<close>

datatype reader = R_Ram | R_Apu | R_PpuReg | R_Cart | R_Prg
datatype writer = W_Ram | W_Apu | W_PpuReg | W_Cart | W_Prg
datatype vreader = VR_Pal | VR_Zero | VR_Nt mirroring | VR_Chr
datatype vwriter = VW_Pal | VW_Nop | VW_Nt mirroring | VW_Chr

record memside =
  ms_ram :: "nat \<Rightarrow> uint8"
  ms_ppu :: ppu
  ms_rambus :: "(reader, writer) bus"
  ms_vrambus :: "(vreader, vwriter) bus"
  ms_cart :: cartridge

primrec run_vreader :: "vreader \<Rightarrow> uint16 \<Rightarrow> cartridge \<Rightarrow> ppu \<Rightarrow> uint8 option" where
  "run_vreader VR_Pal a cart p = pal_read a p"
| "run_vreader VR_Zero a cart p = Some 0"
| "run_vreader (VR_Nt m) a cart p = nt_read m a p"
| "run_vreader VR_Chr a cart p = read_chrrom a cart"

primrec run_vwriter :: "vwriter \<Rightarrow> uint16 \<Rightarrow> uint8 \<Rightarrow> ppu \<Rightarrow> ppu option" where
  "run_vwriter VW_Pal a v p = pal_write a v p"
| "run_vwriter VW_Nop a v p = Some p"
| "run_vwriter (VW_Nt m) a v p = nt_write m a v p"
| "run_vwriter VW_Chr a v p = Some p"

text \<open>The callback of the constructor: the flag of the emulator and the line of the processor.\<close>

definition signal_nmi :: "cpu \<times> bool \<Rightarrow> cpu \<times> bool" where
  "signal_nmi = (\<lambda>(c, nmi). (fire_nmi c, True))"

definition emu_ppu_ports :: "(int \<Rightarrow> uint8) \<Rightarrow> memside \<Rightarrow> (cpu \<times> bool) ppu_ports" where
  "emu_ppu_ports ns m =
     \<lparr>vread = (\<lambda>a p. bus_read (\<lambda>r a. run_vreader r a (ms_cart m) p) (ms_vrambus m) a),
      vwrite = (\<lambda>a v p. bus_write (\<lambda>w a v. run_vwriter w a v p) (ms_vrambus m) a v),
      nmi_callback = Some signal_nmi, neg_shift = ns\<rparr>"

primrec run_reader :: "(int \<Rightarrow> uint8) \<Rightarrow> reader \<Rightarrow> uint16 \<Rightarrow> memside \<Rightarrow> (uint8 \<times> memside) option" where
  "run_reader ns R_Ram a m = Some (ms_ram m (unat (a AND 0x7FF)), m)"
| "run_reader ns R_Apu a m = Some (0, m)"
| "run_reader ns R_PpuReg a m =
     do { (v, p) \<leftarrow> readreg (emu_ppu_ports ns m) (0x2000 + (a AND 0x7)) (ms_ppu m);
          Some (v, m\<lparr>ms_ppu := p\<rparr>) }"
| "run_reader ns R_Cart a m = Some (0, m)"
| "run_reader ns R_Prg a m = do { v \<leftarrow> read_prgrom a (ms_cart m); Some (v, m) }"

primrec run_writer :: "(int \<Rightarrow> uint8) \<Rightarrow> writer \<Rightarrow> uint16 \<Rightarrow> uint8 \<Rightarrow> memside \<Rightarrow> memside option" where
  "run_writer ns W_Ram a v m = Some (m\<lparr>ms_ram := (ms_ram m)(unat (a AND 0x7FF) := v)\<rparr>)"
| "run_writer ns W_Apu a v m = Some m"
| "run_writer ns W_PpuReg a v m =
     do { p \<leftarrow> writereg (emu_ppu_ports ns m) (0x2000 + (a AND 0x7)) v (ms_ppu m);
          Some (m\<lparr>ms_ppu := p\<rparr>) }"
| "run_writer ns W_Cart a v m = Some m"
| "run_writer ns W_Prg a v m = Some m"

type_synonym fetch_callback = "cpu_status \<Rightarrow> uint16 \<Rightarrow> char \<Rightarrow> cpu \<Rightarrow> memside \<Rightarrow> memside option"

definition emu_ports :: "(int \<Rightarrow> uint8) \<Rightarrow> fetch_callback option \<Rightarrow> memside cpu_ports" where
  "emu_ports ns cb =
     \<lparr>port_read = (\<lambda>a m. bus_read (\<lambda>r a. run_reader ns r a m) (ms_rambus m) a),
      port_write = (\<lambda>a v m. bus_write (\<lambda>w a v. run_writer ns w a v m) (ms_rambus m) a v),
      port_callback = cb\<rparr>"

section \<open>Wiring\<close>

definition PPUREG_START :: uint16 where "PPUREG_START = 0x2000"
definition APU_START :: uint16 where "APU_START = 0x4000"
definition CARTRIDGE_START :: uint16 where "CARTRIDGE_START = 0x4020"
definition NT_START :: uint16 where "NT_START = 0x2000"
definition PAL_START :: uint16 where "PAL_START = 0x3F00"

definition map_region :: "uint16 \<Rightarrow> uint32 \<Rightarrow> 'r \<Rightarrow> 'w \<Rightarrow> ('r, 'w) bus \<Rightarrow> ('r, 'w) bus option" where
  "map_region start end r w b = do { (msg, b) \<leftarrow> bus_map start end r w b; Some b }"

definition cpu_attach_bus :: "memside \<Rightarrow> memside option" where
  "cpu_attach_bus m =
     do { b \<leftarrow> map_region 0 (ucast PPUREG_START) R_Ram W_Ram (ms_rambus m);
          b \<leftarrow> map_region APU_START (ucast CARTRIDGE_START) R_Apu W_Apu b;
          Some (m\<lparr>ms_rambus := b\<rparr>) }"

definition ppu_attach_bus :: "memside \<Rightarrow> memside option" where
  "ppu_attach_bus m =
     do { b \<leftarrow> map_region PPUREG_START (ucast APU_START) R_PpuReg W_PpuReg (ms_rambus m);
          v \<leftarrow> map_region PAL_START 0x4000 VR_Pal VW_Pal (ms_vrambus m);
          v \<leftarrow> map_region NT_START (ucast PAL_START) VR_Zero VW_Nop v;
          Some (m\<lparr>ms_rambus := b, ms_vrambus := v\<rparr>) }"

definition cartridge_attach_bus :: "memside \<Rightarrow> memside option" where
  "cartridge_attach_bus m =
     do { b \<leftarrow> map_region CARTRIDGE_START 0x8000 R_Cart W_Cart (ms_rambus m);
          b \<leftarrow> map_region 0x8000 0x10000 R_Prg W_Prg b;
          v \<leftarrow> map_region 0 (ucast NT_START) VR_Chr VW_Chr (ms_vrambus m);
          Some (m\<lparr>ms_rambus := b, ms_vrambus := v\<rparr>) }"

text \<open>An assertion fails for \<^verbatim>\<open>OTHER\<close>; a diagnostic of \<^verbatim>\<open>remap\<close> is only printed.\<close>

definition set_mirroring :: "mirroring \<Rightarrow> memside \<Rightarrow> memside option" where
  "set_mirroring mir m =
     (if mir = OTHER then None
      else do { (msg, v) \<leftarrow> bus_remap NT_START (ucast PAL_START) (VR_Nt mir) (VW_Nt mir) (ms_vrambus m);
                Some (m\<lparr>ms_vrambus := v\<rparr>) })"

section \<open>The machine\<close>

record emulator =
  e_cpu :: cpu
  e_mem :: memside
  e_cycle :: int
  e_nmi :: bool
  e_quit :: bool

definition emulator_new :: "(nat \<Rightarrow> uint8) \<Rightarrow> (nat \<Rightarrow> nat) \<Rightarrow> (nat \<Rightarrow> nat) \<Rightarrow> ppu \<Rightarrow> emulator option" where
  "emulator_new junk junk_ram junk_vram p =
     do { let m = \<lparr>ms_ram = junk, ms_ppu = p, ms_rambus = bus_new 0x10000 junk_ram,
            ms_vrambus = bus_new 0x4000 junk_vram, ms_cart = cartridge_new junk\<rparr>;
          m \<leftarrow> cpu_attach_bus m;
          m \<leftarrow> ppu_attach_bus m;
          Some \<lparr>e_cpu = cpu_default, e_mem = m, e_cycle = 0, e_nmi = False, e_quit = False\<rparr> }"

definition insert_rom :: "(nat \<Rightarrow> uint8) \<Rightarrow> ufile \<Rightarrow> emulator \<Rightarrow> (bool \<times> emulator \<times> ufile) option" where
  "insert_rom junk romfile e =
     (let m = e_mem e; (ok, cart, romfile) = parse junk romfile (ms_cart m); m = m\<lparr>ms_cart := cart\<rparr> in
      if \<not> ok then Some (False, e\<lparr>e_mem := m\<rparr>, romfile)
      else do { m \<leftarrow> set_mirroring (c_nt_mirroring cart) m;
                m \<leftarrow> cartridge_attach_bus m;
                Some (True, e\<lparr>e_mem := m\<rparr>, romfile) })"

definition emu_power :: "(int \<Rightarrow> uint8) \<Rightarrow> fetch_callback option \<Rightarrow> emulator \<Rightarrow> emulator option" where
  "emu_power ns cb e =
     do { (c, m) \<leftarrow> cpu_power (emu_ports ns cb) (e_cpu e) (e_mem e);
          Some (e\<lparr>e_cpu := c, e_mem := m\<lparr>ms_ppu := ppu_power (ms_ppu m)\<rparr>\<rparr>) }"

definition emu_reset :: "(int \<Rightarrow> uint8) \<Rightarrow> fetch_callback option \<Rightarrow> emulator \<Rightarrow> emulator option" where
  "emu_reset ns cb e =
     do { (c, m) \<leftarrow> cpu_reset (emu_ports ns cb) (e_cpu e) (e_mem e);
          Some (e\<lparr>e_cpu := c, e_mem := m\<lparr>ms_ppu := ppu_reset (ms_ppu m)\<rparr>\<rparr>) }"

definition emu_set_screen :: "canvas option \<Rightarrow> emulator \<Rightarrow> emulator" where
  "emu_set_screen canvas e = e\<lparr>e_mem := (e_mem e)\<lparr>ms_ppu := set_screen canvas (ms_ppu (e_mem e))\<rparr>\<rparr>"

definition rominfo :: "formatter \<Rightarrow> emulator \<Rightarrow> string" where
  "rominfo F e = getinfo F (ms_cart (e_mem e))"

text \<open>\<^verbatim>\<open>int\<close> has 32 bits: the conversion from \<^verbatim>\<open>unsigned long\<close> keeps the low bits, an overflow of the
  difference or of its triple has no result.\<close>

definition to_int :: "uint64 \<Rightarrow> int" where
  "to_int w = sint (ucast w :: uint32)"

definition int_fits :: "int \<Rightarrow> bool" where
  "int_fits i \<longleftrightarrow> - (2 ^ 31) \<le> i \<and> i < 2 ^ 31"

definition emu_run :: "(int \<Rightarrow> uint8) \<Rightarrow> fetch_callback option \<Rightarrow> emulator \<Rightarrow> emulator option" where
  "emu_run ns cb e =
     do { (c, m) \<leftarrow> cpu_run (emu_ports ns cb) (e_cpu e) (e_mem e);
          let curr_cycle = to_int (r_cycles c);
          let cycle_diff = curr_cycle - e_cycle e;
          if int_fits cycle_diff \<and> int_fits (cycle_diff * 3) then
            do { (p, c, nmi) \<leftarrow> ppu_runs (emu_ppu_ports ns m) (nat (cycle_diff * 3)) (ms_ppu m) (c, e_nmi e);
                 Some (e\<lparr>e_cpu := c, e_mem := m\<lparr>ms_ppu := p\<rparr>, e_nmi := nmi, e_cycle := curr_cycle\<rparr>) }
          else None }"

fun run_until_nmi ::
  "(int \<Rightarrow> uint8) \<Rightarrow> fetch_callback option \<Rightarrow> nat \<Rightarrow> emulator \<Rightarrow> emulator outcome" where
  "run_until_nmi ns cb 0 e = OutOfFuel"
| "run_until_nmi ns cb (Suc fuel) e =
     (if e_nmi e then Done e
      else case emu_run ns cb e of None \<Rightarrow> Fault | Some e \<Rightarrow> run_until_nmi ns cb fuel e)"

definition run_frame ::
  "(int \<Rightarrow> uint8) \<Rightarrow> fetch_callback option \<Rightarrow> nat \<Rightarrow> emulator \<Rightarrow> emulator outcome" where
  "run_frame ns cb fuel e =
     (if e_quit e then Done e
      else case run_until_nmi ns cb fuel e of
             Done e \<Rightarrow> Done (e\<lparr>e_nmi := False\<rparr>) | Fault \<Rightarrow> Fault | OutOfFuel \<Rightarrow> OutOfFuel)"

section \<open>Where the addresses lead\<close>

definition ram_handlers :: "uint16 \<Rightarrow> reader \<times> writer" where
  "ram_handlers a =
     (if a < 0x2000 then (R_Ram, W_Ram) else if a < 0x4000 then (R_PpuReg, W_PpuReg)
      else if a < 0x4020 then (R_Apu, W_Apu) else if a < 0x8000 then (R_Cart, W_Cart) else (R_Prg, W_Prg))"

definition vram_handlers :: "mirroring \<Rightarrow> uint16 \<Rightarrow> vreader \<times> vwriter" where
  "vram_handlers mir a =
     (if a < 0x2000 then (VR_Chr, VW_Chr) else if a < 0x3F00 then (VR_Nt mir, VW_Nt mir) else (VR_Pal, VW_Pal))"

definition ram_wired :: "memside \<Rightarrow> bool" where
  "ram_wired m \<longleftrightarrow> (\<forall>a. reader_of (ms_rambus m) a = Some (fst (ram_handlers a)) \<and>
     writer_of (ms_rambus m) a = Some (snd (ram_handlers a)))"

definition vram_wired :: "mirroring \<Rightarrow> memside \<Rightarrow> bool" where
  "vram_wired mir m \<longleftrightarrow> (\<forall>a. a < 0x4000 \<longrightarrow> reader_of (ms_vrambus m) a = Some (fst (vram_handlers mir a)) \<and>
     writer_of (ms_vrambus m) a = Some (snd (vram_handlers mir a)))"

text \<open>The buses after the constructor, with the identifiers in the order of the calls.\<close>

definition rambus0 :: "(nat \<Rightarrow> nat) \<Rightarrow> (reader, writer) bus" where
  "rambus0 junk = region_bus 0x2000 0x4000 2 R_PpuReg W_PpuReg
     (region_bus 0x4000 0x4020 1 R_Apu W_Apu (region_bus 0 0x2000 0 R_Ram W_Ram (bus_new 0x10000 junk)))"

definition vrambus0 :: "(nat \<Rightarrow> nat) \<Rightarrow> (vreader, vwriter) bus" where
  "vrambus0 junk = region_bus 0x2000 0x3F00 1 VR_Zero VW_Nop
     (region_bus 0x3F00 0x4000 0 VR_Pal VW_Pal (bus_new 0x4000 junk))"

lemma bus_new_size [simp]: "bus_size (bus_new n junk) = unat n"
  by (simp add: bus_new_def bus_reset_def ha_reset_def bus_size_def ha_size_def)

lemmas region_consts = PPUREG_START_def APU_START_def CARTRIDGE_START_def NT_START_def PAL_START_def TABSIZ_def

lemma map_region_next:
  assumes "uses k b" "k < 16" "unat start \<le> unat end" "unat end \<le> bus_size b"
  shows "map_region start end r w b = Some (region_bus start end k r w b)"
  using bus_map_next [OF assms(1) _ assms(3,4)] assms(2) by (simp add: map_region_def TABSIZ_def)

lemma emulator_new_eq:
  "emulator_new junk jr jv p = Some \<lparr>e_cpu = cpu_default,
     e_mem = \<lparr>ms_ram = junk, ms_ppu = p, ms_rambus = rambus0 jr, ms_vrambus = vrambus0 jv,
       ms_cart = cartridge_new junk\<rparr>, e_cycle = 0, e_nmi = False, e_quit = False\<rparr>"
proof -
  let ?b0 = "bus_new 0x10000 jr :: (reader, writer) bus" and ?v0 = "bus_new 0x4000 jv :: (vreader, vwriter) bus"
  let ?b1 = "region_bus 0 0x2000 0 R_Ram W_Ram ?b0" and ?v1 = "region_bus 0x3F00 0x4000 0 VR_Pal VW_Pal ?v0"
  let ?b2 = "region_bus 0x4000 0x4020 1 R_Apu W_Apu ?b1"
  have u0: "uses 0 ?b0" "uses 0 ?v0" by (rule uses_new)+
  have u1: "uses 1 ?b1" "uses 1 ?v1" using uses_region [OF u0(1)] uses_region [OF u0(2)] by simp_all
  have u2: "uses 2 ?b2" using uses_region [OF u1(1)] by (simp add: numeral_2_eq_2)
  note u = u0(1) u1(1) u2 u0(2) u1(2)
  have b: "map_region 0 0x2000 R_Ram W_Ram ?b0 = Some ?b1" "map_region 0x4000 0x4020 R_Apu W_Apu ?b1 = Some ?b2"
    "map_region 0x2000 0x4000 R_PpuReg W_PpuReg ?b2 = Some (rambus0 jr)"
    unfolding rambus0_def by (rule map_region_next [OF u(1)] map_region_next [OF u(2)] map_region_next [OF u(3)]; simp)+
  have v: "map_region 0x3F00 0x4000 VR_Pal VW_Pal ?v0 = Some ?v1"
    "map_region 0x2000 0x3F00 VR_Zero VW_Nop ?v1 = Some (vrambus0 jv)"
    unfolding vrambus0_def by (rule map_region_next [OF u(4)] map_region_next [OF u(5)]; simp)+
  show ?thesis
    by (simp add: emulator_new_def cpu_attach_bus_def ppu_attach_bus_def region_consts b v del: One_nat_def)
qed

lemma region_lookup:
  "ha_elems (lookup_ids (region_bus start end k r w b)) i =
     (if unat start \<le> i \<and> i < unat end then k else ha_elems (lookup_ids b) i)"
  "ha_len (lookup_ids (region_bus start end k r w b)) = ha_len (lookup_ids b)"
  "readtab (region_bus start end k r w b) = (readtab b)(k := Some r)"
  "writetab (region_bus start end k r w b) = (writetab b)(k := Some w)"
  by (simp_all add: region_bus_def)

lemma bus_new_lookup:
  "ha_elems (lookup_ids (bus_new n junk)) = junk" "ha_len (lookup_ids (bus_new n junk)) = unat n"
  by (simp_all add: bus_new_def bus_reset_def ha_reset_def)

lemma mirroring_parsed:
  assumes "parse junk f c = (True, c', f')"
  shows "c_nt_mirroring c' \<noteq> OTHER"
proof -
  have "c_nt_mirroring (fst (parse_body junk d s)) \<noteq> OTHER" for d s
    by (simp add: parse_body_def parse_ines_def parse_common_def Let_def case_prod_unfold)
  then show ?thesis using assms
    by (fastforce simp: parse_def Let_def case_prod_unfold split: option.splits format.splits prod.splits)
qed

lemma vrambus0_ids:
  "ha_get (lookup_ids (vrambus0 jv)) 0x2000 = Some 1" "ha_get (lookup_ids (vrambus0 jv)) 0x1FFF = Some (jv 0x1FFF)"
  "ha_get (lookup_ids (vrambus0 jv)) 0x3EFF = Some 1"
  by (simp_all add: vrambus0_def ha_get_def region_lookup bus_new_lookup)

lemma uses_vrambus0: "uses 2 (vrambus0 jv)"
proof -
  note u0 = uses_new [of "0x4000" jv, where ?'a = vreader and ?'b = vwriter]
  from uses_region [OF uses_region [OF u0]] show ?thesis by (simp add: vrambus0_def numeral_2_eq_2)
qed

lemma uses_rambus0: "uses 3 (rambus0 jr)"
proof -
  note u0 = uses_new [of "0x10000" jr, where ?'a = reader and ?'b = writer]
  from uses_region [OF uses_region [OF uses_region [OF u0]]] show ?thesis
    by (simp add: rambus0_def numeral_2_eq_2 numeral_3_eq_3)
qed

definition vrambus1 :: "(nat \<Rightarrow> nat) \<Rightarrow> mirroring \<Rightarrow> (vreader, vwriter) bus" where
  "vrambus1 jv mir =
     (if jv 0x1FFF = 1 then vrambus0 jv
      else (vrambus0 jv)\<lparr>readtab := (readtab (vrambus0 jv))(1 := Some (VR_Nt mir)),
                        writetab := (writetab (vrambus0 jv))(1 := Some (VW_Nt mir))\<rparr>)"

lemma set_mirroring_eq:
  assumes "ms_vrambus m = vrambus0 jv" "mir \<noteq> OTHER"
  shows "set_mirroring mir m = Some (m\<lparr>ms_vrambus := vrambus1 jv mir\<rparr>)"
proof -
  have "bus_remap 0x2000 0x3F00 (VR_Nt mir) (VW_Nt mir) (vrambus0 jv) =
      Some (if jv 0x1FFF = 1 then NotRealStart 0x2000 else BusOk, vrambus1 jv mir)"
    by (simp add: bus_remap_def vrambus0_ids vrambus1_def TABSIZ_def)
  then show ?thesis using assms by (simp add: set_mirroring_def region_consts)
qed

definition rambus2 :: "(nat \<Rightarrow> nat) \<Rightarrow> (reader, writer) bus" where
  "rambus2 jr = region_bus 0x8000 0x10000 4 R_Prg W_Prg (region_bus 0x4020 0x8000 3 R_Cart W_Cart (rambus0 jr))"

definition vrambus2 :: "(nat \<Rightarrow> nat) \<Rightarrow> mirroring \<Rightarrow> (vreader, vwriter) bus" where
  "vrambus2 jv mir = region_bus 0 0x2000 2 VR_Chr VW_Chr (vrambus1 jv mir)"

lemma cartridge_attach_eq:
  assumes "ms_rambus m = rambus0 jr" "ms_vrambus m = vrambus1 jv mir"
  shows "cartridge_attach_bus m = Some (m\<lparr>ms_rambus := rambus2 jr, ms_vrambus := vrambus2 jv mir\<rparr>)"
proof -
  have s: "bus_size (rambus0 jr) = 0x10000" "bus_size (vrambus1 jv mir) = 0x4000"
    by (simp_all add: rambus0_def vrambus1_def vrambus0_def bus_size_def ha_size_def region_lookup bus_new_lookup)
  have u: "uses 3 (rambus0 jr)" "uses 4 (region_bus 0x4020 0x8000 3 R_Cart W_Cart (rambus0 jr))"
    "uses 2 (vrambus1 jv mir)"
    using uses_rambus0 uses_region [OF uses_rambus0] uses_vrambus0
    by (simp_all add: vrambus1_def uses_def eval_nat_numeral)
  have r: "map_region 0x4020 0x8000 R_Cart W_Cart (rambus0 jr) = Some (region_bus 0x4020 0x8000 3 R_Cart W_Cart (rambus0 jr))"
    by (rule map_region_next [OF u(1)]) (simp_all add: s)
  have r': "map_region 0x8000 0x10000 R_Prg W_Prg (region_bus 0x4020 0x8000 3 R_Cart W_Cart (rambus0 jr)) = Some (rambus2 jr)"
    unfolding rambus2_def by (rule map_region_next [OF u(2)]) (simp_all add: s)
  have r'': "map_region 0 0x2000 VR_Chr VW_Chr (vrambus1 jv mir) = Some (vrambus2 jv mir)"
    unfolding vrambus2_def by (rule map_region_next [OF u(3)]) (simp_all add: s)
  show ?thesis using assms by (simp add: cartridge_attach_bus_def region_consts r r' r'')
qed

lemma rambus2_handlers:
  "reader_of (rambus2 jr) a = Some (fst (ram_handlers a)) \<and> writer_of (rambus2 jr) a = Some (snd (ram_handlers a))"
  by (simp add: reader_of_def writer_of_def ha_get_def rambus2_def rambus0_def region_lookup bus_new_lookup TABSIZ_def
      ram_handlers_def word_less_nat_alt not_less)

lemma vrambus2_handlers:
  assumes "a < 0x4000" "jv 0x1FFF \<noteq> 1"
  shows "reader_of (vrambus2 jv mir) a = Some (fst (vram_handlers mir a)) \<and>
    writer_of (vrambus2 jv mir) a = Some (snd (vram_handlers mir a))"
  using assms
  by (simp add: reader_of_def writer_of_def ha_get_def vrambus2_def vrambus1_def vrambus0_def region_lookup
      bus_new_lookup TABSIZ_def vram_handlers_def word_less_nat_alt not_less)

lemma insert_rom_new:
  assumes "emulator_new junk jr jv p = Some e" "parse junk' f (ms_cart (e_mem e)) = (True, cart, f')"
    and "jv 0x1FFF \<noteq> 1"
  shows "\<exists>e'. insert_rom junk' f e = Some (True, e', f') \<and> ms_cart (e_mem e') = cart \<and>
    e_cpu e' = e_cpu e \<and> e_cycle e' = e_cycle e \<and> e_quit e' = e_quit e \<and> e_nmi e' = e_nmi e \<and>
    ms_ppu (e_mem e') = ms_ppu (e_mem e) \<and>
    ram_wired (e_mem e') \<and> vram_wired (c_nt_mirroring cart) (e_mem e')"
proof -
  have m: "ms_rambus (e_mem e) = rambus0 jr" "ms_vrambus (e_mem e) = vrambus0 jv"
    using assms(1) by (auto simp: emulator_new_eq)
  let ?mir = "c_nt_mirroring cart" and ?m = "(e_mem e)\<lparr>ms_cart := cart\<rparr>"
  have "set_mirroring ?mir ?m = Some (?m\<lparr>ms_vrambus := vrambus1 jv ?mir\<rparr>)"
    using m mirroring_parsed [OF assms(2)] by (intro set_mirroring_eq) simp_all
  moreover have "cartridge_attach_bus (?m\<lparr>ms_vrambus := vrambus1 jv ?mir\<rparr>) =
      Some (?m\<lparr>ms_rambus := rambus2 jr, ms_vrambus := vrambus2 jv ?mir\<rparr>)"
    using cartridge_attach_eq [of "?m\<lparr>ms_vrambus := vrambus1 jv ?mir\<rparr>" jr jv ?mir] m by simp
  ultimately show ?thesis
    using assms(2,3) rambus2_handlers vrambus2_handlers
    by (simp add: insert_rom_def ram_wired_def vram_wired_def)
qed

text \<open>
  C18: after the constructor and \<^verbatim>\<open>insert_rom\<close> of a valid image both buses are wired as documented:
  RAM, picture unit registers, sound registers, cartridge space and program memory on the
  processor's bus; character memory, name tables with the cartridge's mirroring and palettes on
  the video bus. For the name tables this needs the cell \<^verbatim>\<open>0x1FFF\<close> of the freshly allocated lookup
  table to differ from the identifier 1, because \<^verbatim>\<open>remap\<close> reads it before the cartridge is mapped.
\<close>

theorem insert_rom_wires:
  assumes "emulator_new junk jr jv p = Some e" "parse junk' f (ms_cart (e_mem e)) = (True, cart, f')"
    and "jv 0x1FFF \<noteq> 1"
  shows "\<exists>e'. insert_rom junk' f e = Some (True, e', f') \<and> ms_cart (e_mem e') = cart \<and>
    ram_wired (e_mem e') \<and> vram_wired (c_nt_mirroring cart) (e_mem e')"
  using insert_rom_new [OF assms] by blast

lemma mirroring_ignored:
  assumes "emulator_new junk jr jv p = Some e" "jv 0x1FFF = 1" "mir \<noteq> OTHER"
  shows "set_mirroring mir (e_mem e) = Some (e_mem e)"
proof -
  have m: "ms_vrambus (e_mem e) = vrambus0 jv" using assms(1) by (auto simp: emulator_new_eq)
  show ?thesis using set_mirroring_eq [OF m assms(3)] assms(2) by (simp add: vrambus1_def m [symmetric])
qed

section \<open>The memory side keeps the contract of the processor\<close>

definition prg_ok :: "cartridge \<Rightarrow> bool" where
  "prg_ok cart \<longleftrightarrow> (\<forall>a. 0x8000 \<le> a \<longrightarrow> read_prgrom a cart \<noteq> None)"

definition mem_ok :: "memside \<Rightarrow> bool" where
  "mem_ok m \<longleftrightarrow> ram_wired m \<and> prg_ok (ms_cart m)"

definition mem_peek :: "memside \<Rightarrow> uint16 \<Rightarrow> uint8" where
  "mem_peek m a =
     (if a < 0x2000 then ms_ram m (unat (a AND 0x7FF))
      else if a < 0x8000 then 0 else the (read_prgrom a (ms_cart m)))"

definition mem_poke :: "uint16 \<Rightarrow> uint8 \<Rightarrow> memside \<Rightarrow> memside" where
  "mem_poke a v m = m\<lparr>ms_ram := (ms_ram m)(unat (a AND 0x7FF) := v)\<rparr>"

lemma port_read_eq:
  "ram_wired m \<Longrightarrow> port_read (emu_ports ns cb) a m = run_reader ns (fst (ram_handlers a)) a m"
  by (simp add: emu_ports_def bus_read_def ram_wired_def)

lemma port_write_eq:
  "ram_wired m \<Longrightarrow> port_write (emu_ports ns cb) a v m = run_writer ns (snd (ram_handlers a)) a v m"
  by (simp add: emu_ports_def bus_write_def ram_wired_def)

interpretation mem: cpu_memory "emu_ports ns None" mem_ok mem_peek mem_poke for ns
proof unfold_locales
  fix m a assume m: "mem_ok m" and a: "plain a"
  then have w: "ram_wired m" "0x8000 \<le> a \<Longrightarrow> \<exists>v. read_prgrom a (ms_cart m) = Some v"
    by (auto simp: mem_ok_def prg_ok_def)
  show "port_read (emu_ports ns None) a m = Some (mem_peek m a, m)"
    using w a by (auto simp: port_read_eq ram_handlers_def mem_peek_def word_less_nat_alt word_le_nat_alt)
next
  fix m v and a b :: uint16 assume "mem_ok m" "a < 0x2000" "plain b"
  then show "mem_peek (mem_poke a v m) b = (if b < 0x2000 \<and> b AND 0x7FF = a AND 0x7FF then v else mem_peek m b)"
    by (auto simp: mem_peek_def mem_poke_def word_unat_eq_iff)
qed (auto simp: emu_ports_def mem_ok_def port_write_eq [unfolded emu_ports_def] ram_handlers_def mem_poke_def ram_wired_def
      word_less_nat_alt word_le_nat_alt bus_write_def)

section \<open>The video bus keeps the contract of the picture unit\<close>

definition chr_ok :: "cartridge \<Rightarrow> bool" where
  "chr_ok cart \<longleftrightarrow> 0x2000 \<le> ha_len (c_chrrom cart)"

definition video_good :: "memside \<Rightarrow> bool" where
  "video_good m \<longleftrightarrow> chr_ok (ms_cart m) \<and> (\<exists>mir. mir \<noteq> OTHER \<and> vram_wired mir m)"

lemma unat_and_0x1F: "unat (a AND 0x1F) < PAL_SIZE" for a :: uint16
proof -
  have "(0x1F :: uint16) = mask 5" by (simp add: mask_eq_exp_minus_1)
  then have "unat (a AND 0x1F) = take_bit 5 (unat a)" by (metis take_bit_eq_mask unsigned_take_bit_eq)
  also have "\<dots> < 2 ^ 5" by (rule take_bit_nat_less_exp)
  finally show ?thesis by (simp add: PAL_SIZE_def)
qed

interpretation video: video_bus "emu_ppu_ports ns" video_good signal_nmi for ns
proof unfold_locales
  fix m a p assume m: "video_good m" and a: "a < (0x4000 :: uint16)"
  then obtain mir where mir: "mir \<noteq> OTHER" "vram_wired mir m" "chr_ok (ms_cart m)"
    by (auto simp: video_good_def)
  then have r: "vread (emu_ppu_ports ns m) a p = run_vreader (fst (vram_handlers mir a)) a (ms_cart m) p"
    using a by (simp add: emu_ppu_ports_def bus_read_def vram_wired_def)
  consider (chr) "a < 0x2000" | (nt) "\<not> a < 0x2000" "a < 0x3F00" | (pal) "\<not> a < 0x2000" "\<not> a < 0x3F00" by blast
  then show "\<exists>v. vread (emu_ppu_ports ns m) a p = Some v"
  proof cases
    case chr
    then have "unat a < ha_len (c_chrrom (ms_cart m))" using mir(3) by (simp add: chr_ok_def word_less_nat_alt)
    then show ?thesis using chr by (simp add: r vram_handlers_def read_chrrom_def ha_get_def)
  next
    case nt
    then show ?thesis using decode_total [OF mir(1), of a]
      by (auto simp: r vram_handlers_def nt_read_def)
  next
    case pal
    then show ?thesis by (simp add: r vram_handlers_def pal_read_def unat_and_0x1F)
  qed
qed (simp add: emu_ppu_ports_def)

lemma run_vreader_memory:
  assumes "p_vrammem p = p_vrammem q" "p_palmem p = p_palmem q"
  shows "run_vreader r a cart p = run_vreader r a cart q"
  using assms by (cases r) (simp_all add: pal_read_def nt_read_def cong: if_cong)

interpretation picture: rendering "emu_ppu_ports ns" video_good signal_nmi for ns
proof unfold_locales
  fix p q :: ppu and m a
  assume "p_vrammem p = p_vrammem q" "p_palmem p = p_palmem q"
  then show "vread (emu_ppu_ports ns m) a p = vread (emu_ppu_ports ns m) a q"
    by (simp add: emu_ppu_ports_def run_vreader_memory [of p q])
qed

end
