(* ===== verification/EmulatorRun.thy ===== *)
theory EmulatorRun
  imports Emulator
begin

text \<open>
  Instructions and frames of the machine of theory \<open>Emulator\<close>: what the processor can change through
  its bus, how far one \<^verbatim>\<open>Emulator::run\<close> advances the picture unit, and that \<^verbatim>\<open>run_frame\<close> returns.
\<close>

section \<open>What a run of the processor leaves of the machine\<close>

definition mem_step :: "memside \<Rightarrow> memside \<Rightarrow> bool" where
  "mem_step m m' \<longleftrightarrow> ms_rambus m' = ms_rambus m \<and> ms_vrambus m' = ms_vrambus m \<and> ms_cart m' = ms_cart m \<and>
     same_timing (ms_ppu m) (ms_ppu m') \<and> p_screen (ms_ppu m') = p_screen (ms_ppu m) \<and>
     (fine_ok (ms_ppu m) \<longrightarrow> fine_ok (ms_ppu m'))"

definition reg_step :: "ppu \<Rightarrow> ppu \<Rightarrow> bool" where
  "reg_step p p' \<longleftrightarrow> same_timing p p' \<and> p_screen p' = p_screen p \<and> (fine_ok p \<longrightarrow> fine_ok p')"

lemma reg_step_refl [simp]: "reg_step p p"
  by (simp add: reg_step_def same_timing_def)

lemma reg_step_trans: "reg_step p q \<Longrightarrow> reg_step q r \<Longrightarrow> reg_step p r"
  by (simp add: reg_step_def same_timing_def)

lemma reg_step_with [simp]:
  "reg_step p (with_io f p)" "reg_step p (with_addr g p)" "reg_step p (with_tmp h p)"
  "reg_step p (p\<lparr>p_vrammem := x\<rparr>)" "reg_step p (p\<lparr>p_palmem := y\<rparr>)"
  by (simp_all add: reg_step_def same_timing_def fine_ok_def with_io_def with_addr_def with_tmp_def with_vram_def)

lemma reg_step_fine: "reg_step p (with_vram (\<lambda>v. v\<lparr>v_fine_x := d AND 7\<rparr>) p)"
proof -
  have "(7 :: uint8) = mask 3" by (simp add: mask_eq_exp_minus_1)
  then have "unat (d AND 7) = take_bit 3 (unat d)" by (metis take_bit_eq_mask unsigned_take_bit_eq)
  also have "\<dots> < 2 ^ 3" by (rule take_bit_nat_less_exp)
  finally show ?thesis by (simp add: reg_step_def same_timing_def fine_ok_def with_vram_def)
qed

lemma reg_step_scroll: "reg_step p (write_scroll d p)" "reg_step p (write_addr d p)"
proof -
  have t: "reg_step p q \<Longrightarrow> reg_step p (toggle_latch q)" for q
    unfolding toggle_latch_def by (erule reg_step_trans) (rule reg_step_with)
  show "reg_step p (write_scroll d p)" unfolding write_scroll_def
    by (rule t) (simp, blast intro: reg_step_trans reg_step_with reg_step_fine)
  show "reg_step p (write_addr d p)" unfolding write_addr_def Let_def
    by (rule t) (simp, blast intro: reg_step_trans reg_step_with)
qed

lemma vwrite_step:
  "vwrite (emu_ppu_ports ns m) a v p = Some p' \<Longrightarrow> reg_step p p'"
proof -
  have "run_vwriter w b u q = Some q' \<Longrightarrow> reg_step q q'" for w b u q q'
    by (cases w) (auto simp: pal_write_def nt_write_def split: if_splits Option.bind_splits)
  then show "vwrite (emu_ppu_ports ns m) a v p = Some p' \<Longrightarrow> reg_step p p'"
    by (auto simp: emu_ppu_ports_def bus_write_def elim!: bind_SomeE)
qed

lemma readreg_step: "readreg Q r p = Some (v, p') \<Longrightarrow> reg_step p p'"
  unfolding readreg_def step_addr_def
  by (auto split: if_splits elim!: bind_SomeE
      intro: reg_step_trans [OF reg_step_with(1) reg_step_with(2)] reg_step_with)

lemma writereg_step: "writereg (emu_ppu_ports ns m) r v p = Some p' \<Longrightarrow> reg_step p p'"
  unfolding writereg_def step_addr_def write_ctrl_def write_mask_def Let_def
  by (auto split: if_splits elim!: bind_SomeE
      intro: reg_step_trans [OF reg_step_with(1)] reg_step_trans [OF _ reg_step_with(1)] reg_step_trans [OF _ reg_step_with(2)]
        reg_step_with reg_step_scroll vwrite_step)

lemma mem_step_refl [simp]: "mem_step m m"
  by (simp add: mem_step_def same_timing_def)

lemma mem_step_trans: "mem_step m m' \<Longrightarrow> mem_step m' m'' \<Longrightarrow> mem_step m m''"
  by (simp add: mem_step_def same_timing_def)

lemma mem_step_reg: "reg_step (ms_ppu m) p \<Longrightarrow> mem_step m (m\<lparr>ms_ppu := p\<rparr>)"
  by (simp add: mem_step_def reg_step_def)

lemma mem_step_ram [simp]: "mem_step m (m\<lparr>ms_ram := f\<rparr>)"
  by (simp add: mem_step_def same_timing_def)

lemma port_read_step: "port_read (emu_ports ns cb) a m = Some (v, m') \<Longrightarrow> mem_step m m'"
proof -
  have "run_reader ns r b m = Some (u, m') \<Longrightarrow> mem_step m m'" for r b u
    by (cases r) (auto elim!: bind_SomeE intro: mem_step_reg readreg_step)
  then show "port_read (emu_ports ns cb) a m = Some (v, m') \<Longrightarrow> mem_step m m'"
    by (auto simp: emu_ports_def bus_read_def elim!: bind_SomeE)
qed

lemma port_write_step: "port_write (emu_ports ns cb) a v m = Some m' \<Longrightarrow> mem_step m m'"
proof -
  have "run_writer ns w b u m = Some m' \<Longrightarrow> mem_step m m'" for w b u
    by (cases w) (auto elim!: bind_SomeE intro: mem_step_reg writereg_step mem_step_ram)
  then show "port_write (emu_ports ns cb) a v m = Some m' \<Longrightarrow> mem_step m m'"
    by (auto simp: emu_ports_def bus_write_def elim!: bind_SomeE)
qed

interpretation frame: memory_invariant "emu_ports ns None" "mem_step m0" for ns m0
proof unfold_locales
  show "port_callback (emu_ports ns None) = None" by (simp add: emu_ports_def)
qed (blast intro: mem_step_trans port_read_step port_write_step)+

section \<open>The picture unit catches up\<close>

lemma signal_nmi_simps [simp]: "snd (signal_nmi x)" "r_cycles (fst (signal_nmi x)) = r_cycles (fst x)"
  by (simp_all add: signal_nmi_def fire_nmi_def case_prod_unfold)

lemma video_runs:
  assumes "video_good m" "ppu_ok p"
  shows "\<exists>p' x'. ppu_runs (emu_ppu_ports ns m) n p x = Some (p', x') \<and> ppu_ok p' \<and>
    r_cycles (fst x') = r_cycles (fst x) \<and> (has_screen p' = has_screen p) \<and>
    (snd x' \<or> x' = x \<and> until_nmi p' + n \<le> until_nmi p)"
  using assms(2)
proof (induction n arbitrary: p x)
  case 0
  then show ?case by simp
next
  case (Suc n)
  obtain q where q: "ppu_run (emu_ppu_ports ns m) p x = Some (q, if at_nmi p then signal_nmi x else x)" "ppu_ok q"
    "p_cycles q = (if at_frame_end p \<and> p_odd_frame p then 1 else p_cycles p + 1)"
    "has_screen q = has_screen p"
    using video.ppu_run_step [OF assms(1) Suc.prems] by blast
  obtain p' x' where r: "ppu_runs (emu_ppu_ports ns m) n q (if at_nmi p then signal_nmi x else x) = Some (p', x')" "ppu_ok p'"
    "r_cycles (fst x') = r_cycles (fst (if at_nmi p then signal_nmi x else x))" "has_screen p' = has_screen q"
    "snd x' \<or> x' = (if at_nmi p then signal_nmi x else x) \<and> until_nmi p' + n \<le> until_nmi q"
    using Suc.IH [OF q(2)] by blast
  have "until_nmi q < until_nmi p" if "\<not> at_nmi p"
    using until_nmi_step [OF _ that q(3)] Suc.prems by (simp add: ppu_ok_def)
  then show ?case using q r by (cases "at_nmi p") auto
qed

section \<open>The cycle counter of the machine\<close>

lemma to_int_eq: "to_int w = (uint w + 2 ^ 31) mod 2 ^ 32 - 2 ^ 31"
  by (simp add: to_int_def sint_uint signed_take_bit_eq_take_bit_shift unsigned_ucast_eq take_bit_eq_mod)
     (simp add: mod_add_left_eq [of "uint w mod _", symmetric] mod_simps)

lemma to_int_range: "- (2 ^ 31) \<le> to_int w" "to_int w < 2 ^ 31"
proof -
  have "0 \<le> (uint w + 2 ^ 31) mod 2 ^ 32" "(uint w + 2 ^ 31) mod 2 ^ 32 < 2 ^ 32" by simp_all
  then show "- (2 ^ 31) \<le> to_int w" "to_int w < 2 ^ 31" unfolding to_int_eq by simp_all
qed

lemma mod_add_small: "(x + d) mod M = (if x mod M + d < M then x mod M + d else x mod M + d - M)"
  if "0 \<le> d" "d < M" for x d M :: int
proof -
  define y where "y = x mod M"
  have y: "0 \<le> y" "y < M" using that by (simp_all add: y_def)
  have x: "(x + d) mod M = (y + d) mod M" by (simp add: y_def mod_add_left_eq)
  have "(y + d) mod M = (if y + d < M then y + d else y + d - M)"
  proof (cases "y + d < M")
    case True
    then show ?thesis using y that by (simp add: mod_pos_pos_trivial)
  next
    case False
    then have "(y + d - M) mod M = y + d - M" using y that by (intro mod_pos_pos_trivial) linarith+
    then show ?thesis using False by simp
  qed
  then show ?thesis by (simp only: x y_def [symmetric])
qed

lemma to_int_add:
  assumes "d < 2 ^ 31"
  shows "to_int (w + of_nat d) - to_int w = (if to_int w + int d < 2 ^ 31 then int d else int d - 2 ^ 32)"
proof -
  have u: "uint (w + of_nat d) = (uint w + int d) mod 2 ^ 64"
    by (simp add: uint_word_ariths unsigned_of_nat take_bit_eq_mod mod_simps zmod_int)
  have "((uint w + int d) mod 2 ^ 64 + 2 ^ 31) mod 2 ^ 32 = ((uint w + 2 ^ 31) + int d) mod 2 ^ 32"
    using mod_add_left_eq [of "(uint w + int d) mod 2 ^ 64" "2 ^ 32" "2 ^ 31"]
      mod_add_left_eq [of "uint w + int d" "2 ^ 32" "2 ^ 31"]
    by (simp add: mod_mod_cancel ac_simps)
  then show ?thesis
    using mod_add_small [of "int d" "2 ^ 32" "uint w + 2 ^ 31"] assms by (auto simp: to_int_eq u)
qed

section \<open>One instruction\<close>

text \<open>
  The invariant of a powered machine: both buses wired, the picture unit within its frame, and the
  processor at most \<open>65535\<close> cycles ahead of the counter of the machine (it is ahead only before the
  first instruction).
\<close>

definition synced :: "emulator \<Rightarrow> bool" where
  "synced e \<longleftrightarrow> (\<exists>k < 2 ^ 16. e_cycle e = to_int (r_cycles (e_cpu e) - of_nat k))"

definition emu_ok :: "emulator \<Rightarrow> bool" where
  "emu_ok e \<longleftrightarrow> video_good (e_mem e) \<and> ppu_ok (ms_ppu (e_mem e)) \<and> synced e"

lemma mem_step_good:
  assumes "mem_step m m'" "video_good m" "ppu_ok (ms_ppu m)"
  shows "video_good m'" "ppu_ok (ms_ppu m')" "until_nmi (ms_ppu m') = until_nmi (ms_ppu m)"
  using assms
  by (simp_all add: mem_step_def video_good_def vram_wired_def ppu_ok_def timing_ok_def same_timing_def
      screen_ok_def until_nmi_def frame_pos_def split: if_splits)

lemma cpu_run_mem_step: "cpu_run (emu_ports ns None) c m = Some (c', m') \<Longrightarrow> mem_step m m'"
  using frame.cpu_run_keeps [where m0 = m] by (metis mem_step_refl)

text \<open>The distance the picture unit has to catch up, when it fits.\<close>

lemma cycle_diff:
  assumes "synced e" "r_cycles c' = r_cycles (e_cpu e) + of_nat n" "1 \<le> n" "n \<le> 7"
    and "int_fits (to_int (r_cycles c') - e_cycle e)"
  shows "\<exists>d. n \<le> d \<and> d < n + 2 ^ 16 \<and> to_int (r_cycles c') - e_cycle e = int d"
proof -
  obtain k where k: "k < 2 ^ 16" "e_cycle e = to_int (r_cycles (e_cpu e) - of_nat k)"
    using assms(1) by (auto simp: synced_def)
  have c: "r_cycles c' = r_cycles (e_cpu e) - of_nat k + of_nat (n + k)" using assms(2) by simp
  have small: "n + k < 2 ^ 31" "int (n + k) - 2 ^ 32 < - (2 ^ 31)" using k assms(4) by simp_all
  have "to_int (r_cycles c') - e_cycle e = int (n + k)"
    using to_int_add [OF small(1), of "r_cycles (e_cpu e) - of_nat k"] small(2) assms(5)
    unfolding c k(2) int_fits_def by (simp only: split: if_splits) linarith+
  then show ?thesis using k(1) by (intro exI [of _ "n + k"]) simp
qed

lemma emu_run_step:
  assumes "emu_ok e" "emu_run ns None e = Some e'"
  shows "emu_ok e'" "e_nmi e' \<or> until_nmi (ms_ppu (e_mem e')) + 3 \<le> until_nmi (ms_ppu (e_mem e))"
    "e_quit e' = e_quit e"
    "e_nmi e' \<or> (\<exists>c m p. cpu_run (emu_ports ns None) (e_cpu e) (e_mem e) = Some (c, m) \<and>
       e' = e\<lparr>e_cpu := c, e_mem := m\<lparr>ms_ppu := p\<rparr>, e_cycle := to_int (r_cycles c)\<rparr>)"
    "has_screen (ms_ppu (e_mem e')) = has_screen (ms_ppu (e_mem e))"
proof -
  obtain c m where cm: "cpu_run (emu_ports ns None) (e_cpu e) (e_mem e) = Some (c, m)"
    using assms(2) by (auto simp: emu_run_def elim!: bind_SomeE)
  let ?d = "to_int (r_cycles c) - e_cycle e"
  have fits: "int_fits ?d" using assms(2) cm by (auto simp: emu_run_def Let_def split: if_splits)
  obtain n where n: "1 \<le> n" "n \<le> 7" "r_cycles c = r_cycles (e_cpu e) + of_nat n"
    using cpu_run_progress [OF cm] by blast
  obtain d where d: "n \<le> d" "?d = int d"
    using cycle_diff [OF _ n(3) n(1,2) fits] assms(1) by (auto simp: emu_ok_def)
  have good: "video_good m" "ppu_ok (ms_ppu m)" "until_nmi (ms_ppu m) = until_nmi (ms_ppu (e_mem e))"
    using mem_step_good [OF cpu_run_mem_step [OF cm]] assms(1) by (simp_all add: emu_ok_def)
  obtain p x where px: "ppu_runs (emu_ppu_ports ns m) (nat (?d * 3)) (ms_ppu m) (c, e_nmi e) = Some (p, x)"
    "ppu_ok p" "r_cycles (fst x) = r_cycles c" "has_screen p = has_screen (ms_ppu m)" "snd x \<or> x = (c, e_nmi e) \<and> until_nmi p + nat (?d * 3) \<le> until_nmi (ms_ppu m)"
    using video_runs [OF good(1,2)] by (metis fst_conv)
  have e': "e' = e\<lparr>e_cpu := fst x, e_mem := m\<lparr>ms_ppu := p\<rparr>, e_nmi := snd x, e_cycle := to_int (r_cycles c)\<rparr>"
    using assms(2) cm px(1) by (auto simp: emu_run_def Let_def case_prod_unfold split: if_splits)
  have "video_good (m\<lparr>ms_ppu := p\<rparr>)" using good(1) by (simp add: video_good_def vram_wired_def)
  then show "emu_ok e'" using px(2,3) by (auto simp: emu_ok_def e' synced_def intro!: exI [of _ 0])
  show "e_nmi e' \<or> until_nmi (ms_ppu (e_mem e')) + 3 \<le> until_nmi (ms_ppu (e_mem e))"
    using px(5) d n(1) good(3) by (auto simp: e')
  show "e_quit e' = e_quit e" by (simp add: e')
  show "e_nmi e' \<or> (\<exists>c m p. cpu_run (emu_ports ns None) (e_cpu e) (e_mem e) = Some (c, m) \<and>
       e' = e\<lparr>e_cpu := c, e_mem := m\<lparr>ms_ppu := p\<rparr>, e_cycle := to_int (r_cycles c)\<rparr>)"
    using px(5) cm by (auto simp: e')
  show "has_screen (ms_ppu (e_mem e')) = has_screen (ms_ppu (e_mem e))"
    using px(4) cpu_run_mem_step [OF cm] by (simp add: e' mem_step_def has_screen_def)
qed

text \<open>
  What the processor has to do for an instruction of the machine to have a result: its own
  accesses have one, and the difference of the two cycle counters is an \<^verbatim>\<open>int\<close>. The picture unit
  never stops the machine.
\<close>

definition runnable :: "(int \<Rightarrow> uint8) \<Rightarrow> emulator \<Rightarrow> bool" where
  "runnable ns e \<longleftrightarrow>
     (case cpu_run (emu_ports ns None) (e_cpu e) (e_mem e) of
        None \<Rightarrow> False | Some (c, m) \<Rightarrow> int_fits (to_int (r_cycles c) - e_cycle e))"

lemma emu_run_runnable:
  assumes "emu_ok e"
  shows "emu_run ns None e \<noteq> None \<longleftrightarrow> runnable ns e"
proof
  assume "emu_run ns None e \<noteq> None"
  then show "runnable ns e"
    by (auto simp: emu_run_def runnable_def Let_def split: if_splits Option.bind_splits)
next
  assume "runnable ns e"
  then obtain c m where cm: "cpu_run (emu_ports ns None) (e_cpu e) (e_mem e) = Some (c, m)"
    and fits: "int_fits (to_int (r_cycles c) - e_cycle e)" by (auto simp: runnable_def split: option.splits)
  obtain n where n: "1 \<le> n" "n \<le> 7" "r_cycles c = r_cycles (e_cpu e) + of_nat n"
    using cpu_run_progress [OF cm] by blast
  obtain d where d: "d < n + 2 ^ 16" "to_int (r_cycles c) - e_cycle e = int d"
    using cycle_diff [OF _ n(3) n(1,2) fits] assms by (auto simp: emu_ok_def)
  have "int_fits (int d * 3)" using d(1) n(2) by (simp add: int_fits_def)
  moreover have "video_good m" "ppu_ok (ms_ppu m)"
    using mem_step_good [OF cpu_run_mem_step [OF cm]] assms by (simp_all add: emu_ok_def)
  then obtain p x where "ppu_runs (emu_ppu_ports ns m) (nat (int d * 3)) (ms_ppu m) (c, e_nmi e) = Some (p, x)"
    using video_runs by blast
  ultimately show "emu_run ns None e \<noteq> None"
    using cm fits by (simp add: emu_run_def Let_def d(2) case_prod_unfold del: left_diff_distrib_numeral)
qed

section \<open>One frame\<close>

text \<open>The states the loop of \<^verbatim>\<open>run_frame\<close> passes through.\<close>

inductive in_frame :: "(int \<Rightarrow> uint8) \<Rightarrow> emulator \<Rightarrow> emulator \<Rightarrow> bool" for ns e where
  start: "in_frame ns e e"
| step: "in_frame ns e e1 \<Longrightarrow> \<not> e_nmi e1 \<Longrightarrow> emu_run ns None e1 = Some e2 \<Longrightarrow> in_frame ns e e2"

lemma in_frame_prepend:
  assumes "in_frame ns e' e2" "\<not> e_nmi e" "emu_run ns None e = Some e'"
  shows "in_frame ns e e2"
  using assms by (induction rule: in_frame.induct) (auto intro: in_frame.intros)

lemma run_until_nmi_returns:
  assumes "emu_ok e" "until_nmi (ms_ppu (e_mem e)) < 3 * n"
    and "\<forall>e1. in_frame ns e e1 \<and> \<not> e_nmi e1 \<longrightarrow> runnable ns e1"
  shows "\<exists>e'. run_until_nmi ns None (n + 1) e = Done e' \<and> emu_ok e' \<and> e_nmi e' \<and> e_quit e' = e_quit e \<and>
    in_frame ns e e' \<and> (has_screen (ms_ppu (e_mem e')) = has_screen (ms_ppu (e_mem e)))"
  using assms
proof (induction n arbitrary: e)
  case 0
  then show ?case by simp
next
  case (Suc n)
  show ?case
  proof (cases "e_nmi e")
    case True
    then show ?thesis using Suc.prems(1) by (auto intro: in_frame.start)
  next
    case False
    then have "runnable ns e" using Suc.prems(3) by (auto intro: in_frame.start)
    then obtain e' where e': "emu_run ns None e = Some e'"
      using emu_run_runnable [OF Suc.prems(1)] by blast
    note ok = emu_run_step [OF Suc.prems(1) e']
    show ?thesis
    proof (cases "e_nmi e'")
      case True
      then show ?thesis using e' ok False by (auto intro: in_frame.intros)
    next
      case nmi': False
      then have "until_nmi (ms_ppu (e_mem e')) < 3 * n" using ok(2) Suc.prems(2) by simp
      moreover have "\<forall>e1. in_frame ns e' e1 \<and> \<not> e_nmi e1 \<longrightarrow> runnable ns e1"
        using Suc.prems(3) in_frame_prepend [OF _ False e'] by blast
      ultimately obtain e2 where "run_until_nmi ns None (n + 1) e' = Done e2" "emu_ok e2" "e_nmi e2"
        "e_quit e2 = e_quit e'" "in_frame ns e' e2" "has_screen (ms_ppu (e_mem e2)) = has_screen (ms_ppu (e_mem e'))" using Suc.IH [OF ok(1)] by blast
      then show ?thesis using e' False ok(3,5) in_frame_prepend [OF _ False e'] by auto
    qed
  qed
qed

lemma run_frame_done:
  assumes "emu_ok e" "\<not> e_quit e"
    and "\<forall>e1. in_frame ns e e1 \<and> \<not> e_nmi e1 \<longrightarrow> runnable ns e1"
  shows "\<exists>e1. in_frame ns e e1 \<and> e_nmi e1 \<and> run_frame ns None 29782 e = Done (e1\<lparr>e_nmi := False\<rparr>) \<and>
    emu_ok (e1\<lparr>e_nmi := False\<rparr>) \<and> \<not> e_quit e1 \<and>
    (has_screen (ms_ppu (e_mem e1)) = has_screen (ms_ppu (e_mem e)))"
proof -
  have "until_nmi (ms_ppu (e_mem e)) < 3 * 29781" using until_nmi_bound [of "ms_ppu (e_mem e)"] by simp
  from run_until_nmi_returns [OF assms(1) this assms(3)] show ?thesis
    using assms(2) by (auto simp: run_frame_def emu_ok_def synced_def)
qed

text \<open>
  C1: \<^verbatim>\<open>run_frame\<close> returns. From a machine in its invariant, when no instruction on the way leaves the
  defined behaviour of the program (an access without a result, an overflow of the difference of
  the cycle counters), the loop ends within 29,781 instructions: the picture unit has signalled the
  start of the vertical blank, the flag is cleared again, and the invariant holds for the next
  frame. The picture unit itself never leaves the defined behaviour.
\<close>

theorem run_frame_returns:
  assumes "emu_ok e" "\<not> e_quit e"
    and "\<forall>e1. in_frame ns e e1 \<and> \<not> e_nmi e1 \<longrightarrow> runnable ns e1"
  shows "\<exists>e1. in_frame ns e e1 \<and> e_nmi e1 \<and> run_frame ns None 29782 e = Done (e1\<lparr>e_nmi := False\<rparr>) \<and>
    emu_ok (e1\<lparr>e_nmi := False\<rparr>)"
  using run_frame_done [OF assms] by blast

end
