(* ===== verification/Machine.thy ===== *)
theory Machine
  imports EmulatorRun
begin

text \<open>
  The processor on the wired machine: the facts of the locale \<open>cpu_memory\<close> through its
  interpretation on the machine's bus, the start of a machine with a cartridge, and the cycle
  counter that overflows. A small machine with a cartridge full of \<^verbatim>\<open>NOP\<close> serves as the concrete input.
\<close>

unbundle bit_operations_syntax

section \<open>A small machine\<close>

definition demo_mem :: memside where
  "demo_mem = \<lparr>ms_ram = (\<lambda>_. 0), ms_ppu = ppu_zero, ms_rambus = rambus2 (\<lambda>_. 0), ms_vrambus = vrambus2 (\<lambda>_. 0) VERT,
     ms_cart = (cartridge_new (\<lambda>_. 0))\<lparr>c_prgrom := rom_of (replicate 0x8000 0xEA), c_chrrom := rom_of (replicate 0x2000 0)\<rparr>\<rparr>"

definition demo :: emulator where
  "demo = \<lparr>e_cpu = cpu_default\<lparr>r_pc := 0x8000\<rparr>, e_mem = demo_mem, e_cycle = 0, e_nmi = False, e_quit = False\<rparr>"

lemma read_rom_32k:
  assumes "holds_bytes (c_prgrom c) prg" "length prg = 0x8000" "0x8000 \<le> a"
  shows "read_prgrom a c = Some (prg ! (unat a - 0x8000))"
  using read_last_32k [OF assms(1), of 2 a] assms(2,3) by simp

lemma demo_prg:
  assumes "0x8000 \<le> a"
  shows "read_prgrom a (ms_cart demo_mem) = Some 0xEA"
proof -
  have "unat a < 65536" using unsigned_less [of a, where ?'a = nat] by simp
  then have "unat a - 0x8000 < 0x8000" by linarith
  then show ?thesis
    using read_rom_32k [of "ms_cart demo_mem" "replicate 0x8000 0xEA" a] rom_of_holds assms
    by (simp add: demo_mem_def)
qed

lemma demo_mem_ok: "mem_ok demo_mem"
  using demo_prg rambus2_handlers by (simp add: mem_ok_def prg_ok_def ram_wired_def) (simp add: demo_mem_def)

lemma demo_video_good: "video_good demo_mem"
  using vrambus2_handlers [where jv = "\<lambda>_. 0" and mir = VERT]
  by (auto simp: video_good_def vram_wired_def demo_mem_def chr_ok_def rom_of_def intro!: exI [of _ VERT])

lemma demo_ok: "emu_ok demo"
proof -
  have "ppu_ok ppu_zero" by (simp add: ppu_ok_def timing_ok_def screen_ok_def fine_ok_def ppu_zero_def)
  moreover have "synced demo"
    unfolding synced_def by (rule exI [of _ 0]) (simp add: demo_def cpu_default_def to_int_def)
  ultimately show ?thesis using demo_video_good by (simp add: emu_ok_def demo_def demo_mem_def)
qed

section \<open>Calls and interrupts\<close>

text \<open>
  C12: a subroutine call returns. After \<^verbatim>\<open>JSR\<close> on the wired machine, a callee that leaves the stack
  pointer and the two bytes on the stack as it found them comes back with \<^verbatim>\<open>RTS\<close> to the address after
  the operand, with the stack pointer of the caller.
\<close>

theorem jsr_rts_roundtrip:
  assumes "mem_ok m" "plain (r_pc c)" "plain (r_pc c + 1)"
    and "instr_jsr (emu_ports ns None) c m = Some (c1, m1)"
    and "mem_ok m2" "r_sp c2 = r_sp c1" "\<And>k. k \<in> {1, 2} \<Longrightarrow>
      mem_peek m2 (stack_addr (r_sp c1 + k)) = mem_peek m1 (stack_addr (r_sp c1 + k))"
  shows "\<exists>c3. instr_rts (emu_ports ns None) c2 m2 = Some (c3, m2) \<and> r_pc c3 = r_pc c + 2 \<and> r_sp c3 = r_sp c"
proof -
  have j: "r_sp c1 = r_sp c - 2" "m1 = mem_poke (stack_addr (r_sp c - 1)) (low (r_pc c + 1))
      (mem_poke (stack_addr (r_sp c)) (high (r_pc c + 1)) m)"
    using mem.jsr_eq [OF assms(1-3)] assms(4) by auto
  have "mem_peek m1 (stack_addr (r_sp c - 1)) = low (r_pc c + 1)" "mem_peek m1 (stack_addr (r_sp c)) = high (r_pc c + 1)"
    using assms(1) by (simp_all add: j)
  with assms(6) assms(7) [of 1] assms(7) [of 2] mem.rts_eq [OF assms(5), of ns c2] show ?thesis
    by (simp add: j(1) mk16_high_low)
qed

text \<open>
  C13: an interrupt returns. The interrupt sequence on the wired machine has a result; a handler
  that leaves the stack pointer and the three bytes on the stack alone comes back with \<^verbatim>\<open>RTI\<close> to the
  interrupted address, the old stack pointer and the old flags (with the break flag cleared).
\<close>

theorem interrupt_rti_roundtrip:
  assumes "mem_ok m" "interrupt (emu_ports ns None) c m = Some (c1, m1)"
    and "mem_ok m2" "r_sp c2 = r_sp c1" "\<And>k. k \<in> {1, 2, 3} \<Longrightarrow>
      mem_peek m2 (stack_addr (r_sp c1 + k)) = mem_peek m1 (stack_addr (r_sp c1 + k))"
  shows "\<exists>c3. instr_rti (emu_ports ns None) c2 m2 = Some (c3, m2) \<and> r_pc c3 = r_pc c \<and> r_sp c3 = r_sp c \<and>
    r_flags c3 = (r_flags c)\<lparr>f_breakf := False\<rparr>"
proof -
  have i: "r_sp c1 = r_sp c - 3" "m1 = mem.pushed3 c m"
    using mem.interrupt_eq [OF assms(1)] assms(2) by auto
  note p = mem.pushed3_peek(2-4) [OF assms(1), of c]
  with assms(4) assms(5) [of 1] assms(5) [of 2] assms(5) [of 3] mem.rti_eq [OF assms(3), of ns c2] show ?thesis
    by (simp add: i mk16_high_low)
qed

text \<open>
  C14: the interrupt sequence serves one request, the most urgent: reset before the non-maskable
  interrupt before all others. It loads the program counter from the vector of the served request,
  clears that request and no other, disables interrupts and takes six cycles.
\<close>

theorem interrupt_priority:
  assumes "mem_ok m"
  shows "\<exists>c' m'. interrupt (emu_ports ns None) c m = Some (c', m') \<and> mem_ok m' \<and>
    r_pc c' = (let v = (if resetpending c then RESET_VEC else if nmipending c then NMI_VEC else IRQ_BRK_VEC)
               in mk16 (mem_peek m (v + 1)) (mem_peek m v)) \<and>
    \<not> resetpending c' \<and> nmipending c' = (nmipending c \<and> resetpending c) \<and>
    irqpending c' = (irqpending c \<and> (resetpending c \<or> nmipending c)) \<and>
    f_intdis (r_flags c') \<and> r_cycles c' = r_cycles c + 6"
  using assms by (simp add: mem.interrupt_eq mem.pushed3_peek take_vector_def)

text \<open>
  C15: the address the debugger announces as the next one is the address the processor goes to,
  whenever no interrupt is due, the opcode and its operands lie in memory without read effects, the
  opcode is neither \<^verbatim>\<open>BRK\<close> nor \<^verbatim>\<open>RTI\<close>, a return address does not wrap around the stack page and the
  pointer of an indirect jump lies in such memory too.
\<close>

theorem nextaddr_agrees:
  assumes "mem_ok m" "plain (r_pc c)" "plain (r_pc c + 1)" "plain (r_pc c + 2)"
    and "i = mem_peek m (r_pc c)" "p = mk16 (mem_peek m (r_pc c + 2)) (mem_peek m (r_pc c + 1))"
    and "i \<noteq> 0x00" "i \<noteq> 0x40" "i = 0x60 \<Longrightarrow> unat (r_sp c) \<le> 0xFD"
    and "i = 0x6C \<Longrightarrow> plain p \<and> plain (p + 1) \<and> plain (p AND 0xFF00)"
    and "\<not> execnmi c" "\<not> execirq c" "cpu_run (emu_ports ns None) c m = Some (c', m')"
  shows "nextaddr (emu_ports ns None) c m = Some (r_pc c', m)"
proof -
  have "mem.predictable c m" using assms(2-10) by (simp add: mem.predictable_def)
  then show ?thesis using mem.nextaddr_predicts assms(1,11-) by blast
qed

section \<open>Witnesses on the small machine\<close>

lemma demo_peek: "mem_peek demo_mem a = (if a < 0x8000 then 0 else 0xEA)"
proof (cases "a < 0x8000")
  case False
  then have "\<not> a < 0x2000" "0x8000 \<le> a" by (simp_all add: word_less_nat_alt word_le_nat_alt)
  then show ?thesis using demo_prg [of a] False by (simp add: mem_peek_def)
qed (simp add: mem_peek_def demo_mem_def)

definition demo_cpu :: cpu where
  "demo_cpu = cpu_default\<lparr>r_pc := 0x8000, r_sp := 0xFD\<rparr>"

lemma demo_cpu_simps [simp]:
  "r_pc demo_cpu = 0x8000" "r_sp demo_cpu = 0xFD" "\<not> execnmi demo_cpu" "\<not> execirq demo_cpu"
  "\<not> resetpending demo_cpu" "\<not> nmipending demo_cpu" "r_flags demo_cpu = ps_default" "r_cycles demo_cpu = 0"
  by (simp_all add: demo_cpu_def cpu_default_def)

theorem jsr_rts_roundtrip_witness:
  "\<exists>c1 m1 c3. instr_jsr (emu_ports (\<lambda>_. 0) None) demo_cpu demo_mem = Some (c1, m1) \<and>
     instr_rts (emu_ports (\<lambda>_. 0) None) c1 m1 = Some (c3, m1) \<and> r_pc c3 = 0x8002 \<and> r_sp c3 = 0xFD"
proof -
  have p: "plain (r_pc demo_cpu)" "plain (r_pc demo_cpu + 1)" by simp_all
  obtain c1 m1 where j: "instr_jsr (emu_ports (\<lambda>_. 0) None) demo_cpu demo_mem = Some (c1, m1)" "mem_ok m1"
    using mem.jsr_eq [OF demo_mem_ok p, of "\<lambda>_. 0"] demo_mem_ok by simp
  from jsr_rts_roundtrip [OF demo_mem_ok p j(1) j(2) refl refl] j show ?thesis by auto
qed

theorem interrupt_rti_roundtrip_witness:
  "\<exists>c1 m1 c3. interrupt (emu_ports (\<lambda>_. 0) None) demo_cpu demo_mem = Some (c1, m1) \<and>
     instr_rti (emu_ports (\<lambda>_. 0) None) c1 m1 = Some (c3, m1) \<and> r_pc c3 = 0x8000 \<and> r_sp c3 = 0xFD"
proof -
  obtain c1 m1 where i: "interrupt (emu_ports (\<lambda>_. 0) None) demo_cpu demo_mem = Some (c1, m1)" "mem_ok m1"
    using mem.interrupt_eq [OF demo_mem_ok] mem.pushed3_peek(1) [OF demo_mem_ok] by blast
  from interrupt_rti_roundtrip [OF demo_mem_ok i(1) i(2) refl refl] i show ?thesis by auto
qed

theorem interrupt_priority_witness:
  "\<exists>c' m'. interrupt (emu_ports (\<lambda>_. 0) None) (demo_cpu\<lparr>nmipending := True, irqpending := True\<rparr>) demo_mem = Some (c', m') \<and>
     r_pc c' = 0xEAEA \<and> irqpending c' \<and> \<not> nmipending c'"
  using interrupt_priority [OF demo_mem_ok, of "\<lambda>_. 0" "demo_cpu\<lparr>nmipending := True, irqpending := True\<rparr>"]
  by (auto simp: NMI_VEC_def demo_peek mk16_def)

lemma demo_nop: "\<exists>c' m'. cpu_run (emu_ports (\<lambda>_. 0) None) demo_cpu demo_mem = Some (c', m') \<and> r_pc c' = 0x8001"
  using demo_mem_ok
  by (simp add: cpu_run_def mem.fetch_eq demo_peek execute_def execute_tab_def instr_nop_def)

theorem nextaddr_agrees_witness:
  "nextaddr (emu_ports (\<lambda>_. 0) None) demo_cpu demo_mem = Some (0x8001, demo_mem)"
proof -
  obtain c' m' where r: "cpu_run (emu_ports (\<lambda>_. 0) None) demo_cpu demo_mem = Some (c', m')" "r_pc c' = 0x8001"
    using demo_nop by blast
  have "nextaddr (emu_ports (\<lambda>_. 0) None) demo_cpu demo_mem = Some (r_pc c', demo_mem)"
    by (rule nextaddr_agrees [OF demo_mem_ok _ _ _ refl refl _ _ _ _ _ _ r(1)])
       (simp_all add: demo_peek)
  then show ?thesis by (simp add: r(2))
qed

section \<open>Start of a machine\<close>

lemma chr_ok_image:
  assumes "ines_image hdr tr prg chr" "holds_bytes (c_chrrom cart) chr"
  shows "chr_ok cart"
proof -
  have "1 \<le> unat (hdr ! 5)" using assms(1) by (simp add: ines_image_def Suc_le_eq word_neq_0_conv unat_gt_0)
  then show ?thesis using assms by (simp add: chr_ok_def ines_image_def holds_bytes_def)
qed

lemma prg_ok_image:
  assumes "ines_image hdr tr prg chr" "holds_bytes (c_prgrom cart) prg" "2 \<le> hdr ! 4" "hdr ! 4 \<le> 4"
  shows "prg_ok cart"
  using read_last_32k [OF assms(2), of "unat (hdr ! 4)"] assms(1,3,4)
  by (simp add: prg_ok_def ines_image_def word_le_nat_alt)

lemma cpu_power_mem_step: "cpu_power (emu_ports ns None) c m = Some (c', m') \<Longrightarrow> mem_step m m'"
  using frame.power_keeps(1) [where m0 = m] by (metis mem_step_refl)

text \<open>A processor nothing interrupts.\<close>

definition quiet :: "cpu \<Rightarrow> bool" where
  "quiet c \<longleftrightarrow> \<not> execnmi c \<and> \<not> execirq c \<and> \<not> nmipending c \<and> \<not> irqpending c"

lemma emu_power_ok:
  assumes "mem_ok (e_mem e)" "video_good (e_mem e)" "screen_ok (ms_ppu (e_mem e))"
    and "e_cycle e = to_int (r_cycles (e_cpu e))"
  shows "\<exists>e'. emu_power ns None e = Some e' \<and> emu_ok e' \<and> mem_ok (e_mem e') \<and>
    r_pc (e_cpu e') = mk16 (mem_peek (e_mem e) 0xFFFD) (mem_peek (e_mem e) 0xFFFC) \<and> r_sp (e_cpu e') = 0xFD \<and>
    f_intdis (r_flags (e_cpu e')) \<and> e_quit e' = e_quit e \<and> e_nmi e' = e_nmi e \<and> e_cycle e' = e_cycle e \<and>
    r_cycles (e_cpu e') = r_cycles (e_cpu e) + 6 \<and> quiet (e_cpu e') = quiet (e_cpu e) \<and>
    ms_cart (e_mem e') = ms_cart (e_mem e) \<and> p_screen (ms_ppu (e_mem e')) = p_screen (ms_ppu (e_mem e)) \<and>
    (\<forall>a. 0x200 \<le> a \<and> a < 0x800 \<or> a < 0x100 \<longrightarrow> mem_peek (e_mem e') a = 0)"
proof -
  obtain c m where p: "cpu_power (emu_ports ns None) (e_cpu e) (e_mem e) = Some (c, m)" "mem_ok m"
    "r_pc c = mk16 (mem_peek (e_mem e) 0xFFFD) (mem_peek (e_mem e) 0xFFFC)" "r_sp c = 0xFD"
    "r_flags c = ps_default\<lparr>f_intdis := True\<rparr>" "r_cycles c = r_cycles (e_cpu e) + 6" "quiet c = quiet (e_cpu e)"
    "\<forall>a. 0x200 \<le> a \<and> a < 0x800 \<or> a < 0x100 \<longrightarrow> mem_peek m a = 0"
    using mem.power_eq [OF assms(1), of ns "e_cpu e"] unfolding quiet_def by blast
  let ?m = "m\<lparr>ms_ppu := ppu_power (ms_ppu m)\<rparr>"
  have s: "mem_step (e_mem e) m" by (rule cpu_power_mem_step [OF p(1)])
  have "ppu_ok (ppu_power (ms_ppu m))" using s assms(3) by (intro ppu_ok_power) (simp add: mem_step_def screen_ok_def)
  moreover have "video_good ?m" using s assms(2) by (simp add: mem_step_def video_good_def vram_wired_def)
  moreover have "synced (e\<lparr>e_cpu := c, e_mem := ?m\<rparr>)"
    unfolding synced_def using assms(4) p(6) by (intro exI [of _ 6]) simp
  moreover have "mem_ok ?m" using p(2) by (simp add: mem_ok_def ram_wired_def)
  moreover have "mem_peek ?m = mem_peek m" by (rule ext) (simp add: mem_peek_def)
  moreover have "p_screen (ppu_power (ms_ppu m)) = p_screen (ms_ppu (e_mem e))"
    using s by (simp add: mem_step_def ppu_power_def)
  ultimately show ?thesis using p s by (simp add: emu_power_def emu_ok_def mem_step_def)
qed

text \<open>The state of a machine started with an image.\<close>

definition booted :: "uint8 list \<Rightarrow> canvas \<Rightarrow> emulator \<Rightarrow> bool" where
  "booted prg canvas e \<longleftrightarrow> emu_ok e \<and> mem_ok (e_mem e) \<and> \<not> e_quit e \<and> \<not> e_nmi e \<and> quiet (e_cpu e) \<and>
     r_pc (e_cpu e) = mk16 (prg ! (length prg - 3)) (prg ! (length prg - 4)) \<and>
     r_sp (e_cpu e) = 0xFD \<and> f_intdis (r_flags (e_cpu e)) \<and> r_cycles (e_cpu e) = 6 \<and> e_cycle e = 0 \<and>
     p_screen (ms_ppu (e_mem e)) = Some canvas \<and>
     (\<forall>a. 0x8000 \<le> a \<longrightarrow> mem_peek (e_mem e) a = prg ! (length prg - 0x8000 + (unat a - 0x8000))) \<and>
     (\<forall>a. 0x200 \<le> a \<and> a < 0x800 \<or> a < 0x100 \<longrightarrow> mem_peek (e_mem e) a = 0)"

lemma machine_booted:
  assumes "ines_image hdr tr prg chr" "filbuf f = Some (hdr @ tr @ prg @ chr @ rest)" "2 \<le> hdr ! 4" "hdr ! 4 \<le> 4"
    and "jv 0x1FFF \<noteq> 1" "canvas_ok canvas" "tw canvas = 256" "th canvas = 240"
  shows "\<exists>e0 e1 e2 f'. emulator_new junk jr jv p = Some e0 \<and> insert_rom junk' f e0 = Some (True, e1, f') \<and>
    emu_power ns None (emu_set_screen (Some canvas) e1) = Some e2 \<and> booted prg canvas e2"
proof -
  obtain e0 where e0: "emulator_new junk jr jv p = Some e0" "e_cpu e0 = cpu_default" "e_cycle e0 = 0" "\<not> e_quit e0" "\<not> e_nmi e0"
    "ms_cart (e_mem e0) = cartridge_new junk" by (simp add: emulator_new_eq)
  have nc: "\<not> has_chrram (ms_cart (e_mem e0))" by (simp add: e0 cartridge_new_def)
  obtain cart f' where c: "parse junk' f (ms_cart (e_mem e0)) = (True, cart, f')" "holds_bytes (c_prgrom cart) prg"
    "holds_bytes (c_chrrom cart) chr" using parse_parts [OF assms(1,2) nc] by blast
  obtain e1 where e1: "insert_rom junk' f e0 = Some (True, e1, f')" "ms_cart (e_mem e1) = cart"
    "e_cpu e1 = e_cpu e0" "e_cycle e1 = e_cycle e0" "e_quit e1 = e_quit e0" "e_nmi e1 = e_nmi e0"
    "ram_wired (e_mem e1)" "vram_wired (c_nt_mirroring cart) (e_mem e1)"
    using insert_rom_new [OF e0(1) c(1) assms(5)] by blast
  let ?e = "emu_set_screen (Some canvas) e1"
  have s: "mem_ok (e_mem ?e)" "video_good (e_mem ?e)" "screen_ok (ms_ppu (e_mem ?e))" "e_cycle ?e = to_int (r_cycles (e_cpu ?e))"
    "ms_cart (e_mem ?e) = cart" "\<not> e_quit ?e" "\<not> e_nmi ?e" "e_cycle ?e = 0" "r_cycles (e_cpu ?e) = 0" "quiet (e_cpu ?e)"
    "p_screen (ms_ppu (e_mem ?e)) = Some canvas"
    using e1 e0 prg_ok_image [OF assms(1) c(2) assms(3,4)] chr_ok_image [OF assms(1) c(3)] mirroring_parsed [OF c(1)] assms(6-8)
    by (auto simp: emu_set_screen_def mem_ok_def video_good_def ram_wired_def vram_wired_def screen_ok_def
        set_screen_def cpu_default_def to_int_def quiet_def)
  have l: "length prg = unat (hdr ! 4) * 16384" "2 \<le> unat (hdr ! 4)" "unat (hdr ! 4) \<le> 4"
    using assms(1,3,4) by (simp_all add: ines_image_def word_le_nat_alt)
  have rom: "mem_peek m a = prg ! (length prg - 0x8000 + (unat a - 0x8000))" if "0x8000 \<le> a" "ms_cart m = cart" for m a
    using read_last_32k [OF c(2) l that(1)] that by (auto simp: mem_peek_def word_less_nat_alt word_le_nat_alt)
  have "mem_peek (e_mem ?e) 0xFFFC = prg ! (length prg - 4)" "mem_peek (e_mem ?e) 0xFFFD = prg ! (length prg - 3)"
    using rom [OF _ s(5)] l by simp_all
  moreover obtain e2 where "emu_power ns None ?e = Some e2" "emu_ok e2" "mem_ok (e_mem e2)"
    "r_pc (e_cpu e2) = mk16 (mem_peek (e_mem ?e) 0xFFFD) (mem_peek (e_mem ?e) 0xFFFC)" "r_sp (e_cpu e2) = 0xFD"
    "f_intdis (r_flags (e_cpu e2))" "\<not> e_quit e2" "\<not> e_nmi e2" "e_cycle e2 = 0" "r_cycles (e_cpu e2) = 6" "quiet (e_cpu e2)"
    "ms_cart (e_mem e2) = cart" "p_screen (ms_ppu (e_mem e2)) = Some canvas"
    "\<forall>a. 0x200 \<le> a \<and> a < 0x800 \<or> a < 0x100 \<longrightarrow> mem_peek (e_mem e2) a = 0"
    using emu_power_ok [OF s(1-4), of ns] s(5-11) by auto
  ultimately have "booted prg canvas e2" using rom [of _ "e_mem e2"] by (simp add: booted_def)
  with e0(1) e1(1) \<open>emu_power ns None ?e = Some e2\<close> show ?thesis by blast
qed

text \<open>
  C2: a machine starts. After the constructor, \<^verbatim>\<open>insert_rom\<close> of an iNES image with two to four
  program banks, character ROM and bit 4 of header byte 10 clear (and a lookup table whose uninitialised cell
  \<^verbatim>\<open>0x1FFF\<close> is not 1), \<^verbatim>\<open>set_screen\<close> with a canvas of 256 by 240 and \<^verbatim>\<open>power\<close>, the machine
  is in its invariant, the program counter holds the reset vector of the image, the stack pointer
  is \<^verbatim>\<open>0xFD\<close>, interrupts are disabled and the RAM outside the stack page is zero (the interrupt sequence of the
  reset pushes to the stack page).
\<close>

theorem machine_boots:
  assumes "ines_image hdr tr prg chr" "filbuf f = Some (hdr @ tr @ prg @ chr @ rest)" "2 \<le> hdr ! 4" "hdr ! 4 \<le> 4"
    and "jv 0x1FFF \<noteq> 1" "canvas_ok canvas" "tw canvas = 256" "th canvas = 240"
  shows "\<exists>e0 e1 e2 f'. emulator_new junk jr jv p = Some e0 \<and> insert_rom junk' f e0 = Some (True, e1, f') \<and>
    emu_power ns None (emu_set_screen (Some canvas) e1) = Some e2 \<and> emu_ok e2 \<and> mem_ok (e_mem e2) \<and> \<not> e_quit e2 \<and>
    r_pc (e_cpu e2) = mk16 (prg ! (length prg - 3)) (prg ! (length prg - 4)) \<and>
    r_sp (e_cpu e2) = 0xFD \<and> f_intdis (r_flags (e_cpu e2)) \<and>
    (\<forall>a. 0x200 \<le> a \<and> a < 0x800 \<or> a < 0x100 \<longrightarrow> mem_peek (e_mem e2) a = 0)"
  using machine_booted [where jv = jv, OF assms, of junk jr p junk' ns] unfolding booted_def by blast

text \<open>
  C19: \<^verbatim>\<open>Emulator::run\<close> after an instruction that itself has a result: it has one exactly as long as the
  32-bit cycle counter does not pass its maximum. The first instruction that takes the processor
  past cycle 2147483647 makes the difference of the two counters overflow, about twenty minutes
  after power-up.
\<close>

theorem run_until_counter_overflow:
  assumes "emu_ok e" "e_cycle e = to_int (r_cycles (e_cpu e))"
    and "cpu_run (emu_ports ns None) (e_cpu e) (e_mem e) = Some (c, m)"
  shows "\<exists>n \<in> {1..7}. r_cycles c = r_cycles (e_cpu e) + of_nat n \<and>
    (emu_run ns None e = None \<longleftrightarrow> 2 ^ 31 \<le> e_cycle e + int n)"
proof -
  obtain n where n: "1 \<le> n" "n \<le> 7" "r_cycles c = r_cycles (e_cpu e) + of_nat n"
    using cpu_run_progress [OF assms(3)] by blast
  have d: "to_int (r_cycles c) - e_cycle e = (if e_cycle e + int n < 2 ^ 31 then int n else int n - 2 ^ 32)"
    using to_int_add [of n "r_cycles (e_cpu e)"] n by (simp add: assms(2))
  have good: "video_good m" "ppu_ok (ms_ppu m)"
    using mem_step_good [OF cpu_run_mem_step [OF assms(3)]] assms(1) by (simp_all add: emu_ok_def)
  have total: "\<exists>p x. ppu_runs (emu_ppu_ports ns m) k (ms_ppu m) (c, e_nmi e) = Some (p, x)" for k
    using video_runs [OF good] by blast
  have "emu_run ns None e = None \<longleftrightarrow> 2 ^ 31 \<le> e_cycle e + int n"
  proof (cases "e_cycle e + int n < 2 ^ 31")
    case True
    then show ?thesis using n d total [of "nat (int n * 3)"]
      by (auto simp: emu_run_def assms(3) Let_def int_fits_def case_prod_unfold)
  next
    case False
    then have "\<not> int_fits (to_int (r_cycles c) - e_cycle e)" using n d by (simp add: int_fits_def)
    then show ?thesis using False by (simp add: emu_run_def assms(3) Let_def)
  qed
  then show ?thesis using n by (intro bexI [of _ n]) simp_all
qed

definition late :: emulator where
  "late = demo\<lparr>e_cpu := demo_cpu\<lparr>r_cycles := 0x7FFFFFFF\<rparr>, e_cycle := 0x7FFFFFFF\<rparr>"

lemma late_ok: "emu_ok late" "e_cycle late = to_int (r_cycles (e_cpu late))"
proof -
  show s: "e_cycle late = to_int (r_cycles (e_cpu late))" by (simp add: late_def to_int_eq)
  then have "synced late" unfolding synced_def by (intro exI [of _ 0]) simp
  then show "emu_ok late" using demo_ok by (simp add: emu_ok_def late_def)
qed

lemma late_nop: "\<exists>c' m'. cpu_run (emu_ports (\<lambda>_. 0) None) (e_cpu late) (e_mem late) = Some (c', m')"
  using demo_mem_ok
  by (simp add: late_def demo_def cpu_run_def mem.fetch_eq demo_peek execute_def execute_tab_def)

theorem run_until_counter_overflow_witness: "emu_run (\<lambda>_. 0) None late = None"
proof -
  obtain c m where "cpu_run (emu_ports (\<lambda>_. 0) None) (e_cpu late) (e_mem late) = Some (c, m)" using late_nop by blast
  from run_until_counter_overflow [OF late_ok this] show ?thesis by (auto simp: late_def)
qed

definition nop_file :: ufile where
  "nop_file = \<lparr>filbuf = Some (small_header @ [] @ replicate 0x8000 0xEA @ replicate 0x2000 0 @ []), filname = ''nop''\<rparr>"

theorem machine_boots_witness:
  "\<exists>e0 e1 e2 f'. emulator_new (\<lambda>_. 0) (\<lambda>_. 0) (\<lambda>_. 0) ppu_zero = Some e0 \<and>
     insert_rom (\<lambda>_. 0) nop_file e0 = Some (True, e1, f') \<and>
     emu_power (\<lambda>_. 0) None (emu_set_screen (Some (canvas_new (\<lambda>_. 0) 256 240)) e1) = Some e2 \<and> emu_ok e2"
proof -
  have f: "filbuf nop_file = Some (small_header @ [] @ replicate 0x8000 0xEA @ replicate 0x2000 0 @ [])"
    by (simp only: nop_file_def ufile.simps)
  have h: "2 \<le> small_header ! 4" "small_header ! 4 \<le> 4" by (simp_all add: small_header_def)
  have c: "canvas_ok (canvas_new (\<lambda>_. 0) 256 240)" by (rule canvas_ok_new) simp_all
  have d: "tw (canvas_new (\<lambda>_. 0) 256 240) = 256" "th (canvas_new (\<lambda>_. 0) 256 240) = 240"
    by (simp_all add: canvas_new_def size_max_def)
  show ?thesis
    using machine_boots [OF small_image f h _ c d, of "\<lambda>_. 0" "\<lambda>_. 0" "\<lambda>_. 0" ppu_zero "\<lambda>_. 0" "\<lambda>_. 0"] by auto
qed

theorem insert_rom_wires_witness:
  "\<exists>e cart f' e'. emulator_new (\<lambda>_. 0) (\<lambda>_. 0) (\<lambda>_. 0) ppu_zero = Some e \<and>
     parse (\<lambda>_. 0) nop_file (ms_cart (e_mem e)) = (True, cart, f') \<and>
     insert_rom (\<lambda>_. 0) nop_file e = Some (True, e', f') \<and> ram_wired (e_mem e')"
proof -
  obtain e where e: "emulator_new (\<lambda>_. 0) (\<lambda>_. 0) (\<lambda>_. 0) ppu_zero = Some e" "ms_cart (e_mem e) = cartridge_new (\<lambda>_. 0)"
    by (simp add: emulator_new_eq)
  have f: "filbuf nop_file = Some (small_header @ [] @ replicate 0x8000 0xEA @ replicate 0x2000 0 @ [])"
    by (simp only: nop_file_def ufile.simps)
  have n: "\<not> has_chrram (ms_cart (e_mem e))" by (simp add: e cartridge_new_def)
  obtain cart f' where c: "parse (\<lambda>_. 0) nop_file (ms_cart (e_mem e)) = (True, cart, f')"
    using parse_parts [OF small_image f n, of "\<lambda>_. 0"] by blast
  have "(\<lambda>_ :: nat. 0 :: nat) 0x1FFF \<noteq> 1" by simp
  from insert_rom_wires [OF e(1) c this] show ?thesis using e(1) c by blast
qed

section \<open>A frame of the small machine\<close>

text \<open>The processor after \<open>k\<close> \<^verbatim>\<open>NOP\<close>s, and the machine with it.\<close>

definition nop_cpu :: "nat \<Rightarrow> cpu" where
  "nop_cpu k = cpu_default\<lparr>r_pc := 0x8000 + of_nat k, r_cycles := of_nat (2 * k)\<rparr>"

definition nop_state :: "emulator \<Rightarrow> nat \<Rightarrow> bool" where
  "nop_state e k \<longleftrightarrow> emu_ok e \<and> (\<exists>p. e_mem e = demo_mem\<lparr>ms_ppu := p\<rparr>) \<and> e_cpu e = nop_cpu k \<and>
     e_cycle e = to_int (r_cycles (e_cpu e)) \<and> 3 * k + until_nmi (ms_ppu (e_mem e)) < 89342"

lemma nop_pc:
  assumes "k < 30000"
  shows "0x8000 \<le> (0x8000 :: uint16) + of_nat k"
proof -
  have "unat ((0x8000 :: uint16) + of_nat k) = 0x8000 + k"
    using assms by (simp add: unat_word_ariths unsigned_of_nat take_bit_eq_mod)
  then show ?thesis by (simp add: word_le_nat_alt)
qed

lemma nop_runs:
  assumes "e_mem e = demo_mem\<lparr>ms_ppu := p\<rparr>" "e_cpu e = nop_cpu k" "k < 30000"
  shows "cpu_run (emu_ports ns None) (e_cpu e) (e_mem e) = Some (nop_cpu (k + 1), e_mem e)"
proof -
  have pc: "0x8000 \<le> r_pc (nop_cpu k)" using nop_pc [OF assms(3)] by (simp add: nop_cpu_def)
  have "mem_ok (e_mem e)" using demo_mem_ok by (simp add: assms(1) mem_ok_def ram_wired_def)
  moreover have "mem_peek (e_mem e) a = mem_peek demo_mem a" for a by (simp add: assms(1) mem_peek_def)
  with pc have "mem_peek (e_mem e) (r_pc (nop_cpu k)) = 0xEA" by (simp add: demo_peek linorder_not_less)
  moreover have "plain (r_pc (nop_cpu k))"
    using pc by (simp add: word_less_nat_alt word_le_nat_alt)
  ultimately show ?thesis
    by (simp add: assms(2) cpu_run_def mem.fetch_eq execute_def execute_tab_def instr_nop_def)
      (simp add: nop_cpu_def cpu_default_def cycle_def last_cycle_def irqpoll_def nmipoll_def)
qed

lemma nop_state_step:
  assumes "nop_state e k" "emu_run ns None e = Some e'" "\<not> e_nmi e'"
  shows "nop_state e' (k + 1)"
proof -
  obtain p where p: "e_mem e = demo_mem\<lparr>ms_ppu := p\<rparr>" using assms(1) by (auto simp: nop_state_def)
  have k: "k < 30000" "emu_ok e" "e_cpu e = nop_cpu k" using assms(1) by (simp_all add: nop_state_def)
  note ok = emu_run_step [OF k(2) assms(2)]
  obtain q where "e' = e\<lparr>e_cpu := nop_cpu (k + 1), e_mem := (e_mem e)\<lparr>ms_ppu := q\<rparr>, e_cycle := to_int (r_cycles (nop_cpu (k + 1)))\<rparr>"
    using ok(4) assms(3) nop_runs [OF p k(3,1)] by auto
  then show ?thesis using ok(1,2) assms p by (auto simp: nop_state_def)
qed

lemma nop_state_runnable:
  assumes "nop_state e k"
  shows "runnable ns e"
proof -
  obtain p where p: "e_mem e = demo_mem\<lparr>ms_ppu := p\<rparr>" using assms by (auto simp: nop_state_def)
  have k: "k < 30000" "e_cpu e = nop_cpu k" "e_cycle e = to_int (r_cycles (nop_cpu k))"
    using assms by (auto simp: nop_state_def)
  have t: "to_int (r_cycles (nop_cpu j)) = 2 * int j" if "j < 40000" for j
    using that by (simp add: nop_cpu_def to_int_eq uint_word_ariths unsigned_of_nat take_bit_eq_mod zmod_int)
  show ?thesis using nop_runs [OF p k(2,1), of ns] k t [of k] t [of "k + 1"] by (simp add: runnable_def int_fits_def)
qed

lemma nop_in_frame:
  assumes "in_frame ns e e1" "nop_state e 0"
  shows "e_nmi e1 \<or> (\<exists>k. nop_state e1 k)"
  using assms by (induction rule: in_frame.induct) (use nop_state_step in blast)+

lemma demo_nop_state: "nop_state demo 0"
  using demo_ok until_nmi_bound [of ppu_zero]
  by (simp add: nop_state_def) (simp add: demo_def demo_mem_def nop_cpu_def to_int_def cpu_default_def)

theorem run_frame_returns_witness:
  "\<exists>e1. in_frame (\<lambda>_. 0) demo e1 \<and> e_nmi e1 \<and> run_frame (\<lambda>_. 0) None 29782 demo = Done (e1\<lparr>e_nmi := False\<rparr>)"
proof -
  have "\<forall>e1. in_frame (\<lambda>_. 0) demo e1 \<and> \<not> e_nmi e1 \<longrightarrow> runnable (\<lambda>_. 0) e1"
    using nop_in_frame [OF _ demo_nop_state] nop_state_runnable by blast
  from run_frame_returns [OF demo_ok _ this] show ?thesis by (auto simp: demo_def)
qed

end
