(* ===== verification/Debugger.thy ===== *)
theory Debugger
  imports Machine
begin

text \<open>
  The debugger, \<^verbatim>\<open>emu/core/debugger.hpp\<close> and \<^verbatim>\<open>emu/core/debugger.cpp\<close>: breakpoints, the stop address of
  the \<^verbatim>\<open>next\<close> and \<^verbatim>\<open>step\<close> commands, the backtrace and tracing. The processor calls
  \<open>dbg_fetch_callback\<close> before every access; the callback of the user interface is a function on a
  state that extends \<open>dbgstate\<close>, the debugger and the memory side of the machine. An open trace
  file is the text written to it; formatting of numbers is a parameter.
\<close>

unbundle bit_operations_syntax

section \<open>State\<close>

datatype event_type = FETCH | BREAK

record event =
  ev_type :: event_type
  ev_cpu_st :: cpu_status
  ev_index :: nat

record breakpoint =
  bp_start :: uint16
  bp_end :: uint16
  bp_mode :: char

record debugger =
  breakvec :: "breakpoint list"
  nextstop :: "uint16 option"
  btrace :: "cpu_status list"
  tracefile :: "string option"
  dquit :: bool

record dbgstate =
  ds_dbg :: debugger
  ds_mem :: memside

type_synonym 'z break_callback = "cpu \<Rightarrow> event \<Rightarrow> 'z dbgstate_scheme \<Rightarrow> 'z dbgstate_scheme option"

definition debugger_new :: debugger where
  "debugger_new = \<lparr>breakvec = [], nextstop = Some 0, btrace = [], tracefile = None, dquit = False\<rparr>"

section \<open>Commands\<close>

definition continue_exec :: "debugger \<Rightarrow> debugger" where
  "continue_exec d = d\<lparr>nextstop := None\<rparr>"

definition set_nextstop :: "uint16 \<Rightarrow> debugger \<Rightarrow> debugger" where
  "set_nextstop addr d = d\<lparr>nextstop := Some addr\<rparr>"

definition set_quit :: "bool \<Rightarrow> debugger \<Rightarrow> debugger" where
  "set_quit q d = d\<lparr>dquit := q\<rparr>"

definition setbreak :: "breakpoint \<Rightarrow> debugger \<Rightarrow> nat \<times> debugger" where
  "setbreak p d = (length (breakvec d), d\<lparr>breakvec := breakvec d @ [p]\<rparr>)"

definition delbreak :: "nat \<Rightarrow> debugger \<Rightarrow> debugger option" where
  "delbreak index d =
     (if index < length (breakvec d)
      then Some (d\<lparr>breakvec := take index (breakvec d) @ drop (index + 1) (breakvec d)\<rparr>) else None)"

definition stop_tracing :: "debugger \<Rightarrow> debugger" where
  "stop_tracing d = d\<lparr>tracefile := None\<rparr>"

definition start_tracing :: "debugger \<Rightarrow> debugger" where
  "start_tracing d = (stop_tracing d)\<lparr>tracefile := Some []\<rparr>"

definition update_backtrace :: "cpu_status \<Rightarrow> debugger \<Rightarrow> debugger option" where
  "update_backtrace st d =
     (if st_id st = 0x20 \<or> st_id st = 0x4C \<or> st_id st = 0x6C then Some (d\<lparr>btrace := btrace d @ [st]\<rparr>)
      else if st_id st = 0x60 then
        (if btrace d = [] then None
         else if st_id (last (btrace d)) = 0x20 then Some (d\<lparr>btrace := butlast (btrace d)\<rparr>)
         else Some d)
      else Some d)"

definition trace_line :: "formatter \<Rightarrow> cpu_status \<Rightarrow> ppu_status_data \<Rightarrow> string" where
  "trace_line F st pst = (let r = st_regs st in
     ''PC: $'' @ fmt04X F (unat (r_pc r)) @ '' A: $'' @ fmt02X F (unat (r_acc r)) @ '' X: $'' @ fmt02X F (unat (r_x r)) @
     '' Y: $'' @ fmt02X F (unat (r_y r)) @ '' SP: $'' @ fmt02X F (unat (r_sp r)) @ '' '' @ format_flags (r_flags r) @ '' '' @
     ''V: '' @ fmt04X F (unat (v_addr (st_vram pst))) @ '' '' @
     format_instr F (st_id st) (low (st_op st)) (high (st_op st)) (r_pc r) (r_flags r) @ [CHR 0x0A])"

definition trace :: "formatter \<Rightarrow> cpu_status \<Rightarrow> ppu_status_data \<Rightarrow> debugger \<Rightarrow> debugger" where
  "trace F st pst d =
     (case tracefile d of None \<Rightarrow> d | Some t \<Rightarrow> d\<lparr>tracefile := Some (t @ trace_line F st pst)\<rparr>)"

text \<open>The rest of the machine: the processor's state is only read.\<close>

definition with_dbg :: "(debugger \<Rightarrow> debugger) \<Rightarrow> 'z dbgstate_scheme \<Rightarrow> 'z dbgstate_scheme" where
  "with_dbg f w = w\<lparr>ds_dbg := f (ds_dbg w)\<rparr>"

definition bus_get :: "(int \<Rightarrow> uint8) \<Rightarrow> uint16 \<Rightarrow> 'z dbgstate_scheme \<Rightarrow> (uint8 \<times> 'z dbgstate_scheme) option" where
  "bus_get ns addr w =
     do { (v, m) \<leftarrow> port_read (emu_ports ns None) addr (ds_mem w); Some (v, w\<lparr>ds_mem := m\<rparr>) }"

definition dbg_ppu_status :: "(int \<Rightarrow> uint8) \<Rightarrow> 'z dbgstate_scheme \<Rightarrow> ppu_status_data option" where
  "dbg_ppu_status ns w = ppu_status (emu_ppu_ports ns (ds_mem w)) (ms_ppu (ds_mem w))"

definition dbg_cpu_status :: "(int \<Rightarrow> uint8) \<Rightarrow> cpu \<Rightarrow> 'z dbgstate_scheme \<Rightarrow> (cpu_status \<times> 'z dbgstate_scheme) option" where
  "dbg_cpu_status ns c w = do { (st, m) \<leftarrow> status (emu_ports ns None) c (ds_mem w); Some (st, w\<lparr>ds_mem := m\<rparr>) }"

definition dbg_nextaddr :: "(int \<Rightarrow> uint8) \<Rightarrow> cpu \<Rightarrow> 'z dbgstate_scheme \<Rightarrow> (uint16 \<times> 'z dbgstate_scheme) option" where
  "dbg_nextaddr ns c w = do { (a, m) \<leftarrow> nextaddr (emu_ports ns None) c (ds_mem w); Some (a, w\<lparr>ds_mem := m\<rparr>) }"

definition dbg_step :: "(int \<Rightarrow> uint8) \<Rightarrow> cpu \<Rightarrow> 'z dbgstate_scheme \<Rightarrow> 'z dbgstate_scheme option" where
  "dbg_step ns c w = do { (a, w) \<leftarrow> dbg_nextaddr ns c w; Some (with_dbg (set_nextstop a) w) }"

definition dbg_next :: "(int \<Rightarrow> uint8) \<Rightarrow> cpu \<Rightarrow> 'z dbgstate_scheme \<Rightarrow> 'z dbgstate_scheme option" where
  "dbg_next ns c w =
     do { (i, w) \<leftarrow> bus_get ns (r_pc c) w;
          (a, w) \<leftarrow> (if is_jump i then Some (r_pc c + of_nat (num_bytes i), w) else dbg_nextaddr ns c w);
          Some (with_dbg (set_nextstop a) w) }"

definition dbg_read :: "(int \<Rightarrow> uint8) \<Rightarrow> uint16 \<Rightarrow> 'z dbgstate_scheme \<Rightarrow> (uint8 \<times> 'z dbgstate_scheme) option" where
  "dbg_read ns addr w =
     (if 0x2000 \<le> addr \<and> addr \<le> 0x2007
      then do { v \<leftarrow> readreg_no_sideeff (emu_ppu_ports ns (ds_mem w)) addr (ms_ppu (ds_mem w)); Some (v, w) }
      else bus_get ns addr w)"

definition dbg_write :: "(int \<Rightarrow> uint8) \<Rightarrow> uint16 \<Rightarrow> uint8 \<Rightarrow> 'z dbgstate_scheme \<Rightarrow> 'z dbgstate_scheme option" where
  "dbg_write ns addr value w =
     do { m \<leftarrow> port_write (emu_ports ns None) addr value (ds_mem w); Some (w\<lparr>ds_mem := m\<rparr>) }"

section \<open>The callback of the processor\<close>

definition hits :: "char \<Rightarrow> uint16 \<Rightarrow> breakpoint \<Rightarrow> bool" where
  "hits mode addr p \<longleftrightarrow> bp_mode p = mode \<and> bp_start p \<le> addr \<and> addr \<le> bp_end p"

fun find_break :: "char \<Rightarrow> uint16 \<Rightarrow> nat \<Rightarrow> breakpoint list \<Rightarrow> nat option" where
  "find_break mode addr i [] = None"
| "find_break mode addr i (p # ps) = (if hits mode addr p then Some i else find_break mode addr (i + 1) ps)"

definition trace_fetch ::
  "(int \<Rightarrow> uint8) \<Rightarrow> formatter \<Rightarrow> cpu_status \<Rightarrow> 'z dbgstate_scheme \<Rightarrow> 'z dbgstate_scheme option" where
  "trace_fetch ns F st w =
     do { d \<leftarrow> update_backtrace st (ds_dbg w);
          let w = w\<lparr>ds_dbg := d\<rparr>;
          pst \<leftarrow> dbg_ppu_status ns w;
          Some (with_dbg (trace F st pst) w) }"

definition check_nextstop ::
  "(int \<Rightarrow> uint8) \<Rightarrow> 'z break_callback \<Rightarrow> cpu_status \<Rightarrow> uint16 \<Rightarrow> char \<Rightarrow> cpu \<Rightarrow> 'z dbgstate_scheme \<Rightarrow>
   'z dbgstate_scheme option" where
  "check_nextstop ns callback st addr mode c w =
     (case nextstop (ds_dbg w) of
        None \<Rightarrow> Some w
      | Some stop \<Rightarrow>
          if mode = CHR ''r'' \<and> 0xFFFA \<le> addr \<and> addr AND 1 = 0 then
            do { (h, w) \<leftarrow> bus_get ns (addr + 1) w;
                 (l, w) \<leftarrow> bus_get ns addr w;
                 Some (with_dbg (set_nextstop (push_bit 8 (ucast h) OR ucast l)) w) }
          else if mode = CHR ''x'' \<and> addr = stop then
            callback c \<lparr>ev_type = FETCH, ev_cpu_st = st, ev_index = 0\<rparr> (with_dbg continue_exec w)
          else Some w)"

text \<open>Without a callback the code prints a warning and returns.\<close>

definition dbg_fetch_callback ::
  "(int \<Rightarrow> uint8) \<Rightarrow> formatter \<Rightarrow> 'z break_callback option \<Rightarrow> cpu_status \<Rightarrow> uint16 \<Rightarrow> char \<Rightarrow> cpu \<Rightarrow>
   'z dbgstate_scheme \<Rightarrow> 'z dbgstate_scheme option" where
  "dbg_fetch_callback ns F cb st addr mode c w =
     (if dquit (ds_dbg w) then Some w
      else case cb of
             None \<Rightarrow> Some w
           | Some callback \<Rightarrow>
               do { w \<leftarrow> (if mode = CHR ''x'' then trace_fetch ns F st w else Some w);
                    w \<leftarrow> (case find_break mode addr 0 (breakvec (ds_dbg w)) of
                            None \<Rightarrow> Some w
                          | Some i \<Rightarrow> callback c \<lparr>ev_type = BREAK, ev_cpu_st = st, ev_index = i\<rparr> w);
                    check_nextstop ns callback st addr mode c w })"

text \<open>\<^verbatim>\<open>enable_debugger\<close>: the machine's bus with the debugger as the callback of the processor.\<close>

definition debug_ports ::
  "(int \<Rightarrow> uint8) \<Rightarrow> formatter \<Rightarrow> 'z break_callback \<Rightarrow> 'z dbgstate_scheme cpu_ports" where
  "debug_ports ns F callback =
     \<lparr>port_read = (\<lambda>a w. bus_get ns a w), port_write = (\<lambda>a v w. dbg_write ns a v w),
      port_callback = Some (dbg_fetch_callback ns F (Some callback))\<rparr>"

section \<open>Breakpoints\<close>

lemma find_break_Some:
  assumes "k < length ps" "hits mode addr (ps ! k)" "\<forall>j < k. \<not> hits mode addr (ps ! j)"
  shows "find_break mode addr i ps = Some (i + k)"
  using assms
proof (induction ps arbitrary: i k)
  case (Cons p ps)
  show ?case
  proof (cases k)
    case 0
    then show ?thesis using Cons.prems by simp
  next
    case (Suc k')
    then have "\<not> hits mode addr p" using Cons.prems(3) by force
    moreover have "find_break mode addr (i + 1) ps = Some (i + 1 + k')"
      using Cons.prems Suc by (intro Cons.IH) auto
    ultimately show ?thesis using Suc by simp
  qed
qed simp

lemma find_break_None: "\<forall>p \<in> set ps. \<not> hits mode addr p \<Longrightarrow> find_break mode addr i ps = None"
  by (induction ps arbitrary: i) auto

lemma update_backtrace_keeps:
  "update_backtrace st d = Some d' \<Longrightarrow> breakvec d' = breakvec d \<and> nextstop d' = nextstop d \<and> dquit d' = dquit d \<and> tracefile d' = tracefile d"
  by (auto simp: update_backtrace_def split: if_splits)

lemma dbg_ppu_status_total: "\<exists>pst. dbg_ppu_status ns w = Some pst"
  by (simp add: dbg_ppu_status_def ppu_status_def readreg_no_sideeff_def Let_def)

lemma trace_keeps [simp]:
  "breakvec (trace F st pst d) = breakvec d" "nextstop (trace F st pst d) = nextstop d" "dquit (trace F st pst d) = dquit d"
  "btrace (trace F st pst d) = btrace d"
  by (simp_all add: trace_def split: option.splits)

text \<open>What is done for every opcode leaves the machine, the breakpoints and the stop address alone.\<close>

lemma trace_fetch_keeps:
  assumes "trace_fetch ns F st w = Some w'"
  shows "ds_mem w' = ds_mem w" "breakvec (ds_dbg w') = breakvec (ds_dbg w)" "nextstop (ds_dbg w') = nextstop (ds_dbg w)"
    "dquit (ds_dbg w') = dquit (ds_dbg w)"
  using assms by (auto simp: trace_fetch_def with_dbg_def dest!: update_backtrace_keeps elim!: bind_SomeE)

lemma trace_fetch_returns:
  assumes "st_id st = 0x60 \<longrightarrow> btrace (ds_dbg w) \<noteq> []"
  shows "\<exists>w'. trace_fetch ns F st w = Some w'"
proof -
  have "update_backtrace st (ds_dbg w) \<noteq> None" using assms by (simp add: update_backtrace_def)
  then obtain d where "update_backtrace st (ds_dbg w) = Some d" by blast
  moreover obtain pst where "dbg_ppu_status ns (w\<lparr>ds_dbg := d\<rparr>) = Some pst" using dbg_ppu_status_total by blast
  ultimately show ?thesis by (simp add: trace_fetch_def)
qed

lemma vector_addresses: "0xFFFA \<le> addr \<and> addr AND 1 = 0 \<longleftrightarrow> addr \<in> {0xFFFA, 0xFFFC, 0xFFFE}" for addr :: uint16
proof -
  have "addr \<in> {0xFFFA, 0xFFFB, 0xFFFC, 0xFFFD, 0xFFFE, 0xFFFF}" if "0xFFFA \<le> addr"
  proof -
    have "65530 \<le> unat addr" "unat addr < 65536" using that unat_uint16_less [of addr] by (simp_all add: word_le_nat_alt)
    then have "unat addr \<in> {65530, 65531, 65532, 65533, 65534, 65535}" unfolding insert_iff by linarith
    then show ?thesis by (auto simp: word_unat_eq_iff)
  qed
  then show ?thesis by auto
qed

lemma vector_read:
  assumes "mem_ok (ds_mem w)" "addr \<in> {0xFFFA, 0xFFFC, 0xFFFE}"
  shows "bus_get ns addr w = Some (mem_peek (ds_mem w) addr, w)" "bus_get ns (addr + 1) w = Some (mem_peek (ds_mem w) (addr + 1), w)"
  using assms(2) by (auto simp: bus_get_def mem.read_plain [OF assms(1)])

lemma check_nextstop_cases:
  assumes "mem_ok (ds_mem w)"
  shows "check_nextstop ns cb st addr mode c w =
    (case nextstop (ds_dbg w) of
       None \<Rightarrow> Some w
     | Some stop \<Rightarrow>
         if mode = CHR ''r'' \<and> addr \<in> {0xFFFA, 0xFFFC, 0xFFFE}
         then Some (w\<lparr>ds_dbg := (ds_dbg w)\<lparr>nextstop := Some (mk16 (mem_peek (ds_mem w) (addr + 1)) (mem_peek (ds_mem w) addr))\<rparr>\<rparr>)
         else if mode = CHR ''x'' \<and> addr = stop
         then cb c \<lparr>ev_type = FETCH, ev_cpu_st = st, ev_index = 0\<rparr> (w\<lparr>ds_dbg := (ds_dbg w)\<lparr>nextstop := None\<rparr>\<rparr>)
         else Some w)"
proof (cases "nextstop (ds_dbg w)")
  case (Some stop)
  show ?thesis
  proof (cases "mode = CHR ''r'' \<and> addr \<in> {0xFFFA, 0xFFFC, 0xFFFE}")
    case True
    then have a: "mode = CHR ''r''" "addr \<in> {0xFFFA, 0xFFFC, 0xFFFE}" by auto
    have v: "0xFFFA \<le> addr \<and> addr AND 1 = 0" using a(2) vector_addresses by blast
    have m: "push_bit 8 (ucast h) OR ucast l = mk16 h l" for h l :: uint8 by (simp add: mk16_def or.commute)
    show ?thesis unfolding check_nextstop_def Some option.case
      using True v by (simp add: vector_read [OF assms a(2)] m with_dbg_def set_nextstop_def del: insert_iff)
  next
    case False
    then have "\<not> (mode = CHR ''r'' \<and> 0xFFFA \<le> addr \<and> addr AND 1 = 0)" using vector_addresses by blast
    then show ?thesis using False unfolding check_nextstop_def Some option.case
      by (simp only: if_False) (simp add: with_dbg_def continue_exec_def)
  qed
qed (simp add: check_nextstop_def)

lemma hits_iff: "hits mode addr p \<longleftrightarrow> bp_mode p = mode \<and> addr \<in> {bp_start p .. bp_end p}"
  by (simp add: hits_def)

text \<open>
  C33: what the debugger does before an access, as the processor reports it: an opcode first goes to the backtrace
  and the trace file. Then, if the address lies in the range of breakpoints of that mode, both ends
  included, the user interface is called with the first of them. If there is no such breakpoint, a pending
  stop address decides: a read of one of the three vectors moves it to the address stored there, the opcode
  at the stop address clears it and calls the user interface, and with any other access, or without
  a stop address, nothing else happens.
\<close>

theorem breakpoint_reported:
  assumes "\<not> dquit (ds_dbg w)" "mem_ok (ds_mem w)"
    and "(if mode = CHR ''x'' then trace_fetch ns F st w else Some w) = Some w1"
  shows "(\<forall>k < length (breakvec (ds_dbg w)).
      (let p = breakvec (ds_dbg w) ! k in bp_mode p = mode \<and> addr \<in> {bp_start p .. bp_end p}) \<and>
      (\<forall>j < k. let p = breakvec (ds_dbg w) ! j in \<not> (bp_mode p = mode \<and> addr \<in> {bp_start p .. bp_end p})) \<longrightarrow>
      dbg_fetch_callback ns F (Some cb) st addr mode c w =
        Option.bind (cb c \<lparr>ev_type = BREAK, ev_cpu_st = st, ev_index = k\<rparr> w1) (check_nextstop ns cb st addr mode c)) \<and>
    ((\<forall>p \<in> set (breakvec (ds_dbg w)). \<not> (bp_mode p = mode \<and> addr \<in> {bp_start p .. bp_end p})) \<longrightarrow>
      dbg_fetch_callback ns F (Some cb) st addr mode c w =
        (case nextstop (ds_dbg w) of
           None \<Rightarrow> Some w1
         | Some stop \<Rightarrow>
             if mode = CHR ''r'' \<and> addr \<in> {0xFFFA, 0xFFFC, 0xFFFE}
             then Some (w1\<lparr>ds_dbg := (ds_dbg w1)\<lparr>nextstop := Some (mk16 (mem_peek (ds_mem w) (addr + 1)) (mem_peek (ds_mem w) addr))\<rparr>\<rparr>)
             else if mode = CHR ''x'' \<and> addr = stop
             then cb c \<lparr>ev_type = FETCH, ev_cpu_st = st, ev_index = 0\<rparr> (w1\<lparr>ds_dbg := (ds_dbg w1)\<lparr>nextstop := None\<rparr>\<rparr>)
             else Some w1))"
proof -
  have k: "ds_mem w1 = ds_mem w" "breakvec (ds_dbg w1) = breakvec (ds_dbg w)" "nextstop (ds_dbg w1) = nextstop (ds_dbg w)"
    using assms(3) trace_fetch_keeps [of ns F st w w1] by (auto split: if_splits)
  have cb: "dbg_fetch_callback ns F (Some cb) st addr mode c w =
    Option.bind (case find_break mode addr 0 (breakvec (ds_dbg w)) of None \<Rightarrow> Some w1
        | Some i \<Rightarrow> cb c \<lparr>ev_type = BREAK, ev_cpu_st = st, ev_index = i\<rparr> w1)
      (check_nextstop ns cb st addr mode c)"
    unfolding dbg_fetch_callback_def assms(3) using assms(1) k(2) by simp
  note s = check_nextstop_cases [of w1 ns cb st addr mode c, unfolded k, OF assms(2)]
  show ?thesis unfolding cb Let_def hits_iff [symmetric]
    using find_break_Some [of _ "breakvec (ds_dbg w)" mode addr 0] find_break_None [of "breakvec (ds_dbg w)" mode addr 0]
    by (auto simp del: insert_iff simp: s)
qed

section \<open>Stepping\<close>

text \<open>What the prediction of the next address needs of the instruction at the program counter.\<close>

definition steppable :: "memside \<Rightarrow> cpu \<Rightarrow> bool" where
  "steppable m c \<longleftrightarrow>
     (let i = mem_peek m (r_pc c); opr = mk16 (mem_peek m (r_pc c + 2)) (mem_peek m (r_pc c + 1)) in
      plain (r_pc c) \<and> plain (r_pc c + 1) \<and> plain (r_pc c + 2) \<and> i \<noteq> 0x00 \<and> i \<noteq> 0x40 \<and>
      (i = 0x60 \<longrightarrow> unat (r_sp c) \<le> 0xFD) \<and>
      (i = 0x6C \<longrightarrow> plain opr \<and> plain (opr + 1) \<and> plain (opr AND 0xFF00)) \<and>
      \<not> execnmi c \<and> \<not> execirq c)"

lemma steppable_predictable: "steppable m c \<Longrightarrow> mem.predictable c m \<and> \<not> execnmi c \<and> \<not> execirq c"
  by (simp add: steppable_def mem.predictable_def Let_def)

section \<open>The backtrace\<close>

fun trace_calls :: "cpu_status list \<Rightarrow> debugger \<Rightarrow> debugger option" where
  "trace_calls [] d = Some d"
| "trace_calls (st # sts) d = do { d \<leftarrow> update_backtrace st d; trace_calls sts d }"

lemma trace_calls_append: "trace_calls (xs @ ys) d = Option.bind (trace_calls xs d) (trace_calls ys)"
  by (induction xs arbitrary: d) (auto split: Option.bind_splits)

text \<open>Executions in which every call returns and no jump is taken.\<close>

inductive balanced :: "cpu_status list \<Rightarrow> bool" where
  empty: "balanced []"
| plain: "st_id st \<notin> {0x20, 0x4C, 0x6C, 0x60} \<Longrightarrow> balanced sts \<Longrightarrow> balanced (st # sts)"
| call: "st_id jsr = 0x20 \<Longrightarrow> balanced body \<Longrightarrow> st_id rts = 0x60 \<Longrightarrow> balanced sts \<Longrightarrow>
    balanced (jsr # body @ rts # sts)"

inductive_cases balanced_ConsE: "balanced (st # sts)"

text \<open>
  C34: over an execution in which every \<^verbatim>\<open>JSR\<close> returns with its \<^verbatim>\<open>RTS\<close> and no \<^verbatim>\<open>JMP\<close> is executed, the
  backtrace at the end is the one at the start; no access to an empty backtrace happens.
\<close>

theorem backtrace_balanced:
  assumes "balanced sts"
  shows "trace_calls sts d = Some d"
  using assms
proof (induction arbitrary: d rule: balanced.induct)
  case empty
  then show ?case by simp
next
  case (plain st sts)
  then show ?case by (simp add: update_backtrace_def)
next
  case (call jsr body rts sts)
  let ?d = "d\<lparr>btrace := btrace d @ [jsr]\<rparr>"
  have "update_backtrace jsr d = Some ?d" using call.hyps by (simp add: update_backtrace_def)
  moreover have "update_backtrace rts ?d = Some d" using call.hyps by (simp add: update_backtrace_def)
  ultimately show ?case by (simp add: trace_calls_append call.IH)
qed

text \<open>A \<^verbatim>\<open>JMP\<close> inside a subroutine stays on the backtrace and keeps the call below it there for ever; an
  \<^verbatim>\<open>RTS\<close> with an empty backtrace reads the last element of an empty vector.\<close>

lemma jump_never_popped:
  assumes "st_id jsr = 0x20" "st_id jmp = 0x4C" "st_id rts = 0x60"
  shows "trace_calls [jsr, jmp, rts] d = Some (d\<lparr>btrace := btrace d @ [jsr, jmp]\<rparr>)"
  using assms by (simp add: update_backtrace_def)

lemma rts_empty_backtrace: "st_id st = 0x60 \<Longrightarrow> btrace d = [] \<Longrightarrow> update_backtrace st d = None"
  by (simp add: update_backtrace_def)

section \<open>The list of breakpoints\<close>

lemma setbreak_nth:
  "snd (setbreak p d) = d' \<Longrightarrow> fst (setbreak p d) < length (breakvec d') \<and> breakvec d' ! fst (setbreak p d) = p"
  by (auto simp: setbreak_def)

lemma delbreak_setbreak: "delbreak (fst (setbreak p d)) (snd (setbreak p d)) = Some d"
  by (simp add: setbreak_def delbreak_def)

section \<open>Witnesses\<close>

definition demo_dbg :: dbgstate where
  "demo_dbg = \<lparr>ds_dbg = debugger_new, ds_mem = demo_mem\<rparr>"

definition demo_break :: breakpoint where
  "demo_break = \<lparr>bp_start = 0x10, bp_end = 0x20, bp_mode = CHR ''w''\<rparr>"

definition demo_status :: "uint8 \<Rightarrow> cpu_status" where
  "demo_status i = \<lparr>st_regs = regs.truncate demo_cpu, st_id = i, st_op = 0\<rparr>"

theorem breakpoint_reported_witness:
  "\<forall>F. dbg_fetch_callback (\<lambda>_. 0) F (Some (\<lambda>c ev w. Some (with_dbg (set_nextstop (of_nat (ev_index ev))) w)))
     (demo_status 0) 0x20 CHR ''w'' demo_cpu (with_dbg (\<lambda>d. (continue_exec d)\<lparr>breakvec := [demo_break]\<rparr>) demo_dbg) =
   Some (with_dbg (\<lambda>d. d\<lparr>nextstop := Some 0, breakvec := [demo_break]\<rparr>) demo_dbg)"
proof
  fix F
  let ?w = "with_dbg (\<lambda>d. (continue_exec d)\<lparr>breakvec := [demo_break]\<rparr>) demo_dbg"
  have "\<not> dquit (ds_dbg ?w)" "mem_ok (ds_mem ?w)" "(if CHR ''w'' = CHR ''x'' then trace_fetch (\<lambda>_. 0) F (demo_status 0) ?w else Some ?w) = Some ?w"
    using demo_mem_ok by (simp_all add: with_dbg_def continue_exec_def demo_dbg_def debugger_new_def)
  from breakpoint_reported [OF this, of "0x20" _ demo_cpu] show
    "dbg_fetch_callback (\<lambda>_. 0) F (Some (\<lambda>c ev w. Some (with_dbg (set_nextstop (of_nat (ev_index ev))) w)))
       (demo_status 0) 0x20 CHR ''w'' demo_cpu ?w = Some (with_dbg (\<lambda>d. d\<lparr>nextstop := Some 0, breakvec := [demo_break]\<rparr>) demo_dbg)"
    by (simp add: with_dbg_def continue_exec_def demo_break_def check_nextstop_def set_nextstop_def)
qed

lemma demo_steppable: "steppable demo_mem demo_cpu"
  by (simp add: steppable_def demo_peek)

theorem backtrace_balanced_witness: "trace_calls [demo_status 0x20, demo_status 0xEA, demo_status 0x60] debugger_new = Some debugger_new"
proof (rule backtrace_balanced)
  have "balanced (demo_status 0x20 # [demo_status 0xEA] @ demo_status 0x60 # [])"
    by (intro balanced.intros) (simp_all add: demo_status_def)
  then show "balanced [demo_status 0x20, demo_status 0xEA, demo_status 0x60]" by simp
qed

end
