(* ===== verification/StringOps.thy ===== *)
theory StringOps
  imports Prelude
begin

text \<open>
  Splitting and converting strings, \<^verbatim>\<open>emu/util/stringops.hpp\<close> and \<^verbatim>\<open>emu/util/stringops.cpp\<close>. Of the
  standard library: \<^verbatim>\<open>std::string::find\<close> from a position, and \<^verbatim>\<open>std::from_chars\<close> for an unsigned
  type, which reads the longest prefix of digits of the base, fails without any digit or when the
  value does not fit, and ignores what follows.
\<close>

section \<open>Splitting\<close>

definition find_from :: "string \<Rightarrow> char \<Rightarrow> nat \<Rightarrow> nat option" where
  "find_from s delim i =
     (let p = i + length (takeWhile (\<lambda>c. c \<noteq> delim) (drop i s))
      in if p < length s then Some p else None)"

lemma find_from_range: "find_from s delim i = Some p \<Longrightarrow> i \<le> p \<and> p < length s"
  by (auto simp: find_from_def Let_def split: if_splits)

function strsplit_loop :: "string \<Rightarrow> char \<Rightarrow> nat \<Rightarrow> string list \<Rightarrow> string list" where
  "strsplit_loop s delim i res =
     (if i = length s then res
      else case find_from s delim i of
             None \<Rightarrow> res @ [drop i s]
           | Some p \<Rightarrow> strsplit_loop s delim (p + 1) (res @ [take (p - i) (drop i s)]))"
  by pat_completeness auto
termination
  by (relation "measure (\<lambda>(s, delim, i, res). length s - i)") (auto dest: find_from_range)

declare strsplit_loop.simps [simp del]

definition strsplit :: "string \<Rightarrow> char \<Rightarrow> string list" where
  "strsplit s delim = strsplit_loop s delim 0 []"

section \<open>Converting\<close>

definition digit_value :: "char \<Rightarrow> nat" where
  "digit_value c =
     (let n = of_char c in
      if 48 \<le> n \<and> n \<le> 57 then n - 48
      else if 97 \<le> n \<and> n \<le> 122 then n - 87
      else if 65 \<le> n \<and> n \<le> 90 then n - 55
      else 99)"

definition digits_value :: "nat \<Rightarrow> string \<Rightarrow> nat" where
  "digits_value base ds = fold (\<lambda>c v. v * base + digit_value c) ds 0"

text \<open>\<open>w\<close> is the width of the type \<^verbatim>\<open>T\<close>.\<close>

definition strconv :: "nat \<Rightarrow> nat \<Rightarrow> string \<Rightarrow> nat option" where
  "strconv w base str =
     (let ds = takeWhile (\<lambda>c. digit_value c < base) str in
      if ds = [] then None
      else if digits_value base ds < 2 ^ w then Some (digits_value base ds)
      else None)"

section \<open>Joining is undone by splitting\<close>

fun join :: "char \<Rightarrow> string list \<Rightarrow> string" where
  "join d [] = []"
| "join d [f] = f"
| "join d (f # g # fs) = f @ d # join d (g # fs)"

lemma find_from_append:
  assumes "d \<notin> set f"
  shows "find_from (pre @ f @ d # t) d (length pre) = Some (length pre + length f)"
    "find_from (pre @ f) d (length pre) = None"
proof -
  have *: "takeWhile (\<lambda>c. c \<noteq> d) (f @ d # t) = f" "takeWhile (\<lambda>c. c \<noteq> d) f = f"
    using assms by (induction f) auto
  show "find_from (pre @ f @ d # t) d (length pre) = Some (length pre + length f)"
    "find_from (pre @ f) d (length pre) = None" by (simp_all add: find_from_def *)
qed

lemma strsplit_loop_join:
  assumes "\<forall>f \<in> set fs. d \<notin> set f" "fs \<noteq> []" "last fs \<noteq> []"
  shows "strsplit_loop (pre @ join d fs) d (length pre) res = res @ fs"
  using assms
proof (induction fs arbitrary: pre res rule: join.induct)
  case (2 d f)
  then show ?case by (subst strsplit_loop.simps) (simp add: find_from_append)
next
  case (3 d f g fs)
  let ?t = "join d (g # fs)"
  have "strsplit_loop (pre @ f @ d # ?t) d (length pre) res =
      strsplit_loop ((pre @ f @ [d]) @ ?t) d (length (pre @ f @ [d])) (res @ [f])"
    using 3(2) by (subst strsplit_loop.simps) (simp add: find_from_append)
  also have "\<dots> = (res @ [f]) @ g # fs" using 3 by (intro 3(1)) auto
  finally show ?case by simp
qed simp

text \<open>
  \<^verbatim>\<open>strsplit\<close> undoes joining: fields that do not contain the delimiter, the last of them not
  empty, joined by the delimiter are split into the same fields.
\<close>

theorem strsplit_join:
  assumes "\<forall>f \<in> set fs. d \<notin> set f" "fs \<noteq> []" "last fs \<noteq> []"
  shows "strsplit (join d fs) d = fs"
  using strsplit_loop_join [OF assms, of "[]" "[]"] by (simp add: strsplit_def)

theorem strsplit_join_witness:
  "strsplit (join CHR '','' [''a'', '''', ''b'']) CHR '','' = [''a'', '''', ''b'']"
  by (rule strsplit_join) simp_all

text \<open>A trailing delimiter does not give an empty last field.\<close>

lemma strsplit_trailing:
  assumes "d \<notin> set f"
  shows "strsplit (f @ [d]) d = [f]"
  using find_from_append(1) [OF assms, of "[]" "[]"]
  by (simp add: strsplit_def strsplit_loop.simps [of _ _ 0] strsplit_loop.simps [of _ _ "Suc (length f)"])

lemma strsplit_empty [simp]: "strsplit [] d = []"
  by (simp add: strsplit_def strsplit_loop.simps)

lemma strsplit_single:
  assumes "d \<notin> set f" "f \<noteq> []"
  shows "strsplit f d = [f]"
  using strsplit_loop_join [of "[f]" d "[]" "[]"] assms by (simp add: strsplit_def)

end
