(* ===== verification/CliDbg.thy ===== *)
theory CliDbg
  imports Debugger StringOps
begin

text \<open>
  The command line debugger, \<^verbatim>\<open>emu/core/clidbg.hpp\<close> and \<^verbatim>\<open>emu/core/clidbg.cpp\<close>: the table of commands,
  their execution and the loop that reads them. Standard input is the bytes still to come, standard
  output the text written so far. Parameters: the formatting of numbers, and \<open>env\<close>, which says
  whether a trace file can be opened for writing (\<open>None\<close>) or gives the error message.
\<close>

unbundle bit_operations_syntax

section \<open>Commands\<close>

datatype command = CMD_HELP | CMD_CONTINUE | CMD_RUNFRAME | CMD_BREAK | CMD_LIST_BREAK | CMD_DELBREAK
  | CMD_BACKTRACE | CMD_NEXT | CMD_STEP | CMD_STATUS | CMD_READ_ADDR | CMD_WRITE_ADDR | CMD_BLOCK
  | CMD_DISASSEMBLE | CMD_DISBLOCK | CMD_TRACE | CMD_STOP_TRACE | CMD_RESET | CMD_QUIT | CMD_INVALID | CMD_LAST

definition cmd_table :: "(string \<times> string \<times> command \<times> nat) list" where
  "cmd_table =
    [(''help'', ''h'', CMD_HELP, 0),
     (''continue'', ''c'', CMD_CONTINUE, 0),
     (''runframe'', ''nmi'', CMD_RUNFRAME, 0),
     (''break'', ''b'', CMD_BREAK, 2),
     (''listbreaks'', ''lb'', CMD_LIST_BREAK, 0),
     (''deletebreak'', ''dlb'', CMD_DELBREAK, 1),
     (''backtrace'', ''bt'', CMD_BACKTRACE, 0),
     (''next'', ''n'', CMD_NEXT, 0),
     (''step'', ''s'', CMD_STEP, 0),
     (''status'', ''st'', CMD_STATUS, 0),
     (''read'', ''rd'', CMD_READ_ADDR, 1),
     (''write'', ''wr'', CMD_WRITE_ADDR, 2),
     (''block'', ''bl'', CMD_BLOCK, 2),
     (''disassemble'', ''dis'', CMD_DISASSEMBLE, 1),
     (''disblock'', ''disb'', CMD_DISBLOCK, 2),
     (''trace'', ''tr'', CMD_TRACE, 1),
     (''stoptrace'', ''str'', CMD_STOP_TRACE, 0),
     (''reset'', ''res'', CMD_RESET, 0),
     (''quit'', ''q'', CMD_QUIT, 0)]"

definition cmd_strtab :: "(string \<times> command) list" where
  "cmd_strtab = concat (map (\<lambda>(name, abbrev, cmd, minargs). [(name, cmd), (abbrev, cmd)]) cmd_table)"

text \<open>Name and least number of arguments; the entry of an invalid command is empty.\<close>

definition cmd_infotab :: "(command \<times> string \<times> nat) list" where
  "cmd_infotab = map (\<lambda>(name, abbrev, cmd, minargs). (cmd, name, minargs)) cmd_table @ [(CMD_INVALID, [], 0)]"

abbreviation nl :: string where
  "nl \<equiv> [CHR 0x0A]"

definition helpstr :: string where
  "helpstr = nl @ concat (map (\<lambda>l. l @ nl)
    [''help, h:            prints this help text'',
     ''continue, c:        start/continue execution'',
     ''runframe, nmi:      run entire frame, stop at nmi handler'',
     ''break, b:           set a breakpoint'',
     ''listbreaks, lb:     list breakpoints'',
     ''deletebreak, dlb:   delete a breakpoint'',
     ''backtrace, bt:      prints the backtrace'',
     ''next, n:            run next instruction'',
     ''step, s:            step next instruction'',
     ''status, st:         print current status'',
     ''read, rd:           read address'',
     ''write, wr:          write address'',
     ''block, bl:          read block'',
     ''disassemble, dis:   disassemble the current instruction'',
     ''disblock, disb:     disassemble a given block'',
     ''trace, tr:          enable tracing'',
     ''stoptrace, str:     stop tracing'',
     ''reset, res:         reset the machine'',
     ''quit, q:            quit the emulator''])"

record cliworld = dbgstate +
  cl_in :: stream
  cl_out :: string
  cl_cmd :: command
  cl_args :: "string list"

definition put :: "string \<Rightarrow> cliworld \<Rightarrow> cliworld" where
  "put s w = w\<lparr>cl_out := cl_out w @ s\<rparr>"

section \<open>Printing\<close>

text \<open>One row of a block: at most \<open>n\<close> bytes from offset \<open>i\<close>.\<close>

fun print_row :: "formatter \<Rightarrow> (int \<Rightarrow> uint8) \<Rightarrow> nat \<Rightarrow> nat \<Rightarrow> nat \<Rightarrow> nat \<Rightarrow> cliworld \<Rightarrow> (nat \<times> cliworld) option" where
  "print_row F ns start end 0 i w = Some (i, w)"
| "print_row F ns start end (Suc n) i w =
     (if i + start < end then
        do { (val, w) \<leftarrow> dbg_read ns (of_nat (i + start)) w;
             print_row F ns start end n (i + 1) (put (fmt02X F (unat val) @ '' '') w) }
      else Some (i, w))"

lemma print_row_le: "print_row F ns start end n i w = Some (i', w') \<Longrightarrow> i \<le> i' \<and> (0 < n \<and> i + start < end \<longrightarrow> i < i')"
  by (induction F ns start "end" n i w rule: print_row.induct)
     (fastforce split: if_splits elim!: bind_SomeE)+

function print_block_loop :: "formatter \<Rightarrow> (int \<Rightarrow> uint8) \<Rightarrow> nat \<Rightarrow> nat \<Rightarrow> nat \<Rightarrow> cliworld \<Rightarrow> cliworld option" where
  "print_block_loop F ns start end i w =
     (if int i < int end - int start then
        (case print_row F ns start end 16 i (put (fmt04X F (i + start) @ '': '') w) of
           None \<Rightarrow> None
         | Some (i', w) \<Rightarrow> print_block_loop F ns start end i' (put nl w))
      else Some w)"
  by pat_completeness auto
termination
  by (relation "measure (\<lambda>(F, ns, start, end, i, w). end - start - i)") (auto dest!: print_row_le)

declare print_block_loop.simps [simp del]

definition print_block :: "formatter \<Rightarrow> (int \<Rightarrow> uint8) \<Rightarrow> uint16 \<Rightarrow> uint16 \<Rightarrow> cliworld \<Rightarrow> cliworld option" where
  "print_block F ns start end w = print_block_loop F ns (unat start) (unat end) 0 w"

definition print_cpu_status :: "formatter \<Rightarrow> cpu_status \<Rightarrow> cliworld \<Rightarrow> cliworld" where
  "print_cpu_status F st = (let r = st_regs st in
     put (''PC: $'' @ fmt02X F (unat (r_pc r)) @ '' A: $'' @ fmt02X F (unat (r_acc r)) @ '' X: $'' @ fmt02X F (unat (r_x r)) @
       '' Y: $'' @ fmt02X F (unat (r_y r)) @ '' S: $'' @ fmt02X F (unat (r_sp r)) @ nl @
       ''Flags: ['' @ format_flags (r_flags r) @ '']'' @ nl @ ''Cycles: '' @ fmtdec F (uint (r_cycles r)) @ nl))"

definition print_ppu_status :: "formatter \<Rightarrow> ppu_status_data \<Rightarrow> cliworld \<Rightarrow> cliworld" where
  "print_ppu_status F st =
     put (''Line: '' @ fmtdec F (int (st_line st)) @ '' Cycle: '' @ fmtdec F (int (st_cycle st)) @ nl @
       ''VRAM Address: '' @ fmt04X F (unat (v_addr (st_vram st))) @ '' TMP Address: '' @ fmt04X F (unat (v_tmp (st_vram st))) @ nl)"

definition print_curr_instr :: "formatter \<Rightarrow> cpu_status \<Rightarrow> cliworld \<Rightarrow> cliworld" where
  "print_curr_instr F st = (let r = st_regs st in
     put (''$'' @ fmt04X F (unat (r_pc r)) @ '': '' @
       format_instr F (st_id st) (low (st_op st)) (high (st_op st)) (r_pc r) (r_flags r) @ nl))"

section \<open>Executing a command\<close>

definition conv16 :: "string \<Rightarrow> uint16 option" where
  "conv16 s = map_option of_nat (strconv 16 16 s)"

definition conv8 :: "string \<Rightarrow> uint8 option" where
  "conv8 s = map_option of_nat (strconv 8 16 s)"

text \<open>An argument of the command; an index out of range has no result.\<close>

definition arg_at :: "string list \<Rightarrow> nat \<Rightarrow> string option" where
  "arg_at args i = (if i < length args then Some (args ! i) else None)"

primrec outcome_of :: "'a option \<Rightarrow> 'a outcome" where
  "outcome_of None = Fault"
| "outcome_of (Some x) = Done x"

definition exec_runframe :: "(int \<Rightarrow> uint8) \<Rightarrow> cliworld \<Rightarrow> (bool \<times> cliworld) option" where
  "exec_runframe ns w =
     do { (l, w) \<leftarrow> dbg_read ns NMI_VEC w;
          (h, w) \<leftarrow> dbg_read ns (NMI_VEC + 1) w;
          Some (True, with_dbg (set_nextstop (ucast l OR push_bit 8 (ucast h))) w) }"

definition exec_break :: "formatter \<Rightarrow> string list \<Rightarrow> cliworld \<Rightarrow> (bool \<times> cliworld) option" where
  "exec_break F args w =
     do { a0 \<leftarrow> arg_at args 0;
          let mode = (if a0 = [] then CHR 0x00 else hd a0);
          if length a0 \<noteq> 1 \<or> mode \<noteq> CHR ''r'' \<and> mode \<noteq> CHR ''w'' \<and> mode \<noteq> CHR ''x''
          then Some (False, put (''Invalid mode for breakpoint. Try '' @ [CHR 0x27] @ ''help'' @ [CHR 0x27] @ ''.'' @ nl) w)
          else do {
            a1 \<leftarrow> arg_at args 1;
            let start = conv16 a1;
            let last = (if length args > 2 then conv16 (args ! 2) else start);
            case (start, last) of
              (Some s, Some e) \<Rightarrow>
                if e \<le> s then Some (False, put (''Invalid range.'' @ nl) w)
                else let (i, d) = setbreak \<lparr>bp_start = s, bp_end = e, bp_mode = mode\<rparr> (ds_dbg w)
                     in Some (False, put (''Set breakpoint #'' @ fmtdec F (int i) @ '' to '' @ fmt04X F (unat s) @ ''-'' @
                          fmt04X F (unat e) @ ''.'' @ nl) (w\<lparr>ds_dbg := d\<rparr>))
            | _ \<Rightarrow> Some (False, put (''Invalid range.'' @ nl) w) } }"

definition exec_delbreak :: "formatter \<Rightarrow> string list \<Rightarrow> cliworld \<Rightarrow> (bool \<times> cliworld) option" where
  "exec_delbreak F args w =
     do { a0 \<leftarrow> arg_at args 0;
          case conv16 a0 of
            None \<Rightarrow> Some (False, put (''Index not valid.'' @ nl) w)
          | Some index \<Rightarrow>
              if length (breakvec (ds_dbg w)) \<le> unat index then Some (False, put (''Index not valid.'' @ nl) w)
              else do { d \<leftarrow> delbreak (unat index) (ds_dbg w);
                        Some (False, put (''Breakpoint #'' @ fmtdec F (uint index) @ '' deleted.'' @ nl) (w\<lparr>ds_dbg := d\<rparr>)) } }"

definition exec_list_break :: "formatter \<Rightarrow> cliworld \<Rightarrow> cliworld" where
  "exec_list_break F w =
     (if breakvec (ds_dbg w) = [] then put (''No breakpoints set.'' @ nl) w
      else put (concat (map (\<lambda>x. ''#: '' @ fmt04X F (unat (bp_start x)) @ ''-'' @ fmt04X F (unat (bp_end x)) @
             '', mode: '' @ [bp_mode x] @ nl) (breakvec (ds_dbg w)))) w)"

definition exec_backtrace :: "formatter \<Rightarrow> cliworld \<Rightarrow> cliworld" where
  "exec_backtrace F w =
     (if btrace (ds_dbg w) = [] then put (''Backtrace is empty.'' @ nl) w
      else put (concat (map (\<lambda>x. ''$'' @ fmt04X F (unat (r_pc (st_regs x))) @ '': '' @
             disassemble F (st_id x) (low (st_op x)) (high (st_op x)) @ nl) (btrace (ds_dbg w)))) w)"

definition exec_disassemble :: "formatter \<Rightarrow> string list \<Rightarrow> cliworld \<Rightarrow> (bool \<times> cliworld) option" where
  "exec_disassemble F args w =
     do { a0 \<leftarrow> arg_at args 0;
          let oplow = (if length args \<ge> 2 then conv16 (args ! 1) else Some 0);
          let ophigh = (if length args \<ge> 3 then conv16 (args ! 2) else Some 0);
          case (conv8 a0, oplow, ophigh) of
            (Some ident, Some l, Some h) \<Rightarrow> Some (False, put (disassemble F ident (ucast l) (ucast h) @ nl) w)
          | _ \<Rightarrow> Some (False, put (''Invalid value found while parsing command arguments.'' @ nl) w) }"

definition exec_status :: "formatter \<Rightarrow> (int \<Rightarrow> uint8) \<Rightarrow> string list \<Rightarrow> cpu \<Rightarrow> cliworld \<Rightarrow> (bool \<times> cliworld) option" where
  "exec_status F ns args c w =
     (if args \<noteq> [] \<and> args ! 0 = ''ppu''
      then do { st \<leftarrow> dbg_ppu_status ns w; Some (False, print_ppu_status F st w) }
      else do { (st, w) \<leftarrow> dbg_cpu_status ns c w; Some (False, print_cpu_status F st w) })"

definition exec_read :: "formatter \<Rightarrow> (int \<Rightarrow> uint8) \<Rightarrow> string list \<Rightarrow> cliworld \<Rightarrow> (bool \<times> cliworld) option" where
  "exec_read F ns args w =
     do { a0 \<leftarrow> arg_at args 0;
          case conv16 a0 of
            None \<Rightarrow> Some (False, put (''Invalid address: '' @ a0 @ ''.'' @ nl) w)
          | Some addr \<Rightarrow> do { (v, w) \<leftarrow> dbg_read ns addr w; Some (False, put (fmt02X F (unat v) @ nl) w) } }"

definition exec_write :: "(int \<Rightarrow> uint8) \<Rightarrow> string list \<Rightarrow> cliworld \<Rightarrow> (bool \<times> cliworld) option" where
  "exec_write ns args w =
     do { a0 \<leftarrow> arg_at args 0;
          a1 \<leftarrow> arg_at args 1;
          case (conv16 a0, conv8 a1) of
            (Some addr, Some newval) \<Rightarrow>
              do { let w = (if CARTRIDGE_START \<le> addr then put (''Warning: writes to ROM have no effects'' @ nl) w else w);
                   w \<leftarrow> dbg_write ns addr newval w;
                   Some (False, w) }
          | _ \<Rightarrow> Some (False, put (''Invalid value found while parsing command arguments.'' @ nl) w) }"

text \<open>The two commands on a range of addresses share their checks.\<close>

definition with_range ::
  "string list \<Rightarrow> (uint16 \<Rightarrow> uint16 \<Rightarrow> cliworld \<Rightarrow> cliworld outcome) \<Rightarrow> cliworld \<Rightarrow> (bool \<times> cliworld) outcome" where
  "with_range args f w =
     (case (arg_at args 0, arg_at args 1) of
        (Some a0, Some a1) \<Rightarrow>
          (case (conv16 a0, conv16 a1) of
             (Some s, Some e) \<Rightarrow>
               if e \<le> s then Done (False, put (''Invalid range.'' @ nl) w)
               else (case f s e w of Done w \<Rightarrow> Done (False, w) | Fault \<Rightarrow> Fault | OutOfFuel \<Rightarrow> OutOfFuel)
           | _ \<Rightarrow> Done (False, put (''Invalid range.'' @ nl) w))
      | _ \<Rightarrow> Fault)"

definition exec_block :: "formatter \<Rightarrow> (int \<Rightarrow> uint8) \<Rightarrow> string list \<Rightarrow> cliworld \<Rightarrow> (bool \<times> cliworld) outcome" where
  "exec_block F ns args w = with_range args (\<lambda>s e w. outcome_of (print_block F ns s e w)) w"

definition exec_disblock ::
  "formatter \<Rightarrow> (int \<Rightarrow> uint8) \<Rightarrow> nat \<Rightarrow> string list \<Rightarrow> cliworld \<Rightarrow> (bool \<times> cliworld) outcome" where
  "exec_disblock F ns fuel args w =
     with_range args
       (\<lambda>s e w. case disassemble_block F (dbg_read ns) fuel s e [] w of
          Done (lines, w) \<Rightarrow> Done (put (concat (map (\<lambda>(a, t). ''$'' @ fmt04X F (unat a) @ '': '' @ t @ nl) lines)) w)
        | Fault \<Rightarrow> Fault | OutOfFuel \<Rightarrow> OutOfFuel) w"

definition exec_trace :: "(string \<Rightarrow> string option) \<Rightarrow> string list \<Rightarrow> cliworld \<Rightarrow> (bool \<times> cliworld) option" where
  "exec_trace env args w =
     do { a0 \<leftarrow> arg_at args 0;
          Some (False, case env a0 of Some err \<Rightarrow> put (err @ nl) w | None \<Rightarrow> with_dbg start_tracing w) }"

primrec exec_command ::
  "formatter \<Rightarrow> (string \<Rightarrow> string option) \<Rightarrow> (int \<Rightarrow> uint8) \<Rightarrow> nat \<Rightarrow> command \<Rightarrow> string list \<Rightarrow> cpu \<Rightarrow> cliworld \<Rightarrow>
   (bool \<times> cliworld) outcome" where
  "exec_command F env ns fuel CMD_HELP args c w = Done (False, put helpstr w)"
| "exec_command F env ns fuel CMD_CONTINUE args c w = Done (True, with_dbg continue_exec (put (''Continuing.'' @ nl) w))"
| "exec_command F env ns fuel CMD_RUNFRAME args c w = outcome_of (exec_runframe ns w)"
| "exec_command F env ns fuel CMD_BREAK args c w = outcome_of (exec_break F args w)"
| "exec_command F env ns fuel CMD_DELBREAK args c w = outcome_of (exec_delbreak F args w)"
| "exec_command F env ns fuel CMD_LIST_BREAK args c w = Done (False, exec_list_break F w)"
| "exec_command F env ns fuel CMD_BACKTRACE args c w = Done (False, exec_backtrace F w)"
| "exec_command F env ns fuel CMD_DISASSEMBLE args c w = outcome_of (exec_disassemble F args w)"
| "exec_command F env ns fuel CMD_NEXT args c w = outcome_of (do { w \<leftarrow> dbg_next ns c w; Some (True, w) })"
| "exec_command F env ns fuel CMD_STEP args c w = outcome_of (do { w \<leftarrow> dbg_step ns c w; Some (True, w) })"
| "exec_command F env ns fuel CMD_STATUS args c w = outcome_of (exec_status F ns args c w)"
| "exec_command F env ns fuel CMD_READ_ADDR args c w = outcome_of (exec_read F ns args w)"
| "exec_command F env ns fuel CMD_WRITE_ADDR args c w = outcome_of (exec_write ns args w)"
| "exec_command F env ns fuel CMD_BLOCK args c w = exec_block F ns args w"
| "exec_command F env ns fuel CMD_DISBLOCK args c w = exec_disblock F ns fuel args w"
| "exec_command F env ns fuel CMD_TRACE args c w = outcome_of (exec_trace env args w)"
| "exec_command F env ns fuel CMD_STOP_TRACE args c w = Done (False, with_dbg stop_tracing w)"
| "exec_command F env ns fuel CMD_RESET args c w = Done (False, w)"
| "exec_command F env ns fuel CMD_QUIT args c w = Done (True, with_dbg (set_quit True) w)"
| "exec_command F env ns fuel CMD_INVALID args c w =
     Done (False, put (''Invalid command. Try '' @ [CHR 0x27] @ ''help'' @ [CHR 0x27] @ ''.'' @ nl) w)"
| "exec_command F env ns fuel CMD_LAST args c w = Done (False, w)"

section \<open>Reading commands\<close>

definition cli_parse :: "stream \<Rightarrow> (command \<times> string list) \<times> stream" where
  "cli_parse s =
     (case getword s of
        (ok, cmd, s) \<Rightarrow>
          if \<not> ok then ((CMD_QUIT, []), s)
          else case getline 0x0A s of
            (ok, args, s) \<Rightarrow>
              if \<not> ok then ((CMD_QUIT, []), s)
              else if cmd = [] then ((CMD_LAST, []), s)
              else case map_of cmd_strtab (text_of cmd) of
                     None \<Rightarrow> ((CMD_INVALID, []), s)
                   | Some cmd \<Rightarrow> ((cmd, strsplit (text_of args) CHR '' ''), s))"

text \<open>One turn of the loop. A command that is not in the table of commands (only the member of a
  fresh object, which is not initialised, can be one) has no result.\<close>

definition repl_turn ::
  "formatter \<Rightarrow> (string \<Rightarrow> string option) \<Rightarrow> (int \<Rightarrow> uint8) \<Rightarrow> nat \<Rightarrow> cpu \<Rightarrow> cliworld \<Rightarrow> (bool \<times> cliworld) outcome" where
  "repl_turn F env ns fuel c w =
     (let w = put ''> '' w;
          ((input_cmd, input_args), rest) = cli_parse (cl_in w);
          w = w\<lparr>cl_in := rest\<rparr>;
          w = (if input_cmd \<noteq> CMD_LAST then w\<lparr>cl_cmd := input_cmd, cl_args := input_args\<rparr> else w)
      in case map_of cmd_infotab (cl_cmd w) of
           None \<Rightarrow> Fault
         | Some (name, minargs) \<Rightarrow>
             if length (cl_args w) < minargs
             then Done (False, put (''Not enough arguments for command '' @ name @ ''. Try '' @ [CHR 0x27] @ ''help'' @ [CHR 0x27] @ ''.'' @ nl) w)
             else exec_command F env ns fuel (cl_cmd w) (cl_args w) c w)"

text \<open>\<open>None\<close> when \<open>n\<close> turns were not enough; the inner \<open>OutOfFuel\<close> is a disassembly that did not end.\<close>

fun repl_loop ::
  "formatter \<Rightarrow> (string \<Rightarrow> string option) \<Rightarrow> (int \<Rightarrow> uint8) \<Rightarrow> nat \<Rightarrow> nat \<Rightarrow> cpu \<Rightarrow> cliworld \<Rightarrow> cliworld outcome option" where
  "repl_loop F env ns fuel 0 c w = None"
| "repl_loop F env ns fuel (Suc n) c w =
     (case repl_turn F env ns fuel c w of
        Done (exit, w) \<Rightarrow> if exit then Some (Done w) else repl_loop F env ns fuel n c w
      | Fault \<Rightarrow> Some Fault
      | OutOfFuel \<Rightarrow> Some OutOfFuel)"

text \<open>What is printed when the loop starts.\<close>

definition repl_start :: "formatter \<Rightarrow> event \<Rightarrow> cliworld \<Rightarrow> cliworld" where
  "repl_start F ev w =
     print_curr_instr F (ev_cpu_st ev)
       (if ev_type ev = BREAK then put (''Breakpoint #'' @ fmtdec F (int (ev_index ev)) @ '' reached.'' @ nl) w else w)"

definition repl ::
  "formatter \<Rightarrow> (string \<Rightarrow> string option) \<Rightarrow> (int \<Rightarrow> uint8) \<Rightarrow> nat \<Rightarrow> nat \<Rightarrow> cpu \<Rightarrow> event \<Rightarrow> cliworld \<Rightarrow> cliworld outcome option" where
  "repl F env ns fuel n c ev w = repl_loop F env ns fuel n c (repl_start F ev w)"

section \<open>The loop ends\<close>

lemma repl_start_in [simp]: "cl_in (repl_start F ev w) = cl_in w"
  by (simp add: repl_start_def print_curr_instr_def put_def Let_def)

lemma put_simps [simp]:
  "cl_in (put s w) = cl_in w" "ds_dbg (put s w) = ds_dbg w" "ds_mem (put s w) = ds_mem w"
  "cl_cmd (put s w) = cl_cmd w" "cl_args (put s w) = cl_args w" "cl_out (put s w) = cl_out w @ s"
  by (simp_all add: put_def)

lemma with_dbg_simps [simp]:
  "cl_in (with_dbg f w) = cl_in w" "ds_mem (with_dbg f w) = ds_mem w" "ds_dbg (with_dbg f w) = f (ds_dbg w)"
  by (simp_all add: with_dbg_def)

lemma dbg_in:
  "bus_get ns a w = Some (v, w') \<Longrightarrow> cl_in w' = cl_in w" "dbg_read ns a w = Some (v, w') \<Longrightarrow> cl_in w' = cl_in w"
  "dbg_write ns a x w = Some w' \<Longrightarrow> cl_in w' = cl_in w" "dbg_nextaddr ns c w = Some (y, w') \<Longrightarrow> cl_in w' = cl_in w"
  "dbg_cpu_status ns c w = Some (st, w') \<Longrightarrow> cl_in w' = cl_in w" for w w' :: cliworld
  by (auto simp: bus_get_def dbg_read_def dbg_write_def dbg_nextaddr_def dbg_cpu_status_def elim!: bind_SomeE split: if_splits)

lemma dbg_next_in:
  "dbg_step ns c w = Some w' \<Longrightarrow> cl_in w' = cl_in w" "dbg_next ns c w = Some w' \<Longrightarrow> cl_in w' = cl_in w" for w w' :: cliworld
  by (auto simp: dbg_step_def dbg_next_def elim!: bind_SomeE dest!: dbg_in split: if_splits)

lemma print_row_in: "print_row F ns start end n i w = Some (i', w') \<Longrightarrow> cl_in w' = cl_in w"
  by (induction F ns start "end" n i w rule: print_row.induct)
     (fastforce split: if_splits elim!: bind_SomeE dest: dbg_in)+

lemma print_block_in: "print_block_loop F ns start end i w = Some w' \<Longrightarrow> cl_in w' = cl_in w"
proof (induction F ns start "end" i w rule: print_block_loop.induct)
  case (1 F ns start "end" i w)
  then show ?case by (subst (asm) (2) print_block_loop.simps) (auto split: if_splits option.splits dest!: print_row_in)
qed

lemma disassemble_block_in:
  "disassemble_block F (dbg_read ns) fuel s e out w = Done (l, w') \<Longrightarrow> cl_in w' = cl_in w" for w w' :: cliworld
  by (induction F "dbg_read ns :: uint16 \<Rightarrow> cliworld \<Rightarrow> _" fuel s e out w rule: disassemble_block.induct)
     (auto split: if_splits option.splits elim!: bind_SomeE dest!: dbg_in)

lemma exec_command_in: "exec_command F env ns fuel cmd args c w = Done (b, w') \<Longrightarrow> cl_in w' = cl_in w"
proof -
  have o: "outcome_of x = Done y \<longleftrightarrow> x = Some y" for x :: "(bool \<times> cliworld) option" and y by (cases x) simp_all
  have r: "with_range args f w = Done (b, w') \<Longrightarrow> (\<And>s e v v'. f s e v = Done v' \<Longrightarrow> cl_in v' = cl_in v) \<Longrightarrow> cl_in w' = cl_in w" for f
    by (fastforce simp: with_range_def split: option.splits if_splits outcome.splits)
  note defs = exec_runframe_def exec_break_def exec_delbreak_def exec_list_break_def exec_backtrace_def
    exec_disassemble_def exec_status_def exec_read_def exec_write_def exec_trace_def print_cpu_status_def print_ppu_status_def
  show "exec_command F env ns fuel cmd args c w = Done (b, w') \<Longrightarrow> cl_in w' = cl_in w"
  proof (cases cmd)
    case CMD_BLOCK
    moreover have "outcome_of (print_block F ns s e v) = Done v' \<Longrightarrow> cl_in v' = cl_in v" for s e v v'
      by (cases "print_block F ns s e v") (auto simp: print_block_def dest: print_block_in)
    moreover assume "exec_command F env ns fuel cmd args c w = Done (b, w')"
    ultimately show ?thesis by (auto simp: exec_block_def dest: r)
  next
    case CMD_DISBLOCK
    moreover assume "exec_command F env ns fuel cmd args c w = Done (b, w')"
    ultimately have "exec_disblock F ns fuel args w = Done (b, w')" by simp
    then show ?thesis unfolding exec_disblock_def
      by (rule r) (auto split: outcome.splits dest!: disassemble_block_in)
  qed (auto simp: o defs Let_def setbreak_def split: option.splits if_splits elim!: bind_SomeE dest!: dbg_in dbg_next_in)
qed

lemma getword_eq:
  "getword s =
   (let u = dropWhile is_space s; v = dropWhile (\<lambda>c. \<not> is_delim c) u in (v \<noteq> [], takeWhile (\<lambda>c. \<not> is_delim c) u, v))"
proof -
  have "ungetc (case u of [] \<Rightarrow> None | c # _ \<Rightarrow> Some c) (case u of [] \<Rightarrow> [] | _ # r \<Rightarrow> r) = u" for u
    by (cases u) (simp_all add: ungetc_def)
  then show ?thesis by (simp add: getword_def Let_def case_prod_unfold skip_loop_eq take_loop_eq
      split: list.splits del: dropWhile_eq_Nil_conv)
qed

lemma getword_le:
  assumes "getword s = (ok, str, s')"
  shows "length s' \<le> length s"
  using assms by (auto simp: getword_eq Let_def intro: le_trans [OF length_dropWhile_le length_dropWhile_le])

lemma cli_parse_shorter:
  assumes "cli_parse s = ((cmd, args), rest)"
  shows "cmd = CMD_QUIT \<and> args = [] \<or> length rest < length s"
  using assms getword_le [of s] getline_shorter [of "0x0A"]
  by (fastforce simp: cli_parse_def split: prod.splits if_splits option.splits)

text \<open>A command that stands alone on its line.\<close>

lemma cli_parse_word:
  assumes "\<forall>c \<in> set (bytes_of cmd). \<not> is_delim c" "cmd \<noteq> []"
  shows "cli_parse (bytes_of cmd @ 0x0A # rest) =
    (case map_of cmd_strtab cmd of None \<Rightarrow> ((CMD_INVALID, []), rest) | Some k \<Rightarrow> ((k, strsplit [] CHR '' ''), rest))"
proof -
  let ?s = "bytes_of cmd @ 0x0A # rest"
  have ne: "bytes_of cmd \<noteq> []" using assms(2) by (simp add: bytes_of_def)
  then have "\<not> is_space (hd ?s)" using assms(1) by (cases "bytes_of cmd") (auto simp: is_space_def is_delim_def)
  then have "dropWhile is_space ?s = ?s" using ne by (cases ?s) auto
  moreover have "takeWhile (\<lambda>c. \<not> is_delim c) ?s = bytes_of cmd" "dropWhile (\<lambda>c. \<not> is_delim c) ?s = 0x0A # rest"
    using assms(1) by (simp_all add: takeWhile_append dropWhile_append is_delim_def)
  moreover have "text_of [] = []" by (simp add: text_of_def)
  ultimately show ?thesis using ne
    by (simp add: cli_parse_def getword_eq getline_eq Let_def is_space_def
      split: option.splits del: dropWhile_eq_Nil_conv)
qed

lemma infotab_quit: "map_of cmd_infotab CMD_QUIT = Some (''quit'', 0)"
  by (simp add: cmd_infotab_def cmd_table_def)

text \<open>A turn that goes on has consumed a line of input.\<close>

lemma repl_turn_consumes:
  assumes "repl_turn F env ns fuel c w = Done (False, w')"
  shows "length (cl_in w') < length (cl_in w)"
proof -
  obtain cmd args rest where p: "cli_parse (cl_in w) = ((cmd, args), rest)" by (metis surj_pair)
  show ?thesis
  proof (cases "cmd = CMD_QUIT \<and> args = []")
    case True
    then show ?thesis using assms p by (simp add: repl_turn_def infotab_quit)
  next
    case False
    then have "length rest < length (cl_in w)" using cli_parse_shorter [OF p] by blast
    moreover have "cl_in w' = rest" using assms p
      by (auto simp: repl_turn_def Let_def split: option.splits if_splits dest!: exec_command_in)
    ultimately show ?thesis by simp
  qed
qed

text \<open>The command a turn executes: the one just read, or the last one again for an empty line.\<close>

definition next_command :: "cliworld \<Rightarrow> command \<times> string list" where
  "next_command w = (let (input, rest) = cli_parse (cl_in w) in if fst input = CMD_LAST then (cl_cmd w, cl_args w) else input)"

text \<open>A block to disassemble that ends in the last three bytes of memory.\<close>

definition disblock_past_end :: "cliworld \<Rightarrow> bool" where
  "disblock_past_end w =
     (case next_command w of
        (cmd, a0 # a1 # _) \<Rightarrow> cmd = CMD_DISBLOCK \<and> (case (conv16 a0, conv16 a1) of (Some s, Some e) \<Rightarrow> s < e \<and> 0xFFFC < e | _ \<Rightarrow> False)
      | _ \<Rightarrow> False)"

text \<open>The states at the start of the turns of a loop.\<close>

inductive turns ::
  "formatter \<Rightarrow> (string \<Rightarrow> string option) \<Rightarrow> (int \<Rightarrow> uint8) \<Rightarrow> nat \<Rightarrow> cpu \<Rightarrow> cliworld \<Rightarrow> cliworld \<Rightarrow> bool" for F env ns fuel c w where
  start: "turns F env ns fuel c w w"
| turn: "turns F env ns fuel c w w1 \<Longrightarrow> repl_turn F env ns fuel c w1 = Done (False, w2) \<Longrightarrow> turns F env ns fuel c w w2"

lemma outcome_of_ends [simp]: "outcome_of x \<noteq> OutOfFuel"
  by (cases x) simp_all

lemma with_range_ends:
  assumes "with_range args f w = OutOfFuel"
  obtains a0 a1 rest s e where "args = a0 # a1 # rest" "conv16 a0 = Some s" "conv16 a1 = Some e" "s < e" "f s e w = OutOfFuel"
proof -
  have "(\<exists>a0 a1 rest. args = a0 # a1 # rest) \<or> with_range args f w = Fault"
    by (cases args; cases "tl args") (auto simp: with_range_def arg_at_def)
  with assms obtain a0 a1 rest where "args = a0 # a1 # rest" by auto
  with assms that show thesis
    by (auto simp: with_range_def arg_at_def linorder_not_le split: option.splits if_splits outcome.splits)
qed

lemma exec_command_ends:
  assumes "exec_command F env ns fuel cmd args c w = OutOfFuel" "0xFFFE \<le> fuel"
  obtains a0 a1 rest s e where "cmd = CMD_DISBLOCK" "args = a0 # a1 # rest" "conv16 a0 = Some s" "conv16 a1 = Some e" "s < e" "0xFFFC < e"
proof -
  have "exec_block F ns args w \<noteq> OutOfFuel" unfolding exec_block_def by (auto elim!: with_range_ends)
  then have "cmd = CMD_DISBLOCK" and d: "exec_disblock F ns fuel args w = OutOfFuel" using assms(1) by (cases cmd; simp)+
  moreover from d obtain a0 a1 rest s e where a: "args = a0 # a1 # rest" "conv16 a0 = Some s" "conv16 a1 = Some e" "s < e"
    and b: "disassemble_block F (dbg_read ns) fuel s e [] w = OutOfFuel"
    unfolding exec_disblock_def by (elim with_range_ends) (simp split: outcome.splits prod.splits)
  moreover have "0xFFFC < e"
  proof (rule ccontr)
    assume "\<not> 0xFFFC < e"
    then have e: "unat e \<le> 0xFFFC" by (simp add: word_less_nat_alt linorder_not_less)
    with a(4) assms(2) have f: "unat e + 1 - unat s < fuel" by (simp add: word_less_nat_alt)
    show False using disassemble_block_ends [OF e f, of F "dbg_read ns" "[]" w] b by simp
  qed
  ultimately show thesis using that by blast
qed

lemma repl_turn_ends:
  assumes "repl_turn F env ns fuel c w = OutOfFuel" "0xFFFE \<le> fuel"
  shows "disblock_past_end w"
proof -
  obtain cmd args rest where p: "cli_parse (cl_in w) = ((cmd, args), rest)" by (metis surj_pair)
  obtain cmd' args' where n: "next_command w = (cmd', args')" by (metis surj_pair)
  have "\<exists>v. exec_command F env ns fuel cmd' args' c v = OutOfFuel"
    using assms(1) p n by (auto simp: repl_turn_def next_command_def Let_def split: option.splits if_splits)
  then show ?thesis using n assms(2) by (auto simp: disblock_past_end_def elim!: exec_command_ends)
qed

lemma repl_loop_returns:
  assumes "length (cl_in w1) < n" "0xFFFE \<le> fuel" "turns F env ns fuel c w w1"
  shows "(\<exists>w'. repl_loop F env ns fuel n c w1 = Some (Done w')) \<or> repl_loop F env ns fuel n c w1 = Some Fault \<or>
    (\<exists>w2. turns F env ns fuel c w w2 \<and> disblock_past_end w2)"
  using assms
proof (induction n arbitrary: w1)
  case (Suc n)
  show ?case
  proof (cases "repl_turn F env ns fuel c w1")
    case (Done r)
    then obtain exit w2 where r: "repl_turn F env ns fuel c w1 = Done (exit, w2)" by (cases r) simp
    show ?thesis
    proof (cases exit)
      case False
      then show ?thesis using r Suc.IH [of w2] Suc.prems repl_turn_consumes [of F env ns fuel c w1 w2] turns.turn by fastforce
    qed (use r in simp)
  next
    case OutOfFuel
    then show ?thesis using repl_turn_ends Suc.prems(2,3) by blast
  qed simp
qed simp

text \<open>
  C31: the loop of the command line debugger returns for every input, unless it is told to disassemble
  a block that ends in the last three bytes of memory, which may never end (theory \<open>InstrInfo\<close>). As
  many turns as there are bytes left, plus one, are enough, because every turn that does not leave the loop
  consumes a line and the end of the input is taken as \<^verbatim>\<open>quit\<close>; and a disassembly needs no more steps than
  memory has bytes. The loop then leaves with \<^verbatim>\<open>continue\<close>, \<^verbatim>\<open>next\<close>, \<^verbatim>\<open>step\<close>, \<^verbatim>\<open>runframe\<close> or \<^verbatim>\<open>quit\<close>, or a
  command has no defined result.
\<close>

theorem repl_returns:
  assumes "length (cl_in w) < n" "0xFFFE \<le> fuel"
    and "\<forall>w2. turns F env ns fuel c (repl_start F ev w) w2 \<longrightarrow> \<not> disblock_past_end w2"
  shows "(\<exists>w'. repl F env ns fuel n c ev w = Some (Done w')) \<or> repl F env ns fuel n c ev w = Some Fault"
  using repl_loop_returns [of "repl_start F ev w" n fuel F env ns c "repl_start F ev w"] turns.start assms
  by (auto simp: repl_def)

text \<open>
  What the debugger writes to memory it reads back: after \<^verbatim>\<open>write\<close> of a value to an address of the
  RAM, \<^verbatim>\<open>read\<close> of any address with the same place in the 2 KiB of RAM prints that value and leaves
  the machine alone.
\<close>

theorem write_then_read:
  assumes "mem_ok (ds_mem w)" "conv16 a = Some addr" "addr < 0x2000" "conv8 v = Some newval"
    and "conv16 b = Some addr'" "addr' < 0x2000" "addr' AND 0x7FF = addr AND 0x7FF"
  shows "\<exists>w1 w2. exec_command F env ns fuel CMD_WRITE_ADDR [a, v] c w = Done (False, w1) \<and>
    exec_command F env ns fuel CMD_READ_ADDR [b] c w1 = Done (False, w2) \<and>
    cl_out w2 = cl_out w @ fmt02X F (unat newval) @ nl \<and> ds_mem w2 = ds_mem w1 \<and> mem_ok (ds_mem w1)"
proof -
  let ?w1 = "w\<lparr>ds_mem := mem_poke addr newval (ds_mem w)\<rparr>"
  have n: "\<not> CARTRIDGE_START \<le> addr" "\<not> 0x2000 \<le> addr'" using assms(3,6)
    by (simp_all add: CARTRIDGE_START_def word_le_nat_alt word_less_nat_alt)
  have 1: "exec_command F env ns fuel CMD_WRITE_ADDR [a, v] c w = Done (False, ?w1)"
    using assms(1-4) n by (simp add: exec_write_def arg_at_def dbg_write_def mem.write_ram)
  have ok: "mem_ok (ds_mem ?w1)" using mem.poke_inv [OF assms(1,3)] by simp
  have "mem_peek (ds_mem ?w1) addr' = newval" using mem.peek_poke [OF assms(1,3)] assms(6,7) by simp
  then have 2: "exec_command F env ns fuel CMD_READ_ADDR [b] c ?w1 = Done (False, put (fmt02X F (unat newval) @ nl) ?w1)"
    using assms(5,6) n ok by (simp add: exec_read_def arg_at_def dbg_read_def bus_get_def mem.read_plain)
  from 1 2 ok show ?thesis by (intro exI [of _ ?w1] exI [of _ "put (fmt02X F (unat newval) @ nl) ?w1"]) simp
qed

text \<open>
  C35: the command \<^verbatim>\<open>break\<close> with a mode and one address, which the table of commands accepts, never sets a
  breakpoint: the missing end of the range is taken to be its start, and a range whose end is not
  greater than its start is refused. With an end behind the start it adds exactly that breakpoint.
\<close>

theorem break_command:
  assumes "m \<in> {''r'', ''w'', ''x''}" "conv16 a = Some s"
  shows "exec_command F env ns fuel CMD_BREAK [m, a] c w = Done (False, put (''Invalid range.'' @ nl) w) \<and>
    (\<forall>b e. conv16 b = Some e \<and> s < e \<longrightarrow>
       (\<exists>w'. exec_command F env ns fuel CMD_BREAK [m, a, b] c w = Done (False, w') \<and>
          breakvec (ds_dbg w') = breakvec (ds_dbg w) @ [\<lparr>bp_start = s, bp_end = e, bp_mode = hd m\<rparr>]))"
  using assms by (auto simp: exec_break_def arg_at_def Let_def setbreak_def)

section \<open>Witnesses\<close>

definition demo_cli :: "string \<Rightarrow> cliworld" where
  "demo_cli t = \<lparr>ds_dbg = debugger_new, ds_mem = demo_mem, cl_in = bytes_of t, cl_out = [], cl_cmd = CMD_HELP, cl_args = []\<rparr>"

text \<open>With no input the only turn executes \<^verbatim>\<open>quit\<close>.\<close>

theorem repl_returns_witness:
  "\<forall>F. (\<exists>w'. repl F (\<lambda>_. None) (\<lambda>_. 0) 65534 1 demo_cpu \<lparr>ev_type = FETCH, ev_cpu_st = demo_status 0xEA, ev_index = 0\<rparr> (demo_cli []) = Some (Done w')) \<or>
     repl F (\<lambda>_. None) (\<lambda>_. 0) 65534 1 demo_cpu \<lparr>ev_type = FETCH, ev_cpu_st = demo_status 0xEA, ev_index = 0\<rparr> (demo_cli []) = Some Fault"
proof (rule allI, rule repl_returns)
  fix F
  let ?w = "repl_start F \<lparr>ev_type = FETCH, ev_cpu_st = demo_status 0xEA, ev_index = 0\<rparr> (demo_cli [])"
  have "cli_parse [] = ((CMD_QUIT, []), [])"
    by (simp add: cli_parse_def getword_eq)
  then have p: "cli_parse (cl_in (demo_cli [])) = ((CMD_QUIT, []), [])" by (simp add: demo_cli_def)
  have "turns F (\<lambda>_. None) (\<lambda>_. 0) 65534 demo_cpu ?w w2 \<Longrightarrow> w2 = ?w" for w2
    by (induction rule: turns.induct) (simp_all add: repl_turn_def p infotab_quit)
  moreover have "\<not> disblock_past_end ?w" by (simp add: disblock_past_end_def next_command_def p)
  ultimately show "\<forall>w2. turns F (\<lambda>_. None) (\<lambda>_. 0) 65534 demo_cpu ?w w2 \<longrightarrow> \<not> disblock_past_end w2" by metis
qed (simp_all add: demo_cli_def)

lemma conv_demo: "conv16 ''12'' = Some 0x12" "conv8 ''ff'' = Some 0xFF" "conv16 ''812'' = Some 0x812" "conv16 ''20'' = Some 0x20"
  by (simp_all add: conv16_def conv8_def strconv_def digit_value_def digits_value_def)

theorem write_then_read_witness:
  "\<forall>F. \<exists>w1 w2. exec_command F (\<lambda>_. None) (\<lambda>_. 0) 0 CMD_WRITE_ADDR [''12'', ''ff''] demo_cpu (demo_cli []) = Done (False, w1) \<and>
     exec_command F (\<lambda>_. None) (\<lambda>_. 0) 0 CMD_READ_ADDR [''812''] demo_cpu w1 = Done (False, w2) \<and>
     cl_out w2 = fmt02X F 255 @ nl"
proof
  fix F
  have "mem_ok (ds_mem (demo_cli []))" "0x12 < (0x2000 :: uint16)" "0x812 < (0x2000 :: uint16)" "0x812 AND 0x7FF = 0x12 AND (0x7FF :: uint16)"
    using demo_mem_ok by (simp_all add: demo_cli_def)
  from write_then_read [OF this(1) conv_demo(1) this(2) conv_demo(2) conv_demo(3) this(3,4), of F "\<lambda>_. None" "\<lambda>_. 0" 0 demo_cpu]
  show "\<exists>w1 w2. exec_command F (\<lambda>_. None) (\<lambda>_. 0) 0 CMD_WRITE_ADDR [''12'', ''ff''] demo_cpu (demo_cli []) = Done (False, w1) \<and>
     exec_command F (\<lambda>_. None) (\<lambda>_. 0) 0 CMD_READ_ADDR [''812''] demo_cpu w1 = Done (False, w2) \<and>
     cl_out w2 = fmt02X F 255 @ nl"
    by (auto simp: demo_cli_def simp del: exec_command.simps)
qed

theorem break_command_witness:
  "\<forall>F. exec_command F (\<lambda>_. None) (\<lambda>_. 0) 0 CMD_BREAK [''x'', ''12''] demo_cpu (demo_cli []) =
     Done (False, put (''Invalid range.'' @ nl) (demo_cli [])) \<and>
   (\<exists>w'. exec_command F (\<lambda>_. None) (\<lambda>_. 0) 0 CMD_BREAK [''x'', ''12'', ''20''] demo_cpu (demo_cli []) = Done (False, w') \<and>
      breakvec (ds_dbg w') = [\<lparr>bp_start = 0x12, bp_end = 0x20, bp_mode = CHR ''x''\<rparr>])"
proof
  fix F
  have m: "''x'' \<in> {''r'', ''w'', ''x''}" by simp
  have e: "conv16 ''20'' = Some 0x20 \<and> (0x12 :: uint16) < 0x20" by (simp add: conv_demo)
  note b = break_command [OF m conv_demo(1), of F "\<lambda>_. None" "\<lambda>_. 0" 0 demo_cpu "demo_cli []"]
  from b e obtain w' where "exec_command F (\<lambda>_. None) (\<lambda>_. 0) 0 CMD_BREAK [''x'', ''12'', ''20''] demo_cpu (demo_cli []) = Done (False, w')"
    "breakvec (ds_dbg w') = breakvec (ds_dbg (demo_cli [])) @ [\<lparr>bp_start = 0x12, bp_end = 0x20, bp_mode = hd ''x''\<rparr>]" by blast
  with b show "exec_command F (\<lambda>_. None) (\<lambda>_. 0) 0 CMD_BREAK [''x'', ''12''] demo_cpu (demo_cli []) =
       Done (False, put (''Invalid range.'' @ nl) (demo_cli [])) \<and>
     (\<exists>w'. exec_command F (\<lambda>_. None) (\<lambda>_. 0) 0 CMD_BREAK [''x'', ''12'', ''20''] demo_cpu (demo_cli []) = Done (False, w') \<and>
        breakvec (ds_dbg w') = [\<lparr>bp_start = 0x12, bp_end = 0x20, bp_mode = CHR ''x''\<rparr>])"
    by (simp add: demo_cli_def debugger_new_def del: exec_command.simps)
qed

end
