(* ===== verification/CpuSimulation.thy ===== *)
theory CpuSimulation
  imports CpuInvariant
begin

text \<open>
  Two runs of the processor side by side. When two buses give the same answers and accept the same
  writes on related memories, and their callbacks keep the relation, then the processor does the
  same on both. The callback of the debugger is called before every access, with the registers as
  they are at that point and the instruction at the program counter read from the bus; so the
  theory also follows where the program counter can point in the middle of an instruction.
\<close>

unbundle bit_operations_syntax

section \<open>Where the program counter can point\<close>

text \<open>
  Code that starts below \<^verbatim>\<open>0x1E00\<close> or from \<^verbatim>\<open>0x4000\<close> on; in the middle of an instruction the program
  counter has moved by at most three, and its low byte may already be that of a jump.
\<close>

definition code_at :: "uint16 \<Rightarrow> bool" where
  "code_at a \<longleftrightarrow> a < 0x1E00 \<or> 0x4000 \<le> a"

definition safe :: "uint16 \<Rightarrow> bool" where
  "safe a \<longleftrightarrow> a < 0x1F00 \<or> 0x4000 \<le> a"

lemma add_mod_small:
  fixes n k :: nat
  assumes "n < 65536" "k \<le> 3"
  shows "(n + k) mod 65536 = n + k \<or> (n + k) mod 65536 < 3"
proof (cases "n + k < 65536")
  case False
  then have "(n + k) mod 65536 = (n + k - 65536) mod 65536" by (simp add: le_mod_geq)
  also have "\<dots> = n + k - 65536" using assms by simp
  finally show ?thesis using assms by linarith
qed simp

lemma unat_add_small:
  assumes "k \<le> 3"
  shows "unat ((a :: uint16) + of_nat k) = unat a + k \<or> unat (a + of_nat k) < 3"
proof -
  have "unat (a + of_nat k) = (unat a + k) mod 65536"
    by (simp add: unat_word_ariths unsigned_of_nat take_bit_eq_mod mod_simps)
  then show ?thesis using add_mod_small [OF _ assms, of "unat a"] unsigned_less [of a, where ?'a = nat] by simp
qed

lemma unat_set_low_div: "unat (set_low l a) div 256 = unat a div 256"
proof -
  have "drop_bit 8 (set_low l a) = drop_bit 8 a"
    by (rule bit_word_eqI) (simp add: bit_drop_bit_eq bit_set_low)
  then have "unat (drop_bit 8 (set_low l a)) = unat (drop_bit 8 a)" by simp
  then show ?thesis by (simp add: drop_bit_eq_div unat_div_distrib)
qed

lemma safe_alt: "safe a \<longleftrightarrow> unat a div 256 < 0x1F \<or> 0x40 \<le> unat a div 256"
  unfolding safe_def word_less_nat_alt word_le_nat_alt by (simp add: div_less_iff_less_mult less_eq_div_iff_mult_less_eq)

lemma safe_add:
  assumes "code_at a" "k \<le> 3"
  shows "safe (a + of_nat k)"
proof -
  have "unat a < 0x1E00 \<or> 0x4000 \<le> unat a" using assms(1) by (simp add: code_at_def word_less_nat_alt word_le_nat_alt)
  then have "unat (a + of_nat k) < 0x1F00 \<or> 0x4000 \<le> unat (a + of_nat k)"
    using unat_add_small [OF assms(2), of a] assms(2) by linarith
  then show ?thesis by (simp add: safe_def word_less_nat_alt word_le_nat_alt)
qed

lemma safe_set_low: "safe (set_low l a) = safe a"
  by (simp add: safe_alt unat_set_low_div)

lemma safe_steps:
  assumes "code_at a"
  shows "safe a" "safe (a + 1)" "safe (1 + a)" "safe (2 + a)" "safe (3 + a)"
  using safe_add [OF assms, of 0] safe_add [OF assms, of 1] safe_add [OF assms, of 2] safe_add [OF assms, of 3]
  by (simp_all add: add.commute)

section \<open>Agreement of two results\<close>

text \<open>
  A run may have no result. When \<open>both\<close> runs are compared the other run then has none either; otherwise
  only the results of the first run are followed.
\<close>

definition follows :: "bool \<Rightarrow> ('a \<Rightarrow> 'b \<Rightarrow> bool) \<Rightarrow> 'a option \<Rightarrow> 'b option \<Rightarrow> bool" where
  "follows both R x y \<longleftrightarrow> (x = None \<and> \<not> both) \<or> rel_option R x y"

lemma follows_simps [simp]:
  "follows t R (Some a) y \<longleftrightarrow> (\<exists>b. y = Some b \<and> R a b)" "follows t R None y \<longleftrightarrow> \<not> t \<or> y = None"
  "follows True R = rel_option R"
  by (auto simp: follows_def option_rel_Some1 fun_eq_iff)

text \<open>
  Results with a value, the processor and the memory, or without the value: equal but for the
  memories, which are related, and the program counter is as given.
\<close>

definition agree3 ::
  "bool \<Rightarrow> ('m \<Rightarrow> 'n \<Rightarrow> bool) \<Rightarrow> uint16 \<Rightarrow> ('v \<times> cpu \<times> 'm) option \<Rightarrow> ('v \<times> cpu \<times> 'n) option \<Rightarrow> bool" where
  "agree3 t R a = follows t (\<lambda>(v, c, m) (v', c', w). v' = v \<and> c' = c \<and> r_pc c = a \<and> R m w)"

definition agree2 ::
  "bool \<Rightarrow> ('m \<Rightarrow> 'n \<Rightarrow> bool) \<Rightarrow> uint16 \<Rightarrow> (cpu \<times> 'm) option \<Rightarrow> (cpu \<times> 'n) option \<Rightarrow> bool" where
  "agree2 t R a = follows t (\<lambda>(c, m) (c', w). c' = c \<and> r_pc c = a \<and> R m w)"

definition agree :: "bool \<Rightarrow> ('m \<Rightarrow> 'n \<Rightarrow> bool) \<Rightarrow> (cpu \<times> 'm) option \<Rightarrow> (cpu \<times> 'n) option \<Rightarrow> bool" where
  "agree t R = follows t (\<lambda>(c, m) (c', w). c' = c \<and> R m w)"

lemma agree_None [simp]: "agree t R None None" "agree False R None y"
  by (simp_all add: agree_def)

lemma agree_Some: "R m w \<Longrightarrow> agree t R (Some (c, m)) (Some (c, w))"
  by (simp add: agree_def)

lemma agree_bind3:
  assumes "agree3 t R a x y"
    and "\<And>v c m w. r_pc c = a \<Longrightarrow> R m w \<Longrightarrow> agree t R (f v c m) (g v c w)"
  shows "agree t R (Option.bind x (\<lambda>(v, c, m). f v c m)) (Option.bind y (\<lambda>(v, c, m). g v c m))"
  using assms by (cases x; cases y) (auto simp: agree3_def)

lemma agree_bind2:
  assumes "agree2 t R a x y"
    and "\<And>c m w. r_pc c = a \<Longrightarrow> R m w \<Longrightarrow> agree t R (f c m) (g c w)"
  shows "agree t R (Option.bind x (\<lambda>(c, m). f c m)) (Option.bind y (\<lambda>(c, m). g c m))"
  using assms by (cases x; cases y) (auto simp: agree2_def)

lemma agree_prod: "agree t R (f (fst p) (snd p)) (g (fst p) (snd p)) \<Longrightarrow> agree t R (case_prod f p) (case_prod g p)"
  by (simp add: case_prod_unfold)

lemma agree_if: "(b \<Longrightarrow> agree t R x y) \<Longrightarrow> (\<not> b \<Longrightarrow> agree t R x' y') \<Longrightarrow> agree t R (if b then x else x') (if b then y else y')"
  by simp

lemma agree3_if:
  "(b \<Longrightarrow> agree3 t R a x y) \<Longrightarrow> (\<not> b \<Longrightarrow> agree3 t R a x' y') \<Longrightarrow> agree3 t R a (if b then x else x') (if b then y else y')"
  by simp

lemmas walk_agree = agree_bind3 agree_bind2 agree_prod agree_if agree3_if agree_Some

section \<open>The simulation\<close>

text \<open>
  \<open>calm m c\<close>: what the callback relies on when an opcode is fetched.
\<close>

locale cpu_simulation =
  fixes P :: "'m cpu_ports" and Q :: "'n cpu_ports" and R :: "'m \<Rightarrow> 'n \<Rightarrow> bool" and calm :: "'m \<Rightarrow> cpu \<Rightarrow> bool"
    and both :: bool
  assumes read_sim: "R m w \<Longrightarrow> follows both (\<lambda>(v, m) (v', w). v' = v \<and> R m w) (port_read P a m) (port_read Q a w)"
    and write_sim: "R m w \<Longrightarrow> follows both R (port_write P a v m) (port_write Q a v w)"
    and notify_sim: "R m w \<Longrightarrow> safe (r_pc c) \<Longrightarrow> k = CHR ''r'' \<or> k = CHR ''w'' \<Longrightarrow>
      follows both R (notify P a k c m) (notify Q a k c w)"
    and notify_fetch_sim: "R m w \<Longrightarrow> safe (r_pc c) \<Longrightarrow> calm m c \<Longrightarrow>
      follows both R (notify P (r_pc c) (CHR ''x'') c m) (notify Q (r_pc c) (CHR ''x'') c w)"
begin

lemma bind_read_sim:
  assumes "R m w"
  shows "agree3 both R (r_pc c) (Option.bind (port_read P a m) (\<lambda>(v, m). Some (v, c, m)))
    (Option.bind (port_read Q a w) (\<lambda>(v, m). Some (v, c, m)))"
  using read_sim [OF assms, of a] by (cases "port_read P a m"; cases "port_read Q a w") (auto simp: agree3_def)

lemma bind_notify_sim:
  assumes "follows both R x y" "\<And>m w. R m w \<Longrightarrow> agree3 both R a (f m) (g w)"
  shows "agree3 both R a (Option.bind x f) (Option.bind y g)"
  using assms by (cases x; cases y) (auto simp: agree3_def)

lemma fetch_sim:
  assumes "R m w" "safe (r_pc c)" "calm m c"
  shows "agree3 both R (r_pc c + 1) (fetch P c m) (fetch Q c w)"
proof -
  have "agree3 both R (r_pc ((cycle c)\<lparr>r_pc := r_pc c + 1\<rparr>)) (fetch P c m) (fetch Q c w)"
    unfolding fetch_def Let_def cycle_fields
    by (intro bind_notify_sim notify_fetch_sim assms bind_read_sim)
  then show ?thesis by simp
qed

lemma fetchop_sim:
  assumes "R m w"
  shows "agree3 both R (r_pc c + 1) (fetchop P c m) (fetchop Q c w)"
  using bind_read_sim [OF assms, of "(cycle c)\<lparr>r_pc := r_pc c + 1\<rparr>" "r_pc c"] by (simp add: fetchop_def Let_def)

lemma readmem_sim:
  assumes "R m w" "safe (r_pc c)"
  shows "agree3 both R (r_pc c) (readmem P a c m) (readmem Q a c w)"
proof -
  have "agree3 both R (r_pc (cycle c)) (readmem P a c m) (readmem Q a c w)"
    unfolding readmem_def Let_def by (intro bind_notify_sim notify_sim assms bind_read_sim) simp
  then show ?thesis by simp
qed

lemma writemem_sim:
  assumes "R m w" "safe (r_pc c)"
  shows "agree2 both R (r_pc c) (writemem P a v c m) (writemem Q a v c w)"
proof -
  have n: "follows both R (notify P a (CHR ''w'') c m) (notify Q a (CHR ''w'') c w)" by (intro notify_sim assms) simp
  have "follows both R (Option.bind (notify P a (CHR ''w'') c m) (port_write P a v))
    (Option.bind (notify Q a (CHR ''w'') c w) (port_write Q a v))"
    using n write_sim by (cases "notify P a (CHR ''w'') c m"; cases "notify Q a (CHR ''w'') c w") auto
  then show ?thesis
    unfolding writemem_def Let_def agree2_def
    by (cases "Option.bind (notify P a (CHR ''w'') c m) (port_write P a v)";
        cases "Option.bind (notify Q a (CHR ''w'') c w) (port_write Q a v)")
       (auto simp: bind_eq_Some_conv bind_eq_None_conv split: Option.bind_splits)
qed

lemma push_sim:
  assumes "R m w" "safe (r_pc c)"
  shows "agree2 both R (r_pc c) (push P v c m) (push Q v c w)"
  using writemem_sim [OF assms, of "ucast (r_sp c) + STACK_BASE" v] unfolding push_def agree2_def
  by (auto simp: rel_option_iff split: option.splits Option.bind_splits)

lemma pull_sim:
  assumes "R m w" "safe (r_pc c)"
  shows "agree3 both R (r_pc c) (pull P c m) (pull Q c w)"
proof -
  have "safe (r_pc (c\<lparr>r_sp := r_sp c + 1\<rparr>))" using assms(2) by simp
  from readmem_sim [OF assms(1) this] show ?thesis unfolding pull_def Let_def by simp
qed

lemma fetch_half_sim:
  assumes "R m w"
  shows "agree2 both R (r_pc c + 1) (fetch_low P c m) (fetch_low Q c w)"
    "agree2 both R (r_pc c + 1) (fetch_high P c m) (fetch_high Q c w)"
  using fetchop_sim [OF assms, of c] unfolding fetch_low_def fetch_high_def agree2_def agree3_def
  by (auto simp: rel_option_iff split: option.splits Option.bind_splits)

lemmas sims = walk_agree fetch_half_sim push_sim pull_sim readmem_sim writemem_sim

text \<open>In the middle of an instruction at \<open>a\<close>: the opcode has been fetched.\<close>

lemma read_mode_sim:
  assumes "R m w" "code_at a" "r_pc c = a + 1"
  shows "agree both R (addrmode_read P md f c m) (addrmode_read Q md f c w)"
  by (insert assms(1,3), cases md; simp only: addrmode_read.simps agree_None addrmode_read_defs Let_def;
      (rule sims | assumption | (simp add: safe_steps [OF assms(2)]; fail))+)

lemma modify_mode_sim:
  assumes "R m w" "code_at a" "r_pc c = a + 1"
  shows "agree both R (addrmode_modify P md (instr_modify i) c m) (addrmode_modify Q md (instr_modify i) c w)"
proof -
  have f: "r_pc (snd (instr_modify i v d)) = r_pc d" for v d
    using instr_modify_frame [of i v d] by (cases "instr_modify i v d") simp
  show ?thesis
    by (insert assms(1,3), cases md; simp only: addrmode_modify.simps agree_None addrmode_modify_defs Let_def;
        (rule sims | assumption | (simp add: safe_steps [OF assms(2)] f; fail))+)
qed

lemma write_mode_sim:
  assumes "R m w" "code_at a" "r_pc c = a + 1"
  shows "agree both R (addrmode_write P md v c m) (addrmode_write Q md v c w)"
  by (insert assms(1,3), cases md; simp only: addrmode_write.simps agree_None addrmode_write_defs Let_def;
      (rule sims | assumption | (simp add: safe_steps [OF assms(2)]; fail))+)

lemma interrupt_sim:
  assumes "R m w" "safe (r_pc c)"
  shows "agree both R (interrupt P c m) (interrupt Q c w)"
  using assms unfolding interrupt_def Let_def
  by - ((rule sims | assumption | (simp add: safe_set_low; fail))+)

lemma impld_sim:
  assumes "R m w" "code_at a" "r_pc c = a + 1"
  shows "agree both R (instr_impld P i c m) (instr_impld Q i c w)"
  by (insert assms(1,3), cases i; simp only: instr_impld.simps instr_stack_defs instr_brk_def Let_def;
      (rule sims interrupt_sim | assumption | (simp add: safe_steps [OF assms(2)] safe_set_low set_break_def; fail))+)

lemma branch_sim:
  assumes "R m w"
  shows "agree both R (instr_branch P b c m) (instr_branch Q b c w)"
  using assms unfolding instr_branch_def Let_def
  by - ((rule sims | assumption | (simp; fail))+)

lemma entry_sim:
  assumes "R m w" "code_at a" "r_pc c = a + 1"
  shows "agree both R (exec_entry P e c m) (exec_entry Q e c w)"
  using assms
  by (cases e) (auto intro: impld_sim read_mode_sim modify_mode_sim write_mode_sim branch_sim agree_Some)

lemma execute_sim:
  assumes "R m w" "code_at a" "r_pc c = a + 1"
  shows "agree both R (execute P i c m) (execute Q i c w)"
  using entry_sim [OF assms] assms(1) by (auto simp: execute_def agree_Some split: option.splits)

theorem cpu_run_sim:
  assumes "R m w" "code_at (r_pc c)" "calm m c"
  shows "agree both R (cpu_run P c m) (cpu_run Q c w)"
proof -
  have i: "agree both R (Option.bind (interrupt P (cycle c) m) (\<lambda>(c, m). Some (f c, m)))
      (Option.bind (interrupt Q (cycle c) w) (\<lambda>(c, m). Some (f c, m)))" for f
    using interrupt_sim [OF assms(1), of "cycle c"] safe_steps(1) [OF assms(2)]
    by (auto simp: agree_def rel_option_iff split: option.splits Option.bind_splits)
  have e: "agree both R (execute P instr d n) (execute Q instr d v)" if "R n v" "r_pc d = r_pc c + 1" for instr d n v
    by (rule execute_sim [OF that(1) assms(2) that(2)])
  show ?thesis
    unfolding cpu_run_def
    by (rule agree_if i agree_bind3 fetch_sim assms safe_steps e | assumption)+
qed

lemma write_zeros_sim: "R m w \<Longrightarrow> follows both R (write_zeros P n i m) (write_zeros Q n i w)"
proof (induction n arbitrary: i m w)
  case (Suc n)
  from write_sim [OF Suc.prems, of i 0] show ?case
    by (cases "port_write P i 0 m"; cases "port_write Q i 0 w") (auto intro: Suc.IH)
qed simp

end

end
