(* ===== verification/DebugMachine.thy ===== *)
theory DebugMachine
  imports CliDbg CpuSimulation
begin

text \<open>
  The machine with the debugger attached, as \<^verbatim>\<open>enable_debugger\<close> of \<^verbatim>\<open>emu/core/emulator.hpp\<close> leaves it and
  \<^verbatim>\<open>Emulator::run\<close> and \<^verbatim>\<open>run_frame\<close> run it, and its comparison with the plain machine: a debugger that has
  nothing to stop for does not change what the program does.
\<close>

section \<open>The machine with the debugger attached\<close>

text \<open>
  \<^verbatim>\<open>Emulator::run\<close>, \<^verbatim>\<open>run_frame\<close> and \<^verbatim>\<open>power\<close> as in theory \<open>Emulator\<close>, over the state the debugger and its
  command line work on. A command loop without a result has none here either: no result stands for undefined
  behaviour in a command and for a disassembly that does not end (theory \<open>CliDbg\<close> tells them apart).
\<close>

record dbgmachine =
  dm_cpu :: cpu
  dm_world :: cliworld
  dm_cycle :: int
  dm_nmi :: bool

definition repl_callback ::
  "formatter \<Rightarrow> (string \<Rightarrow> string option) \<Rightarrow> (int \<Rightarrow> uint8) \<Rightarrow> nat \<Rightarrow> cpu \<Rightarrow> event \<Rightarrow> cliworld \<Rightarrow> cliworld option" where
  "repl_callback F env ns fuel c ev w =
     (case repl F env ns fuel (length (cl_in w) + 1) c ev w of Some (Done w) \<Rightarrow> Some w | _ \<Rightarrow> None)"

abbreviation cli_ports ::
  "formatter \<Rightarrow> (string \<Rightarrow> string option) \<Rightarrow> (int \<Rightarrow> uint8) \<Rightarrow> nat \<Rightarrow> cliworld cpu_ports" where
  "cli_ports F env ns fuel \<equiv> debug_ports ns F (repl_callback F env ns fuel)"

definition dbg_emu_power ::
  "formatter \<Rightarrow> (string \<Rightarrow> string option) \<Rightarrow> (int \<Rightarrow> uint8) \<Rightarrow> nat \<Rightarrow> dbgmachine \<Rightarrow> dbgmachine option" where
  "dbg_emu_power F env ns fuel d =
     do { (c, w) \<leftarrow> cpu_power (cli_ports F env ns fuel) (dm_cpu d) (dm_world d);
          let m = ds_mem w;
          Some (d\<lparr>dm_cpu := c, dm_world := w\<lparr>ds_mem := m\<lparr>ms_ppu := ppu_power (ms_ppu m)\<rparr>\<rparr>\<rparr>) }"

definition dbg_emu_run ::
  "formatter \<Rightarrow> (string \<Rightarrow> string option) \<Rightarrow> (int \<Rightarrow> uint8) \<Rightarrow> nat \<Rightarrow> dbgmachine \<Rightarrow> dbgmachine option" where
  "dbg_emu_run F env ns fuel d =
     do { (c, w) \<leftarrow> cpu_run (cli_ports F env ns fuel) (dm_cpu d) (dm_world d);
          let m = ds_mem w;
          let curr_cycle = to_int (r_cycles c);
          let cycle_diff = curr_cycle - dm_cycle d;
          if int_fits cycle_diff \<and> int_fits (cycle_diff * 3) then
            do { (p, c, nmi) \<leftarrow> ppu_runs (emu_ppu_ports ns m) (nat (cycle_diff * 3)) (ms_ppu m) (c, dm_nmi d);
                 Some (d\<lparr>dm_cpu := c, dm_world := w\<lparr>ds_mem := m\<lparr>ms_ppu := p\<rparr>\<rparr>, dm_nmi := nmi, dm_cycle := curr_cycle\<rparr>) }
          else None }"

fun dbg_until_nmi ::
  "formatter \<Rightarrow> (string \<Rightarrow> string option) \<Rightarrow> (int \<Rightarrow> uint8) \<Rightarrow> nat \<Rightarrow> nat \<Rightarrow> dbgmachine \<Rightarrow> dbgmachine outcome" where
  "dbg_until_nmi F env ns fuel 0 d = OutOfFuel"
| "dbg_until_nmi F env ns fuel (Suc n) d =
     (if dm_nmi d then Done d
      else case dbg_emu_run F env ns fuel d of None \<Rightarrow> Fault | Some d \<Rightarrow> dbg_until_nmi F env ns fuel n d)"

definition dbg_run_frame ::
  "formatter \<Rightarrow> (string \<Rightarrow> string option) \<Rightarrow> (int \<Rightarrow> uint8) \<Rightarrow> nat \<Rightarrow> nat \<Rightarrow> dbgmachine \<Rightarrow> dbgmachine outcome" where
  "dbg_run_frame F env ns fuel n d =
     (if dquit (ds_dbg (dm_world d)) then Done d
      else case dbg_until_nmi F env ns fuel n d of
             Done d \<Rightarrow> Done (d\<lparr>dm_nmi := False\<rparr>) | Fault \<Rightarrow> Fault | OutOfFuel \<Rightarrow> OutOfFuel)"

section \<open>A debugger with nothing to stop for\<close>

definition idle :: "debugger \<Rightarrow> bool" where
  "idle d \<longleftrightarrow> dquit d \<or> breakvec d = [] \<and> nextstop d = None"

definition watches :: "bool \<Rightarrow> memside \<Rightarrow> 'z dbgstate_scheme \<Rightarrow> bool" where
  "watches q m w \<longleftrightarrow> ds_mem w = m \<and> mem_ok m \<and> idle (ds_dbg w) \<and> dquit (ds_dbg w) = q"

text \<open>An \<^verbatim>\<open>RTS\<close> is left out: with an empty backtrace the debugger reads behind it.\<close>

definition no_rts :: "memside \<Rightarrow> cpu \<Rightarrow> bool" where
  "no_rts m c \<longleftrightarrow> mem_peek m (r_pc c) \<noteq> 0x60"

lemma mem_step_ok: "mem_step m m' \<Longrightarrow> mem_ok m \<Longrightarrow> mem_ok m'"
  by (simp add: mem_step_def mem_ok_def ram_wired_def)

lemma safe_plain:
  assumes "safe a"
  shows "plain a" "plain (a + 1)" "plain (a + 2)"
proof -
  have "unat a < 0x1F00 \<or> 0x4000 \<le> unat a" using assms by (simp add: safe_def word_less_nat_alt word_le_nat_alt)
  then show "plain a" "plain (a + 1)" "plain (a + 2)"
    using unat_add_small [of 1 a] unat_add_small [of 2 a] by (auto simp: word_less_nat_alt word_le_nat_alt)
qed

lemma status_safe:
  assumes "mem_ok (ds_mem w)" "safe (r_pc c)"
  shows "\<exists>st. status (debug_ports ns F cb) c w = Some (st, w) \<and> st_id st = mem_peek (ds_mem w) (r_pc c)"
  using mem.read_plain [OF assms(1) safe_plain(1) [OF assms(2)]] mem.read_plain [OF assms(1) safe_plain(2) [OF assms(2)]]
    mem.read_plain [OF assms(1) safe_plain(3) [OF assms(2)]]
  by (simp add: status_def debug_ports_def bus_get_def)

lemma callback_idle:
  assumes "idle (ds_dbg w)" "k = CHR ''x'' \<longrightarrow> st_id st \<noteq> 0x60"
  shows "\<exists>w'. dbg_fetch_callback ns F (Some cb) st a k c w = Some w' \<and> ds_mem w' = ds_mem w \<and>
    idle (ds_dbg w') \<and> dquit (ds_dbg w') = dquit (ds_dbg w)"
proof (cases "dquit (ds_dbg w)")
  case False
  then have i: "breakvec (ds_dbg w) = []" "nextstop (ds_dbg w) = None" using assms(1) by (simp_all add: idle_def)
  show ?thesis
  proof (cases "k = CHR ''x''")
    case True
    with assms(2) trace_fetch_returns obtain w' where "trace_fetch ns F st w = Some w'" by blast
    moreover from trace_fetch_keeps [OF this] have "ds_mem w' = ds_mem w"
      "breakvec (ds_dbg w') = []" "nextstop (ds_dbg w') = None" "dquit (ds_dbg w') = dquit (ds_dbg w)" by (simp_all add: i)
    ultimately show ?thesis using False True by (simp add: dbg_fetch_callback_def check_nextstop_def idle_def)
  qed (use i False in \<open>simp add: dbg_fetch_callback_def check_nextstop_def idle_def\<close>)
qed (simp add: dbg_fetch_callback_def assms(1))

lemma notify_idle:
  assumes "watches q m w" "safe (r_pc c)" "k = CHR ''x'' \<longrightarrow> no_rts m c"
  shows "\<exists>w'. notify (debug_ports ns F cb) a k c w = Some w' \<and> watches q m w'"
proof -
  have w: "ds_mem w = m" "mem_ok m" "idle (ds_dbg w)" "dquit (ds_dbg w) = q" using assms(1) by (simp_all add: watches_def)
  obtain st where st: "status (debug_ports ns F cb) c w = Some (st, w)" "st_id st = mem_peek m (r_pc c)"
    using status_safe [of w c ns F cb] w(1,2) assms(2) by auto
  then obtain w' where "dbg_fetch_callback ns F (Some cb) st a k c w = Some w'" "ds_mem w' = m"
    "idle (ds_dbg w')" "dquit (ds_dbg w') = q"
    using callback_idle [OF w(3), of k st ns F cb a c] assms(3) w by (auto simp: no_rts_def)
  then show ?thesis using st w by (auto simp: notify_def debug_ports_def watches_def)
qed

lemma access_watched:
  assumes "watches q m w"
  shows "rel_option (\<lambda>(v, m) (v', w). v' = v \<and> watches q m w) (port_read (emu_ports ns None) a m) (port_read (debug_ports ns F cb) a w)"
    "rel_option (watches q) (port_write (emu_ports ns None) a v m) (port_write (debug_ports ns F cb) a v w)"
proof -
  have w: "ds_mem w = m" "mem_ok m" using assms by (simp_all add: watches_def)
  have r: "port_read (emu_ports ns None) a m = Some (v, m') \<Longrightarrow> mem_ok m'" for v m'
    using port_read_step mem_step_ok w(2) by blast
  have u: "port_write (emu_ports ns None) a v m = Some m' \<Longrightarrow> mem_ok m'" for m'
    using port_write_step mem_step_ok w(2) by blast
  show "rel_option (\<lambda>(v, m) (v', w). v' = v \<and> watches q m w) (port_read (emu_ports ns None) a m) (port_read (debug_ports ns F cb) a w)"
    using assms r by (cases "port_read (emu_ports ns None) a m") (auto simp: debug_ports_def bus_get_def watches_def)
  show "rel_option (watches q) (port_write (emu_ports ns None) a v m) (port_write (debug_ports ns F cb) a v w)"
    using assms u by (cases "port_write (emu_ports ns None) a v m") (auto simp: debug_ports_def dbg_write_def watches_def)
qed

lemma notify_plain: "notify (emu_ports ns None) a k c m = Some m"
  by (simp add: notify_def emu_ports_def)

lemma notify_watched:
  assumes "watches q m w" "safe (r_pc c)" "k = CHR ''x'' \<longrightarrow> no_rts m c"
  shows "rel_option (watches q) (notify (emu_ports ns None) a k c m) (notify (debug_ports ns F cb) a k c w)"
  using notify_idle [OF assms, of ns F cb a] by (auto simp: notify_plain)

interpretation watched: cpu_simulation "emu_ports ns None" "debug_ports ns F cb" "watches q" no_rts True for ns F cb q
  by (unfold_locales; unfold follows_simps) (erule access_watched, erule access_watched, (erule notify_watched; auto)+)

section \<open>One instruction with a stop address pending\<close>











section \<open>Stepping\<close>








lemma mem_ok_ppu [simp]: "mem_ok (m\<lparr>ms_ppu := p\<rparr>) = mem_ok m"
  by (simp add: mem_ok_def ram_wired_def)


section \<open>The two machines run alike\<close>

definition attached :: "emulator \<Rightarrow> dbgmachine \<Rightarrow> bool" where
  "attached e d \<longleftrightarrow> dm_cpu d = e_cpu e \<and> dm_cycle d = e_cycle e \<and> dm_nmi d = e_nmi e \<and>
     watches (e_quit e) (e_mem e) (dm_world d)"

lemma attached_run:
  assumes "attached e d" "code_at (r_pc (e_cpu e))" "no_rts (e_mem e) (e_cpu e)"
  shows "rel_option attached (emu_run ns None e) (dbg_emu_run F env ns fuel d)"
proof -
  have a: "dm_cpu d = e_cpu e" "dm_cycle d = e_cycle e" "dm_nmi d = e_nmi e" "watches (e_quit e) (e_mem e) (dm_world d)"
    using assms(1) by (simp_all add: attached_def)
  have sim: "agree True (watches (e_quit e)) (cpu_run (emu_ports ns None) (e_cpu e) (e_mem e))
    (cpu_run (cli_ports F env ns fuel) (e_cpu e) (dm_world d))"
    by (rule watched.cpu_run_sim [OF a(4) assms(2,3)])
  show ?thesis
  proof (cases "cpu_run (emu_ports ns None) (e_cpu e) (e_mem e)")
    case None
    then show ?thesis using sim by (simp add: agree_def emu_run_def dbg_emu_run_def a)
  next
    case (Some cm)
    then obtain c m where p: "cpu_run (emu_ports ns None) (e_cpu e) (e_mem e) = Some (c, m)" by (cases cm) auto
    with sim obtain w where q: "cpu_run (cli_ports F env ns fuel) (e_cpu e) (dm_world d) = Some (c, w)" "watches (e_quit e) m w"
      by (auto simp: agree_def option_rel_Some1)
    have m: "ds_mem w = m" "mem_ok (m\<lparr>ms_ppu := x\<rparr>) = mem_ok m" for x using q(2) by (simp_all add: watches_def mem_ok_def ram_wired_def)
    show ?thesis using q(2)
      by (cases "ppu_runs (emu_ppu_ports ns m) (nat ((to_int (r_cycles c) - e_cycle e) * 3)) (ms_ppu m) (c, e_nmi e)")
         (auto simp: emu_run_def dbg_emu_run_def Let_def a p q(1) m attached_def watches_def
           simp del: left_diff_distrib_numeral)
  qed
qed

lemma attached_until_nmi:
  assumes "attached e d"
    and "\<forall>e1. in_frame ns e e1 \<and> \<not> e_nmi e1 \<longrightarrow> code_at (r_pc (e_cpu e1)) \<and> no_rts (e_mem e1) (e_cpu e1)"
  shows "rel_outcome attached (run_until_nmi ns None n e) (dbg_until_nmi F env ns fuel n d)"
  using assms
proof (induction n arbitrary: e d)
  case (Suc n)
  show ?case
  proof (cases "e_nmi e")
    case True
    then show ?thesis using Suc.prems(1) by (simp add: attached_def)
  next
    case False
    with Suc.prems have "rel_option attached (emu_run ns None e) (dbg_emu_run F env ns fuel d)"
      by (intro attached_run) (auto intro: in_frame.start)
    moreover have "\<not> dm_nmi d" using False Suc.prems(1) by (simp add: attached_def)
    moreover have "rel_outcome attached (run_until_nmi ns None n e1) (dbg_until_nmi F env ns fuel n d1)"
      if "emu_run ns None e = Some e1" "attached e1 d1" for e1 d1
      using that Suc.prems(2) in_frame_prepend [OF _ False that(1)] by (intro Suc.IH) blast+
    ultimately show ?thesis using False by (auto simp: rel_option_iff split: option.splits)
  qed
qed simp

text \<open>
  C10: a debugger that has nothing to stop for does not change the program. From a plain machine and
  one with the debugger attached, in the same state, with no breakpoint and no stop address (or with
  the debugger quit), a frame ends the same way on both, in the same state of processor, memories,
  picture unit and cycle counter, whether or not a trace is written. (The code of the frame lies
  outside the registers of the picture unit, which the debugger would read with their side effects,
  and has no \<^verbatim>\<open>RTS\<close>, on which an empty backtrace fails.)
\<close>

theorem debugger_transparent:
  assumes "attached e d"
    and "\<forall>e1. in_frame ns e e1 \<and> \<not> e_nmi e1 \<longrightarrow> code_at (r_pc (e_cpu e1)) \<and> no_rts (e_mem e1) (e_cpu e1)"
  shows "rel_outcome attached (run_frame ns None n e) (dbg_run_frame F env ns fuel n d)"
proof -
  have q: "dquit (ds_dbg (dm_world d)) = e_quit e" using assms(1) by (simp add: attached_def watches_def)
  have "attached e1 d1 \<Longrightarrow> attached (e1\<lparr>e_nmi := False\<rparr>) (d1\<lparr>dm_nmi := False\<rparr>)" for e1 d1
    by (simp add: attached_def)
  then show ?thesis
    using attached_until_nmi [OF assms, of n F env fuel] assms(1)
    by (cases "run_until_nmi ns None n e"; cases "dbg_until_nmi F env ns fuel n d") (auto simp: run_frame_def dbg_run_frame_def q)
qed

text \<open>The small machine with a debugger that writes a trace.\<close>

definition demo_watched :: dbgmachine where
  "demo_watched = \<lparr>dm_cpu = e_cpu demo,
     dm_world = \<lparr>ds_dbg = debugger_new\<lparr>nextstop := None, tracefile := Some []\<rparr>, ds_mem = demo_mem,
       cl_in = [], cl_out = [], cl_cmd = CMD_HELP, cl_args = []\<rparr>,
     dm_cycle = 0, dm_nmi = False\<rparr>"

lemma demo_attached: "attached demo demo_watched"
  using demo_mem_ok by (simp add: attached_def watches_def idle_def demo_def demo_watched_def debugger_new_def)




lemma nop_state_code:
  assumes "nop_state e k"
  shows "code_at (r_pc (e_cpu e)) \<and> no_rts (e_mem e) (e_cpu e)"
proof -
  obtain p where p: "e_mem e = demo_mem\<lparr>ms_ppu := p\<rparr>" using assms by (auto simp: nop_state_def)
  have pc: "0x8000 \<le> r_pc (e_cpu e)" using assms nop_pc [of k] by (auto simp: nop_state_def nop_cpu_def)
  moreover have "mem_peek (e_mem e) a = mem_peek demo_mem a" for a by (simp add: p mem_peek_def)
  ultimately show ?thesis
    by (simp add: no_rts_def demo_peek linorder_not_less code_at_def word_le_nat_alt)
qed

theorem debugger_transparent_witness:
  "\<forall>F. \<exists>e' d'. run_frame (\<lambda>_. 0) None 29782 demo = Done e' \<and>
     dbg_run_frame F (\<lambda>_. None) (\<lambda>_. 0) 0 29782 demo_watched = Done d' \<and> attached e' d'"
proof
  fix F
  have c: "\<forall>e1. in_frame (\<lambda>_. 0) demo e1 \<and> \<not> e_nmi e1 \<longrightarrow> code_at (r_pc (e_cpu e1)) \<and> no_rts (e_mem e1) (e_cpu e1)"
    using nop_in_frame [OF _ demo_nop_state] nop_state_code by blast
  have "\<forall>e1. in_frame (\<lambda>_. 0) demo e1 \<and> \<not> e_nmi e1 \<longrightarrow> runnable (\<lambda>_. 0) e1"
    using nop_in_frame [OF _ demo_nop_state] nop_state_runnable by blast
  then obtain e' where e': "run_frame (\<lambda>_. 0) None 29782 demo = Done e'"
    using run_frame_done [OF demo_ok] by (auto simp: demo_def)
  from debugger_transparent [OF demo_attached c, of 29782 F "\<lambda>_. None" 0]
  show "\<exists>e' d'. run_frame (\<lambda>_. 0) None 29782 demo = Done e' \<and>
     dbg_run_frame F (\<lambda>_. None) (\<lambda>_. 0) 0 29782 demo_watched = Done d' \<and> attached e' d'"
    by (cases "dbg_run_frame F (\<lambda>_. None) (\<lambda>_. 0) 0 29782 demo_watched") (auto simp: e')
qed

end
