(* ===== verification/CmdLine.thy ===== *)
theory CmdLine
  imports Prelude
begin

text \<open>
  Command line arguments, \<^verbatim>\<open>emu/util/cmdline.hpp\<close> and \<^verbatim>\<open>emu/util/cmdline.cpp\<close>. The maps of the result are
  maps; the warnings, which the code only prints, are collected in order. The arguments are
  null-terminated strings: the character at the length of one is the terminator, beyond it an
  access has no result.
\<close>

section \<open>Arguments and results\<close>

datatype param_type = NONE | OPTIONAL | MUST_HAVE

record argument =
  short_opt :: char
  long_opt :: string
  desc :: string
  paramt :: param_type
  validator :: "string \<Rightarrow> bool"

record arg_result =
  has :: "char \<rightharpoonup> bool"
  params :: "char \<rightharpoonup> string"
  items :: "string list"

datatype cmd_warning = NotValid string | MustHaveParam string | Multiple string | BadParam string string

definition default_validator :: "string \<Rightarrow> bool" where
  "default_validator param = True"

definition c_at :: "string \<Rightarrow> nat \<Rightarrow> char option" where
  "c_at s i = (if i < length s then Some (s ! i) else if i = length s then Some (CHR 0x00) else None)"

definition starts_dash :: "string \<Rightarrow> bool" where
  "starts_dash s \<longleftrightarrow> c_at s 0 = Some CHR ''-''"

definition is_valid :: "char \<Rightarrow> argument list \<Rightarrow> argument option" where
  "is_valid arg valid_args = find (\<lambda>a. short_opt a = arg) valid_args"

section \<open>Parsing\<close>

definition init_result :: "argument list \<Rightarrow> arg_result" where
  "init_result valid_args =
     fold (\<lambda>arg res. res\<lparr>has := (has res)(short_opt arg \<mapsto> False), params := (params res)(short_opt arg \<mapsto> [])\<rparr>)
       valid_args \<lparr>has = Map.empty, params = Map.empty, items = []\<rparr>"

text \<open>The character an argument with a dash is looked up by: the second one of \<^verbatim>\<open>-c\<close>, else the third.\<close>

definition option_key :: "string \<Rightarrow> char option" where
  "option_key currarg =
     (if c_at currarg 1 \<noteq> Some CHR ''-'' \<and> length currarg = 2 then c_at currarg 1 else c_at currarg 2)"

function parse_args ::
  "argument list \<Rightarrow> string list \<Rightarrow> arg_result \<Rightarrow> cmd_warning list \<Rightarrow> (arg_result \<times> cmd_warning list) option" where
  "parse_args valid_args [] res ws = Some (res, ws)"
| "parse_args valid_args (currarg # rest) res ws =
     (let nextarg = (case rest of [] \<Rightarrow> None | n # _ \<Rightarrow> Some n) in
      if \<not> starts_dash currarg then parse_args valid_args rest (res\<lparr>items := items res @ [currarg]\<rparr>) ws
      else case option_key currarg of
             None \<Rightarrow> None
           | Some key \<Rightarrow>
        (case is_valid key valid_args of
           None \<Rightarrow> parse_args valid_args rest res (ws @ [NotValid currarg])
         | Some arg \<Rightarrow>
             if paramt arg = MUST_HAVE \<and> (case nextarg of None \<Rightarrow> True | Some n \<Rightarrow> starts_dash n)
             then parse_args valid_args rest res (ws @ [MustHaveParam currarg])
             else if has res (short_opt arg) = Some True
             then parse_args valid_args rest res (ws @ [Multiple currarg])
             else let res = res\<lparr>has := (has res)(short_opt arg \<mapsto> True)\<rparr> in
               (case nextarg of
                  None \<Rightarrow> parse_args valid_args rest res ws
                | Some n \<Rightarrow>
                    if paramt arg \<noteq> NONE \<and> \<not> starts_dash n then
                      (if \<not> validator arg n then parse_args valid_args rest res (ws @ [BadParam currarg n])
                       else parse_args valid_args (tl rest) (res\<lparr>params := (params res)(short_opt arg \<mapsto> n)\<rparr>) ws)
                    else parse_args valid_args rest res ws)))"
  by pat_completeness auto
termination
  by (relation "measure (\<lambda>(valid_args, args, res, ws). length args)") auto

declare parse_args.simps(2) [simp del]

text \<open>\<open>argv\<close> with the program name first.\<close>

definition cmdline_parse :: "string list \<Rightarrow> argument list \<Rightarrow> (arg_result \<times> cmd_warning list) option" where
  "cmdline_parse argv valid_args = parse_args valid_args (tl argv) (init_result valid_args) []"

section \<open>Help and version\<close>

definition usage_line :: "nat \<Rightarrow> argument \<Rightarrow> string" where
  "usage_line padding arg =
     ''    -'' @ [short_opt arg] @ '', --'' @ long_opt arg @ replicate (padding - length (long_opt arg)) CHR '' '' @
     desc arg @ [CHR 0x0A]"

definition print_usage :: "string \<Rightarrow> argument list \<Rightarrow> string option" where
  "print_usage progname args =
     (if args = [] then None
      else let padding = Max ((\<lambda>a. length (long_opt a)) ` set args) + 4
           in Some (''Usage: '' @ progname @ '' [args...]'' @ [CHR 0x0A] @ ''Valid arguments:'' @ [CHR 0x0A] @
                concat (map (usage_line padding) args)))"

definition print_version :: "string \<Rightarrow> string \<Rightarrow> string" where
  "print_version progname version = progname @ '': version '' @ version @ [CHR 0x0A]"

section \<open>Flags without parameters\<close>

abbreviation shorts :: "argument list \<Rightarrow> char set" where
  "shorts valid_args \<equiv> short_opt ` set valid_args"

lemma is_valid_None: "is_valid c valid_args = None \<longleftrightarrow> c \<notin> shorts valid_args"
  by (auto simp: is_valid_def find_None_iff)

lemma is_valid_Some: "is_valid c valid_args = Some arg \<Longrightarrow> arg \<in> set valid_args \<and> short_opt arg = c"
  by (auto simp: is_valid_def find_Some_iff)

lemma option_key_total:
  assumes "starts_dash a" "a \<noteq> ''-''"
  shows "\<exists>c. option_key a = Some c"
proof -
  have "2 \<le> length a"
    using assms by (cases a; cases "tl a") (auto simp: starts_dash_def c_at_def)
  then show ?thesis by (auto simp: option_key_def c_at_def)
qed

lemma parse_args_flags:
  assumes "\<forall>arg \<in> set valid_args. paramt arg = NONE" "\<forall>a \<in> set args. a \<noteq> ''-''"
  shows "\<exists>res' ws'. parse_args valid_args args res ws = Some (res', ws') \<and>
    items res' = items res @ filter (\<lambda>a. \<not> starts_dash a) args \<and>
    has res' = (\<lambda>c. if c \<in> shorts valid_args \<and> (\<exists>a \<in> set args. starts_dash a \<and> option_key a = Some c)
      then Some True else has res c)"
  using assms(2)
proof (induction args arbitrary: res ws)
  case Nil
  then show ?case by simp
next
  case (Cons a args)
  note step = parse_args.simps(2) [of valid_args a args]
  show ?case
  proof (cases "starts_dash a")
    case False
    then show ?thesis using Cons.IH [of "res\<lparr>items := items res @ [a]\<rparr>" ws] Cons.prems by (simp add: step cong: if_cong)
  next
    case True
    then obtain key where key: "option_key a = Some key" using option_key_total Cons.prems by auto
    show ?thesis
    proof (cases "is_valid key valid_args")
      case None
      then have "key \<notin> shorts valid_args" by (simp add: is_valid_None)
      then show ?thesis using Cons.IH [of res "ws @ [NotValid a]"] Cons.prems True key None
        by (auto simp: step fun_eq_iff)
    next
      case (Some arg)
      then have arg: "arg \<in> set valid_args" "short_opt arg = key" "paramt arg = NONE"
        using is_valid_Some assms(1) by blast+
      show ?thesis
      proof (cases "has res key = Some True")
        case set: True
        from Cons.IH [of res "ws @ [Multiple a]"] Cons.prems obtain r w where
          "parse_args valid_args args res (ws @ [Multiple a]) = Some (r, w)"
          "items r = items res @ filter (\<lambda>a. \<not> starts_dash a) args"
          "has r = (\<lambda>c. if c \<in> shorts valid_args \<and> (\<exists>a \<in> set args. starts_dash a \<and> option_key a = Some c)
             then Some True else has res c)" by auto
        then show ?thesis using True key Some arg set by (auto simp: step fun_eq_iff)
      next
        case unset: False
        let ?r = "res\<lparr>has := (has res)(key \<mapsto> True)\<rparr>"
        from Cons.IH [of ?r ws] Cons.prems obtain r w where
          "parse_args valid_args args ?r ws = Some (r, w)"
          "items r = items res @ filter (\<lambda>a. \<not> starts_dash a) args"
          "has r = (\<lambda>c. if c \<in> shorts valid_args \<and> (\<exists>a \<in> set args. starts_dash a \<and> option_key a = Some c)
             then Some True else has ?r c)" by auto
        moreover have "parse_args valid_args (a # args) res ws = parse_args valid_args args ?r ws"
          using True key Some arg unset by (simp add: step Let_def split: list.splits)
        moreover have "key \<in> shorts valid_args" using arg by blast
        ultimately show ?thesis using True key by (simp only:) (auto simp: fun_eq_iff)
      qed
    qed
  qed
qed

lemma init_result_has:
  "has (init_result valid_args) = (\<lambda>c. if c \<in> shorts valid_args then Some False else None) \<and> items (init_result valid_args) = []"
proof -
  have "has (fold (\<lambda>arg res. res\<lparr>has := (has res)(short_opt arg \<mapsto> False), params := (params res)(short_opt arg \<mapsto> [])\<rparr>) args r) =
      (\<lambda>c. if c \<in> shorts args then Some False else has r c) \<and>
    items (fold (\<lambda>arg res. res\<lparr>has := (has res)(short_opt arg \<mapsto> False), params := (params res)(short_opt arg \<mapsto> [])\<rparr>) args r) = items r"
    for args :: "argument list" and r :: arg_result by (induction args arbitrary: r) (auto simp: fun_eq_iff)
  then show ?thesis by (simp add: init_result_def cong: if_cong)
qed

text \<open>
  C36: for options without parameters, as those of the program, and arguments other than a lone
  dash, the items are the arguments without a dash, in order, and an option is found exactly when
  some argument has its letter at the place the parser looks at: the second character of a
  two-character argument, the third character of any other. Of a long option only that third
  character counts.
\<close>

theorem parse_flags:
  assumes "\<forall>arg \<in> set valid_args. paramt arg = NONE" "\<forall>a \<in> set args. a \<noteq> ''-''"
  shows "\<exists>res ws. cmdline_parse (prog # args) valid_args = Some (res, ws) \<and>
    items res = filter (\<lambda>a. \<not> starts_dash a) args \<and>
    (\<forall>c. has res c = (if c \<in> shorts valid_args
       then Some (\<exists>a \<in> set args. starts_dash a \<and> option_key a = Some c) else None))"
  using parse_args_flags [OF assms, of "init_result valid_args" "[]"] init_result_has [of valid_args]
  by (auto simp: cmdline_parse_def)

definition cmdflags :: "argument list" where
  "cmdflags =
     [\<lparr>short_opt = CHR ''h'', long_opt = ''help'', desc = ''Print this help text and quit'', paramt = NONE, validator = default_validator\<rparr>,
      \<lparr>short_opt = CHR ''v'', long_opt = ''version'', desc = ''Shows the program'' @ [CHR 0x27] @ ''s version'', paramt = NONE, validator = default_validator\<rparr>,
      \<lparr>short_opt = CHR ''d'', long_opt = ''debugger'', desc = ''Use command-line debugger'', paramt = NONE, validator = default_validator\<rparr>]"

theorem parse_flags_witness:
  "\<exists>res ws. cmdline_parse [''emu'', ''game.nes'', ''--door''] cmdflags = Some (res, ws) \<and>
     items res = [''game.nes''] \<and> has res CHR ''d'' = Some True \<and> has res CHR ''h'' = Some False"
proof -
  have "\<forall>arg \<in> set cmdflags. paramt arg = NONE" "\<forall>a \<in> set [''game.nes'', ''--door'']. a \<noteq> ''-''"
    by (simp_all add: cmdflags_def)
  from parse_flags [OF this, of "''emu''"] show ?thesis
    by (auto simp: cmdflags_def starts_dash_def c_at_def option_key_def)
qed

text \<open>A lone dash makes the parser read behind the terminator.\<close>

lemma parse_lone_dash: "cmdline_parse [''emu'', ''-''] cmdflags = None"
  by (simp add: cmdline_parse_def parse_args.simps(2) starts_dash_def c_at_def option_key_def)

end
