(* ===== verification/Video.thy ===== *)
theory Video
  imports Canvas
begin

text \<open>
  The window and the textures of \<^verbatim>\<open>emu/video/video.hpp\<close> and \<^verbatim>\<open>emu/video/video.cpp\<close>. The graphics back end,
  the class behind \<^verbatim>\<open>Context::Impl\<close>, is a library interface: the context keeps the calls given to it, in
  order, and the number it answers to \<^verbatim>\<open>create_texture\<close> is a parameter. A texture holds no pointer to
  the context here; the operations take and return the context. Image files are decoded by a
  library; its result is a parameter too.
\<close>

section \<open>The context\<close>

datatype video_call =
    Viewport int int
  | CreateTexture nat nat "uint8 heaparray option"
  | UpdateTexture uint32 nat nat "uint8 heaparray"
  | UseTexture uint32
  | Draw

record vcontext =
  wnd_width :: uint32
  wnd_height :: uint32
  video_calls :: "video_call list"

definition context_new :: vcontext where
  "context_new = \<lparr>wnd_width = 512, wnd_height = 480, video_calls = []\<rparr>"

definition impl_call :: "video_call \<Rightarrow> vcontext \<Rightarrow> vcontext" where
  "impl_call call ctx = ctx\<lparr>video_calls := video_calls ctx @ [call]\<rparr>"

definition context_resize :: "int \<Rightarrow> int \<Rightarrow> vcontext \<Rightarrow> vcontext" where
  "context_resize newwidth newheight ctx =
     impl_call (Viewport newwidth newheight) (ctx\<lparr>wnd_width := word_of_int newwidth, wnd_height := word_of_int newheight\<rparr>)"

definition context_draw :: "vcontext \<Rightarrow> vcontext" where
  "context_draw = impl_call Draw"

section \<open>Textures\<close>

record texture =
  tx_id :: uint32
  tx_w :: nat
  tx_h :: nat

definition texture_new :: "uint32 \<Rightarrow> nat \<Rightarrow> nat \<Rightarrow> uint8 heaparray option \<Rightarrow> vcontext \<Rightarrow> texture \<times> vcontext" where
  "texture_new answer w h data ctx =
     (\<lparr>tx_id = answer, tx_w = w, tx_h = h\<rparr>, impl_call (CreateTexture w h data) ctx)"

definition texture_reset :: "uint32 \<Rightarrow> uint8 heaparray option \<Rightarrow> texture \<Rightarrow> vcontext \<Rightarrow> texture \<times> vcontext" where
  "texture_reset answer data t ctx =
     (t\<lparr>tx_id := answer\<rparr>, impl_call (CreateTexture (tx_w t) (tx_h t) data) ctx)"

definition texture_update :: "uint8 heaparray \<Rightarrow> texture \<Rightarrow> vcontext \<Rightarrow> vcontext" where
  "texture_update data t = impl_call (UpdateTexture (tx_id t) (tx_w t) (tx_h t) data)"

definition texture_update_size :: "nat \<Rightarrow> nat \<Rightarrow> uint8 heaparray \<Rightarrow> texture \<Rightarrow> vcontext \<Rightarrow> texture \<times> vcontext" where
  "texture_update_size w h data t ctx =
     (let t = t\<lparr>tx_w := w, tx_h := h\<rparr> in (t, texture_update data t ctx))"

definition texture_use :: "texture \<Rightarrow> vcontext \<Rightarrow> vcontext" where
  "texture_use t = impl_call (UseTexture (tx_id t))"

text \<open>\<^verbatim>\<open>Canvas::update\<close>: the texture of the canvas gets its frame.\<close>

definition canvas_update :: "canvas \<Rightarrow> texture \<Rightarrow> vcontext \<Rightarrow> vcontext" where
  "canvas_update c t = texture_update (frame c) t"

definition canvas_reset :: "uint32 \<Rightarrow> texture \<Rightarrow> vcontext \<Rightarrow> texture \<times> vcontext" where
  "canvas_reset answer t ctx = texture_reset answer None t ctx"

section \<open>Images\<close>

text \<open>What \<^verbatim>\<open>stbi_load\<close> stores: the pixels, width, height and number of channels; \<open>None\<close> is the null pointer.\<close>

type_synonym decoded = "(uint8 heaparray \<times> nat \<times> nat \<times> nat) option"

record image_texture =
  it_tex :: texture
  it_data :: "uint8 heaparray"

definition image_new :: "decoded \<Rightarrow> uint32 \<Rightarrow> vcontext \<Rightarrow> (image_texture \<times> vcontext) option" where
  "image_new loaded answer ctx =
     do { (data, w, h, channels) \<leftarrow> loaded;
          if channels = 4 then
            let (t, ctx) = texture_new answer w h (Some data) ctx in Some (\<lparr>it_tex = t, it_data = data\<rparr>, ctx)
          else None }"

definition image_reload :: "decoded \<Rightarrow> image_texture \<Rightarrow> vcontext \<Rightarrow> (image_texture \<times> vcontext) option" where
  "image_reload loaded img ctx =
     do { (data, w, h, channels) \<leftarrow> loaded;
          if channels = 4 then
            let (t, ctx) = texture_update_size w h data (it_tex img) ctx in Some (\<lparr>it_tex = t, it_data = data\<rparr>, ctx)
          else None }"

definition image_reset :: "uint32 \<Rightarrow> image_texture \<Rightarrow> vcontext \<Rightarrow> image_texture \<times> vcontext" where
  "image_reset answer img ctx =
     (let (t, ctx) = texture_reset answer (Some (it_data img)) (it_tex img) ctx in (img\<lparr>it_tex := t\<rparr>, ctx))"

end
