(* ===== verification/OpenGl.thy ===== *)
theory OpenGl
  imports Video "HOL-Library.Multiset"
begin

text \<open>
  The graphics back end, \<^verbatim>\<open>emu/video/opengl.hpp\<close> and \<^verbatim>\<open>emu/video/opengl.cpp\<close>. The class only calls SDL2 and
  OpenGL. The model is the sequence of these calls; what the libraries answer (success of
  initialisation, of loading, compiling and linking, and the names of new objects) is a parameter.
  Names are answered in order from \<open>new_name\<close>. The window and the context of SDL are pointers that are
  only passed on and are left out of the calls, as are the arguments that never vary (targets, formats, window
  position and flags); queries of a status or a log are the parameters. Colours are in tenths.

  The theorems read the sequence of calls in two ways: as a ledger of what the program holds, which
  shows what a session leaves behind, and as the pictures it shows, which are those that the calls
  of the interface \<^verbatim>\<open>Context::Impl\<close> ask for.
\<close>

section \<open>Calls\<close>

datatype shader_type = VERTEX_SHADER | FRAGMENT_SHADER

datatype buffer_target = ARRAY_BUFFER | ELEMENT_ARRAY_BUFFER

datatype glcall =
    SdlInit | SdlQuit | CreateWindow string nat nat | DestroyWindow | CreateContext | DeleteContext
  | SetAttribute string int | SetSwapInterval int | SwapWindow
  | CreateProgram uint32 | LinkProgram uint32 | UseProgram uint32 | Uniform1i uint32 string int
  | CreateShader shader_type uint32 | ShaderSource uint32 string | CompileShader uint32
  | AttachShader uint32 uint32 | DeleteShader uint32
  | GenVertexArray uint32 | BindVertexArray uint32 | DeleteVertexArray uint32
  | GenBuffer uint32 | BindBuffer buffer_target uint32 | BufferData buffer_target nat "int list" | DeleteBuffer uint32
  | VertexAttribPointer nat nat nat nat | EnableVertexAttribArray nat
  | ActiveTexture nat | GenTexture uint32 | BindTexture uint32 | TexParameter string string
  | TexImage2D nat nat "uint8 heaparray option" | TexSubImage2D nat nat "uint8 heaparray"
  | GlViewport int int | ClearColor "int list" | ClearBuffers | DrawElements nat

record gl_env =
  sdl_init :: int
  sdl_error :: string
  glad_loads :: bool
  compiles :: "shader_type \<Rightarrow> bool"
  links :: bool
  info_log :: string
  new_name :: "nat \<Rightarrow> uint32"

text \<open>The calls so far, the number of names answered, and the messages printed.\<close>

record glstate =
  gl_calls :: "glcall list"
  gl_names :: nat
  gl_errors :: "string list"

record opengl =
  gl_initialized :: bool
  progid :: uint32
  vbo :: uint32
  vao :: uint32
  ebo :: uint32

definition calls :: "glcall list \<Rightarrow> glstate \<Rightarrow> glstate" where
  "calls cs s = s\<lparr>gl_calls := gl_calls s @ cs\<rparr>"

definition gen :: "gl_env \<Rightarrow> (uint32 \<Rightarrow> glcall) \<Rightarrow> glstate \<Rightarrow> uint32 \<times> glstate" where
  "gen E f s = (let i = new_name E (gl_names s) in (i, calls [f i] (s\<lparr>gl_names := gl_names s + 1\<rparr>)))"

definition gl_error :: "string \<Rightarrow> glstate \<Rightarrow> glstate" where
  "gl_error msg s = s\<lparr>gl_errors := gl_errors s @ [msg]\<rparr>"

section \<open>Shaders and buffers\<close>

definition code_text :: "string list \<Rightarrow> string" where
  "code_text ls = concat (map (\<lambda>l. CHR 0x0A # (if l = [] then [] else ''    '' @ l)) ls) @ [CHR 0x0A]"

definition vertcode :: string where
  "vertcode = code_text
     [''#version 330 core'', ''layout (location = 0) in vec3 aPos;'', ''layout (location = 1) in vec2 aTexCoord;'', [],
      ''out vec2 TexCoord;'', [], ''void main()'', ''{'', ''    gl_Position = vec4(aPos, 1.0);'',
      ''    TexCoord = vec2(aTexCoord.x, aTexCoord.y);'', ''}'']"

definition fragcode :: string where
  "fragcode = code_text
     [''#version 330 core'', ''out vec4 FragColor;'', [], ''in vec2 TexCoord;'', [], ''uniform sampler2D tex;'', [],
      ''void main()'', ''{'', ''    FragColor = texture(tex, TexCoord);'',
      ''    // FragColor = vec4(0.5f, 0.0f, 0.0f, 1.0f);'', ''}'']"

text \<open>Positions and texture coordinates of the corners, all of them whole numbers; two triangles.\<close>

definition vertices :: "int list" where
  "vertices = [1, 1, 0, 1, 1,  1, -1, 0, 1, 0,  -1, 1, 0, 0, 1,  -1, -1, 0, 0, 0]"

definition indices :: "int list" where
  "indices = [0, 1, 2, 1, 2, 3]"

text \<open>A shader that does not compile is neither attached nor deleted, and its name is lost.\<close>

definition create_shader :: "gl_env \<Rightarrow> uint32 \<Rightarrow> shader_type \<Rightarrow> string \<Rightarrow> string \<Rightarrow> glstate \<Rightarrow> uint32 \<times> glstate" where
  "create_shader E prog ty code name s =
     (let (sid, s) = gen E (CreateShader ty) s;
          s = calls [ShaderSource sid code, CompileShader sid] s
      in if \<not> compiles E ty then (0, gl_error (''OpenGL: '' @ name @ '' compile error: '' @ info_log E) s)
         else (sid, calls [AttachShader prog sid] s))"

definition create_program :: "gl_env \<Rightarrow> opengl \<Rightarrow> glstate \<Rightarrow> opengl \<times> glstate" where
  "create_program E g s =
     (let (p, s) = gen E CreateProgram s;
          g = g\<lparr>progid := p\<rparr>;
          (vs, s) = create_shader E p VERTEX_SHADER vertcode ''vertex shader'' s;
          (fs, s) = create_shader E p FRAGMENT_SHADER fragcode ''fragment shader'' s;
          s = calls [LinkProgram p] s;
          s = (if \<not> links E then gl_error (''OpenGL: program link error: '' @ info_log E) s else s)
      in (g, calls [DeleteShader vs, DeleteShader fs] s))"

definition create_objects :: "gl_env \<Rightarrow> opengl \<Rightarrow> glstate \<Rightarrow> opengl \<times> glstate" where
  "create_objects E g s =
     (let (a, s) = gen E GenVertexArray s;
          (b, s) = gen E GenBuffer s;
          (i, s) = gen E GenBuffer s;
          g = g\<lparr>vao := a, vbo := b, ebo := i\<rparr>
      in (g, calls [BindVertexArray a,
            BindBuffer ARRAY_BUFFER b, BufferData ARRAY_BUFFER (4 * length vertices) vertices,
            BindBuffer ELEMENT_ARRAY_BUFFER i, BufferData ELEMENT_ARRAY_BUFFER (4 * length indices) indices,
            VertexAttribPointer 0 3 (5 * 4) 0, EnableVertexAttribArray 0,
            VertexAttribPointer 1 2 (5 * 4) (3 * 4), EnableVertexAttribArray 1] s))"

section \<open>The interface\<close>

definition gl_init :: "gl_env \<Rightarrow> opengl \<Rightarrow> glstate \<Rightarrow> bool \<times> opengl \<times> glstate" where
  "gl_init E g s =
     (let s = calls [SdlInit] s in
      if sdl_init E < 0
      then (False, g, gl_error (''can'' @ [CHR 0x27] @ ''t initialize video, SDL2 error: '' @ sdl_error E) s)
      else
        let s = calls [SetAttribute ''CONTEXT_MAJOR_VERSION'' 3, SetAttribute ''CONTEXT_MINOR_VERSION'' 3,
              SetAttribute ''DOUBLEBUFFER'' 1, SetAttribute ''DEPTH_SIZE'' 24,
              CreateWindow ''Window'' 512 480, CreateContext] s
        in if \<not> glad_loads E
           then (False, g, calls [DeleteContext, DestroyWindow, SdlQuit]
                  (gl_error (''can'' @ [CHR 0x27] @ ''t initialize video: GLAD error'') s))
           else
             let s = calls [SetSwapInterval 1] s;
                 (g, s) = create_program E g s;
                 (g, s) = create_objects E g s;
                 s = calls [ClearColor [0, 0, 4, 10], UseProgram (progid g), Uniform1i (progid g) ''tex'' 0] s
             in (True, g\<lparr>gl_initialized := True\<rparr>, s))"

definition gl_destroy :: "opengl \<Rightarrow> glstate \<Rightarrow> opengl \<times> glstate" where
  "gl_destroy g s =
     (if \<not> gl_initialized g then (g, s)
      else (g\<lparr>gl_initialized := False\<rparr>,
            calls [DeleteVertexArray (vao g), DeleteBuffer (vbo g), DeleteBuffer (ebo g),
              DestroyWindow, DeleteContext, SdlQuit] s))"

definition gl_resize :: "int \<Rightarrow> int \<Rightarrow> glstate \<Rightarrow> glstate" where
  "gl_resize newwidth newheight = calls [GlViewport newwidth newheight]"

definition create_texture :: "gl_env \<Rightarrow> nat \<Rightarrow> nat \<Rightarrow> uint8 heaparray option \<Rightarrow> glstate \<Rightarrow> uint32 \<times> glstate" where
  "create_texture E texw texh data s =
     (let s = calls [ActiveTexture 0] s;
          (i, s) = gen E GenTexture s
      in (i, calls [BindTexture i, TexParameter ''WRAP_S'' ''CLAMP_TO_EDGE'', TexParameter ''WRAP_T'' ''CLAMP_TO_EDGE'',
            TexParameter ''MIN_FILTER'' ''NEAREST'', TexParameter ''MAG_FILTER'' ''NEAREST'', TexImage2D texw texh data] s))"

definition use_texture :: "uint32 \<Rightarrow> glstate \<Rightarrow> glstate" where
  "use_texture i = calls [ActiveTexture 0, BindTexture i]"

definition update_texture :: "uint32 \<Rightarrow> nat \<Rightarrow> nat \<Rightarrow> uint8 heaparray \<Rightarrow> glstate \<Rightarrow> glstate" where
  "update_texture i texw texh data s = calls [TexSubImage2D texw texh data] (use_texture i s)"

definition gl_draw :: "opengl \<Rightarrow> glstate \<Rightarrow> glstate" where
  "gl_draw g = calls [ClearBuffers, UseProgram (progid g), BindVertexArray (vao g),
     BindBuffer ELEMENT_ARRAY_BUFFER (ebo g), DrawElements 6, SwapWindow]"

text \<open>A fresh object, whose numbers have no value yet, and \<^verbatim>\<open>Context::init\<close> with the only type there is.\<close>

definition opengl_new :: "opengl \<Rightarrow> opengl" where
  "opengl_new junk = junk\<lparr>gl_initialized := False\<rparr>"

definition context_init :: "gl_env \<Rightarrow> opengl \<Rightarrow> glstate \<Rightarrow> bool \<times> opengl \<times> glstate" where
  "context_init E junk s = gl_init E (opengl_new junk) s"

text \<open>The virtual functions of \<^verbatim>\<open>Context::Impl\<close>, and a whole session: start, calls, and the destructor at exit.\<close>

definition gl_call :: "gl_env \<Rightarrow> opengl \<Rightarrow> video_call \<Rightarrow> glstate \<Rightarrow> glstate" where
  "gl_call E g call s =
     (case call of
        Viewport w h \<Rightarrow> gl_resize w h s
      | CreateTexture w h data \<Rightarrow> snd (create_texture E w h data s)
      | UpdateTexture i w h data \<Rightarrow> update_texture i w h data s
      | UseTexture i \<Rightarrow> use_texture i s
      | Draw \<Rightarrow> gl_draw g s)"

definition gl_start :: glstate where
  "gl_start = \<lparr>gl_calls = [], gl_names = 0, gl_errors = []\<rparr>"

definition gl_session :: "gl_env \<Rightarrow> opengl \<Rightarrow> video_call list \<Rightarrow> glstate" where
  "gl_session E junk vcs =
     (let (ok, g, s) = context_init E junk gl_start
      in snd (gl_destroy g (if ok then fold (gl_call E g) vcs s else s)))"

section \<open>The ledger\<close>

datatype resource =
  R_Sdl | R_Window | R_Context | R_Program uint32 | R_Shader uint32 | R_VertexArray uint32 | R_Buffer uint32 | R_Texture uint32

fun acquired :: "gl_env \<Rightarrow> glcall \<Rightarrow> resource multiset" where
  "acquired E SdlInit = (if sdl_init E < 0 then {#} else {#R_Sdl#})"
| "acquired E (CreateWindow _ _ _) = {#R_Window#}"
| "acquired E CreateContext = {#R_Context#}"
| "acquired E (CreateProgram i) = {#R_Program i#}"
| "acquired E (CreateShader _ i) = {#R_Shader i#}"
| "acquired E (GenVertexArray i) = {#R_VertexArray i#}"
| "acquired E (GenBuffer i) = {#R_Buffer i#}"
| "acquired E (GenTexture i) = {#R_Texture i#}"
| "acquired E _ = {#}"

fun released :: "glcall \<Rightarrow> resource multiset" where
  "released SdlQuit = {#R_Sdl#}"
| "released DestroyWindow = {#R_Window#}"
| "released DeleteContext = {#R_Context#}"
| "released (DeleteShader i) = {#R_Shader i#}"
| "released (DeleteVertexArray i) = {#R_VertexArray i#}"
| "released (DeleteBuffer i) = {#R_Buffer i#}"
| "released _ = {#}"

text \<open>Releasing what is not held, as the name 0 of a shader that did not compile, does nothing.\<close>

definition ledger :: "gl_env \<Rightarrow> glcall \<Rightarrow> resource multiset \<Rightarrow> resource multiset" where
  "ledger E c M = (M + acquired E c) - released c"

definition held :: "gl_env \<Rightarrow> glcall list \<Rightarrow> resource multiset" where
  "held E cs = fold (ledger E) cs {#}"

section \<open>The pictures\<close>

text \<open>
  The part of OpenGL that decides which picture is drawn, after the reference pages of its calls. A
  call that is an error changes nothing: using a program that did not link, binding a
  name that was not generated, and storing an image that does not fit into the texture. An image
  that is smaller than the texture replaces its corner and keeps the rest; a texture never changes
  its size this way. The pixels of an image are \<open>None\<close> where not all of them have been given. A picture
  is drawn with the current program, a vertex array and the image of the bound texture; the program 0
  is no program, and what is drawn with it is not defined.
\<close>

type_synonym image = "(nat \<times> nat \<times> uint8 heaparray option) option"

record glview =
  v_linked :: "uint32 list"
  v_prog :: uint32
  v_vaos :: "uint32 list"
  v_vao :: uint32
  v_textures :: "uint32 list"
  v_bound :: uint32
  v_image :: "uint32 \<Rightarrow> image"
  v_pictures :: "(uint32 \<times> uint32 \<times> image) list"

text \<open>The rows of \<open>w\<close> by \<open>h\<close> pixels of four bytes over those of an image of width \<open>mw\<close>.\<close>

definition over_corner :: "nat \<Rightarrow> nat \<Rightarrow> nat \<Rightarrow> uint8 heaparray \<Rightarrow> uint8 heaparray \<Rightarrow> uint8 heaparray" where
  "over_corner mw w h d old =
     old\<lparr>ha_elems := \<lambda>k. if k div (4 * mw) < h \<and> k mod (4 * mw) < 4 * w
                         then ha_elems d (k div (4 * mw) * (4 * w) + k mod (4 * mw)) else ha_elems old k\<rparr>"

definition sub_image :: "nat \<Rightarrow> nat \<Rightarrow> uint8 heaparray \<Rightarrow> image \<Rightarrow> image" where
  "sub_image w h d img =
     (case img of
        None \<Rightarrow> None
      | Some (mw, mh, old) \<Rightarrow>
          if w = mw \<and> h = mh then Some (w, h, Some d)
          else if w \<le> mw \<and> h \<le> mh then Some (mw, mh, map_option (over_corner mw w h d) old)
          else img)"

fun view_call :: "gl_env \<Rightarrow> glcall \<Rightarrow> glview \<Rightarrow> glview" where
  "view_call E (LinkProgram p) v = v\<lparr>v_linked := (if links E then p # v_linked v else removeAll p (v_linked v))\<rparr>"
| "view_call E (UseProgram p) v = (if p = 0 \<or> p \<in> set (v_linked v) then v\<lparr>v_prog := p\<rparr> else v)"
| "view_call E (GenVertexArray a) v = v\<lparr>v_vaos := a # v_vaos v\<rparr>"
| "view_call E (BindVertexArray a) v = (if a = 0 \<or> a \<in> set (v_vaos v) then v\<lparr>v_vao := a\<rparr> else v)"
| "view_call E (GenTexture i) v = v\<lparr>v_textures := i # v_textures v\<rparr>"
| "view_call E (BindTexture i) v = (if i = 0 \<or> i \<in> set (v_textures v) then v\<lparr>v_bound := i\<rparr> else v)"
| "view_call E (TexImage2D w h d) v = v\<lparr>v_image := (v_image v)(v_bound v := Some (w, h, d))\<rparr>"
| "view_call E (TexSubImage2D w h d) v = v\<lparr>v_image := (v_image v)(v_bound v := sub_image w h d (v_image v (v_bound v)))\<rparr>"
| "view_call E (DrawElements n) v = v\<lparr>v_pictures := v_pictures v @ [(v_prog v, v_vao v, v_image v (v_bound v))]\<rparr>"
| "view_call E _ v = v"

definition view_start :: glview where
  "view_start = \<lparr>v_linked = [], v_prog = 0, v_vaos = [], v_vao = 0, v_textures = [], v_bound = 0, v_image = (\<lambda>_. None), v_pictures = []\<rparr>"

definition gl_pictures :: "gl_env \<Rightarrow> glcall list \<Rightarrow> (uint32 \<times> uint32 \<times> image) list" where
  "gl_pictures E cs = v_pictures (fold (view_call E) cs view_start)"

text \<open>What a sequence of calls of the interface asks for: textures are numbered in the order of their creation.\<close>

record wanted =
  w_names :: nat
  w_current :: uint32
  w_image :: "uint32 \<Rightarrow> image"
  w_pictures :: "image list"

fun want :: "(nat \<Rightarrow> uint32) \<Rightarrow> video_call \<Rightarrow> wanted \<Rightarrow> wanted" where
  "want name (Viewport _ _) s = s"
| "want name (CreateTexture w h d) s =
     (let i = name (w_names s)
      in s\<lparr>w_names := Suc (w_names s), w_current := i, w_image := (w_image s)(i := Some (w, h, d))\<rparr>)"
| "want name (UpdateTexture i w h d) s = s\<lparr>w_current := i, w_image := (w_image s)(i := Some (w, h, Some d))\<rparr>"
| "want name (UseTexture i) s = s\<lparr>w_current := i\<rparr>"
| "want name Draw s = s\<lparr>w_pictures := w_pictures s @ [w_image s (w_current s)]\<rparr>"

definition want_start :: wanted where
  "want_start = \<lparr>w_names = 0, w_current = 0, w_image = (\<lambda>_. None), w_pictures = []\<rparr>"

definition pictures :: "(nat \<Rightarrow> uint32) \<Rightarrow> video_call list \<Rightarrow> image list" where
  "pictures name vcs = w_pictures (fold (want name) vcs want_start)"

text \<open>
  The calls the interface can carry out: a texture that is used or updated has been created, and an
  update has the size of its texture. \<^verbatim>\<open>ImageTexture::reload\<close> breaks this rule when
  the new image has another size.
\<close>

fun size_in :: "wanted \<Rightarrow> uint32 \<Rightarrow> (nat \<times> nat) option" where
  "size_in s i = map_option (\<lambda>(w, h, d). (w, h)) (w_image s i)"

fun proper :: "video_call \<Rightarrow> wanted \<Rightarrow> bool" where
  "proper (UpdateTexture i w h d) s \<longleftrightarrow> size_in s i = Some (w, h)"
| "proper (UseTexture i) s \<longleftrightarrow> size_in s i \<noteq> None"
| "proper _ s \<longleftrightarrow> True"

fun all_proper :: "(nat \<Rightarrow> uint32) \<Rightarrow> video_call list \<Rightarrow> wanted \<Rightarrow> bool" where
  "all_proper name [] s \<longleftrightarrow> True"
| "all_proper name (c # cs) s \<longleftrightarrow> proper c s \<and> all_proper name cs (want name c s)"

section \<open>Sequences of calls\<close>

named_theorems gl_ops

lemma calls_fields [simp]:
  "gl_calls (calls cs s) = gl_calls s @ cs" "gl_names (calls cs s) = gl_names s"
  by (simp_all add: calls_def)

lemma gen_fields [simp]:
  "fst (gen E f s) = new_name E (gl_names s)" "gl_names (snd (gen E f s)) = Suc (gl_names s)"
  "gl_calls (snd (gen E f s)) = gl_calls s @ [f (new_name E (gl_names s))]"
  by (simp_all add: gen_def Let_def)

lemma gl_errors_kept [simp]: "gl_errors (calls cs s) = gl_errors s" "gl_errors (snd (gen E f s)) = gl_errors s"
  by (simp_all add: calls_def gen_def Let_def)

lemma gl_error_fields [simp]: "gl_calls (gl_error msg s) = gl_calls s" "gl_names (gl_error msg s) = gl_names s"
  by (simp_all add: gl_error_def)

lemma create_shader_result [gl_ops]:
  fixes E :: gl_env and s :: glstate
  defines "i \<equiv> new_name E (gl_names s)"
  shows "fst (create_shader E p ty code name s) = (if compiles E ty then i else 0)"
    and "gl_names (snd (create_shader E p ty code name s)) = Suc (gl_names s)"
    and "gl_calls (snd (create_shader E p ty code name s)) = gl_calls s @
      [CreateShader ty i, ShaderSource i code, CompileShader i] @ (if compiles E ty then [AttachShader p i] else [])"
  by (simp_all add: create_shader_def Let_def case_prod_unfold i_def)

text \<open>The calls that start the program and its buffers, when the names from \<open>n\<close> on are free.\<close>

definition program_calls :: "gl_env \<Rightarrow> nat \<Rightarrow> glcall list" where
  "program_calls E n =
     (let p = new_name E n; vs = new_name E (n + 1); fs = new_name E (n + 2) in
      [CreateProgram p,
       CreateShader VERTEX_SHADER vs, ShaderSource vs vertcode, CompileShader vs] @
       (if compiles E VERTEX_SHADER then [AttachShader p vs] else []) @
      [CreateShader FRAGMENT_SHADER fs, ShaderSource fs fragcode, CompileShader fs] @
       (if compiles E FRAGMENT_SHADER then [AttachShader p fs] else []) @
      [LinkProgram p, DeleteShader (if compiles E VERTEX_SHADER then vs else 0),
       DeleteShader (if compiles E FRAGMENT_SHADER then fs else 0)])"

lemma create_program_result [gl_ops]:
  "fst (create_program E g s) = g\<lparr>progid := new_name E (gl_names s)\<rparr>"
  "gl_names (snd (create_program E g s)) = gl_names s + 3"
  "gl_calls (snd (create_program E g s)) = gl_calls s @ program_calls E (gl_names s)"
  by (simp_all add: create_program_def Let_def case_prod_unfold create_shader_result program_calls_def)

definition object_calls :: "gl_env \<Rightarrow> nat \<Rightarrow> glcall list" where
  "object_calls E n =
     (let a = new_name E n; b = new_name E (n + 1); i = new_name E (n + 2) in
      [GenVertexArray a, GenBuffer b, GenBuffer i, BindVertexArray a,
       BindBuffer ARRAY_BUFFER b, BufferData ARRAY_BUFFER 80 vertices,
       BindBuffer ELEMENT_ARRAY_BUFFER i, BufferData ELEMENT_ARRAY_BUFFER 24 indices,
       VertexAttribPointer 0 3 20 0, EnableVertexAttribArray 0, VertexAttribPointer 1 2 20 12, EnableVertexAttribArray 1])"

lemma create_objects_result [gl_ops]:
  fixes E :: gl_env and s :: glstate
  defines "n \<equiv> gl_names s"
  shows "fst (create_objects E g s) = g\<lparr>vao := new_name E n, vbo := new_name E (n + 1), ebo := new_name E (n + 2)\<rparr>"
    and "gl_names (snd (create_objects E g s)) = n + 3"
    and "gl_calls (snd (create_objects E g s)) = gl_calls s @ object_calls E n"
  by (simp_all add: create_objects_def Let_def case_prod_unfold n_def object_calls_def vertices_def indices_def)

lemma create_errors:
  assumes "\<forall>ty. compiles E ty" "links E"
  shows "gl_errors (snd (create_program E g s)) = gl_errors s" "gl_errors (snd (create_objects E g s)) = gl_errors s"
  using assms by (simp_all add: create_program_def create_objects_def create_shader_def Let_def case_prod_unfold)

definition window_calls :: "glcall list" where
  "window_calls = [SdlInit, SetAttribute ''CONTEXT_MAJOR_VERSION'' 3, SetAttribute ''CONTEXT_MINOR_VERSION'' 3,
     SetAttribute ''DOUBLEBUFFER'' 1, SetAttribute ''DEPTH_SIZE'' 24, CreateWindow ''Window'' 512 480, CreateContext]"

definition started :: "gl_env \<Rightarrow> opengl" where
  "started E = \<lparr>gl_initialized = True, progid = new_name E 0, vbo = new_name E 4, vao = new_name E 3, ebo = new_name E 5\<rparr>"

definition start_calls :: "gl_env \<Rightarrow> glcall list" where
  "start_calls E = window_calls @ [SetSwapInterval 1] @ program_calls E 0 @ object_calls E 3 @
     [ClearColor [0, 0, 4, 10], UseProgram (new_name E 0), Uniform1i (new_name E 0) ''tex'' 0]"

lemma context_init_ok:
  assumes "0 \<le> sdl_init E" "glad_loads E"
  obtains s where "context_init E junk gl_start = (True, started E, s)" "gl_names s = 6" "gl_calls s = start_calls E"
proof
  let ?r = "context_init E junk gl_start"
  show "?r = (True, started E, snd (snd ?r))" "gl_names (snd (snd ?r)) = 6" "gl_calls (snd (snd ?r)) = start_calls E"
    using assms by (simp_all add: context_init_def gl_init_def opengl_new_def gl_start_def Let_def case_prod_unfold
        gl_ops started_def start_calls_def window_calls_def)
qed

lemma context_init_silent:
  assumes "0 \<le> sdl_init E" "glad_loads E" "\<forall>ty. compiles E ty" "links E"
  shows "gl_errors (snd (snd (context_init E junk gl_start))) = []"
  using assms by (simp add: context_init_def gl_init_def gl_start_def Let_def case_prod_unfold create_errors)

lemma context_init_fails:
  assumes "sdl_init E < 0 \<or> \<not> glad_loads E"
  obtains g s where "context_init E junk gl_start = (False, g, s)" "\<not> gl_initialized g"
    "gl_calls s = (if sdl_init E < 0 then [SdlInit] else window_calls @ [DeleteContext, DestroyWindow, SdlQuit])"
proof
  let ?r = "context_init E junk gl_start"
  show "?r = (False, opengl_new junk, snd (snd ?r))" "\<not> gl_initialized (opengl_new junk)"
    "gl_calls (snd (snd ?r)) = (if sdl_init E < 0 then [SdlInit] else window_calls @ [DeleteContext, DestroyWindow, SdlQuit])"
    using assms by (auto simp: context_init_def gl_init_def opengl_new_def gl_start_def Let_def window_calls_def)
qed

section \<open>What a session leaves behind\<close>

definition creates :: "video_call \<Rightarrow> bool" where
  "creates c = (case c of CreateTexture _ _ _ \<Rightarrow> True | _ \<Rightarrow> False)"

lemma gl_call_names: "gl_names (gl_call E g c s) = gl_names s + (if creates c then 1 else 0)"
  by (cases c) (simp_all add: gl_call_def creates_def gl_resize_def create_texture_def update_texture_def use_texture_def
      gl_draw_def Let_def case_prod_unfold)

lemma gl_call_held:
  "held E (gl_calls (gl_call E g c s)) =
   held E (gl_calls s) + (if creates c then {#R_Texture (new_name E (gl_names s))#} else {#})"
  by (cases c) (simp_all add: gl_call_def creates_def gl_resize_def create_texture_def update_texture_def use_texture_def
      gl_draw_def Let_def case_prod_unfold held_def ledger_def)

lemma session_held:
  "held E (gl_calls (fold (gl_call E g) vcs s)) = held E (gl_calls s) +
   mset (map (R_Texture \<circ> new_name E) [gl_names s ..< gl_names s + length (filter creates vcs)])"
proof (induction vcs arbitrary: s)
  case (Cons c vcs)
  show ?case
    by (cases "creates c") (simp_all add: Cons.IH gl_call_names gl_call_held upt_conv_Cons del: upt_Suc mset_map mset_upt)
qed simp

lemma window_held: "0 \<le> sdl_init E \<Longrightarrow> held E window_calls = {#R_Sdl, R_Window, R_Context#}"
  by (simp add: window_calls_def held_def ledger_def)

text \<open>The shaders that do not compile, of those created under the names from \<open>n\<close> on.\<close>

definition failed_shaders :: "gl_env \<Rightarrow> nat \<Rightarrow> resource multiset" where
  "failed_shaders E n =
     (if compiles E VERTEX_SHADER then {#} else {#R_Shader (new_name E n)#}) +
     (if compiles E FRAGMENT_SHADER then {#} else {#R_Shader (new_name E (n + 1))#})"

lemma program_held:
  assumes "\<forall>i. new_name E i \<noteq> 0" "\<forall>i. R_Shader i \<notin># M"
  shows "fold (ledger E) (program_calls E n) M = M + {#R_Program (new_name E n)#} + failed_shaders E (n + 1)"
  using assms by (cases "compiles E VERTEX_SHADER"; cases "compiles E FRAGMENT_SHADER")
    (simp_all add: program_calls_def failed_shaders_def ledger_def Let_def diff_single_trivial)

lemma object_held:
  "fold (ledger E) (object_calls E n) M =
   M + {#R_VertexArray (new_name E n), R_Buffer (new_name E (n + 1)), R_Buffer (new_name E (n + 2))#}"
  by (simp add: object_calls_def ledger_def Let_def)

lemma start_held:
  assumes "\<forall>i. new_name E i \<noteq> 0" "0 \<le> sdl_init E"
  shows "held E (start_calls E) = {#R_Program (new_name E 0)#} + failed_shaders E 1 +
    {#R_Sdl, R_Window, R_Context, R_VertexArray (new_name E 3), R_Buffer (new_name E 4), R_Buffer (new_name E 5)#}"
proof -
  have "fold (ledger E) window_calls {#} = {#R_Sdl, R_Window, R_Context#}"
    using window_held [OF assms(2)] by (simp add: held_def)
  moreover have "fold (ledger E) (program_calls E 0) {#R_Sdl, R_Window, R_Context#} =
    {#R_Sdl, R_Window, R_Context#} + {#R_Program (new_name E 0)#} + failed_shaders E 1"
    using program_held [OF assms(1), of _ 0] by simp
  ultimately show ?thesis
    by (simp add: held_def start_calls_def object_held ledger_def)
qed

text \<open>
  C24: a session with the graphics libraries gives back what it took, with three exceptions. (The ledger
  counts calls: OpenGL itself keeps a deleted shader for as long as the program it is attached to, and that
  program is never deleted.) When SDL or
  the loader fails nothing is held at exit. After a successful start, any calls of the interface
  and the destructor, SDL, the window, its context, the vertex array and both buffers are released;
  still held are the program object, every texture, and the shaders that did not compile.
\<close>

theorem session_resources:
  assumes "\<forall>i. new_name E i \<noteq> 0"
  shows "held E (gl_calls (gl_session E junk vcs)) =
    (if sdl_init E < 0 \<or> \<not> glad_loads E then {#}
     else {#R_Program (new_name E 0)#} + failed_shaders E 1 +
       mset (map (R_Texture \<circ> new_name E) [6 ..< 6 + length (filter creates vcs)]))"
proof (cases "sdl_init E < 0 \<or> \<not> glad_loads E")
  case True
  from context_init_fails [OF this] obtain g s where i: "context_init E junk gl_start = (False, g, s)" "\<not> gl_initialized g"
    "gl_calls s = (if sdl_init E < 0 then [SdlInit] else window_calls @ [DeleteContext, DestroyWindow, SdlQuit])" .
  then show ?thesis using True
    by (auto simp: gl_session_def gl_destroy_def held_def ledger_def window_calls_def)
next
  case False
  then have "0 \<le> sdl_init E" "glad_loads E" by auto
  from context_init_ok [OF this] obtain s where i: "context_init E junk gl_start = (True, started E, s)"
    "gl_names s = 6" "gl_calls s = start_calls E" .
  let ?s = "fold (gl_call E (started E)) vcs s"
  have "held E (gl_calls (gl_session E junk vcs)) = held E (gl_calls ?s) -
    {#R_Sdl, R_Context, R_Window, R_Buffer (new_name E 5), R_Buffer (new_name E 4), R_VertexArray (new_name E 3)#}"
    by (simp add: gl_session_def i(1) gl_destroy_def) (simp add: started_def held_def ledger_def)
  also have "held E (gl_calls ?s) = held E (start_calls E) +
    mset (map (R_Texture \<circ> new_name E) [6 ..< 6 + length (filter creates vcs)])"
    by (simp only: session_held i)
  finally show ?thesis using False assms by (simp add: start_held)
qed

text \<open>Libraries that number objects from 1, with a vertex shader that does not compile.\<close>

definition env_example :: gl_env where
  "env_example = \<lparr>sdl_init = 0, sdl_error = [], glad_loads = True, compiles = (\<lambda>t. t = FRAGMENT_SHADER), links = False,
     info_log = ''bad'', new_name = (\<lambda>n. if of_nat (n + 1) = (0 :: uint32) then 1 else of_nat (n + 1))\<rparr>"

theorem session_resources_witness:
  "held env_example (gl_calls (gl_session env_example (started env_example) [CreateTexture 256 240 None, Draw])) =
   {#R_Program 1, R_Shader 2, R_Texture 7#}"
  using session_resources [of env_example "started env_example" "[CreateTexture 256 240 None, Draw]"]
  by (simp add: env_example_def failed_shaders_def creates_def add_mset_commute)

section \<open>The interface is implemented\<close>

definition the_program :: "gl_env \<Rightarrow> uint32" where
  "the_program E = (if links E then new_name E 0 else 0)"

definition implements :: "gl_env \<Rightarrow> glstate \<Rightarrow> wanted \<Rightarrow> bool" where
  "implements E s w \<longleftrightarrow>
     (let v = fold (view_call E) (gl_calls s) view_start in
      gl_names s = 6 + w_names w \<and> v_bound v = w_current w \<and> v_image v = w_image w \<and>
      (\<forall>i. w_image w i \<noteq> None \<longrightarrow> i \<in> set (v_textures v)) \<and>
      (if links E then new_name E 0 \<in> set (v_linked v) else v_linked v = []) \<and>
      v_prog v = the_program E \<and> new_name E 3 \<in> set (v_vaos v) \<and>
      v_pictures v = map (\<lambda>p. (the_program E, new_name E 3, p)) (w_pictures w))"

lemma sub_image_whole [simp]: "sub_image w h d (Some (w, h, old)) = Some (w, h, Some d)"
  by (simp add: sub_image_def)

lemma sub_image_larger [simp]: "mw < w \<or> mh < h \<Longrightarrow> sub_image w h d (Some (mw, mh, old)) = Some (mw, mh, old)"
  by (auto simp: sub_image_def)

abbreviation tex_name :: "gl_env \<Rightarrow> nat \<Rightarrow> uint32" where
  "tex_name E \<equiv> \<lambda>k. new_name E (6 + k)"

lemma gl_call_implements:
  assumes "implements E s w" "proper c w"
  shows "implements E (gl_call E (started E) c s) (want (tex_name E) c w)"
  using assms
  by (cases c) (auto simp: implements_def gl_call_def gl_resize_def create_texture_def update_texture_def use_texture_def
      gl_draw_def Let_def case_prod_unfold started_def the_program_def)

lemma session_implements:
  assumes "implements E s w" "all_proper (tex_name E) vcs w"
  shows "implements E (fold (gl_call E (started E)) vcs s) (fold (want (tex_name E)) vcs w)"
  using assms by (induction vcs arbitrary: s w) (simp_all add: gl_call_implements)

text \<open>An update that does not fit selects the texture and stores nothing.\<close>

lemma larger_update_implements:
  assumes "implements E s u" "w_image u i = Some (mw, mh, old)" "mw < w \<or> mh < h"
  shows "implements E (gl_call E (started E) (UpdateTexture i w h d) s) (want (tex_name E) (UseTexture i) u)"
  using assms(1,2) sub_image_larger [OF assms(3), of d old]
  by (auto simp: implements_def gl_call_def update_texture_def use_texture_def Let_def)

lemma program_view:
  "fold (view_call E) (program_calls E n) v =
   v\<lparr>v_linked := (if links E then new_name E n # v_linked v else removeAll (new_name E n) (v_linked v))\<rparr>"
  by (cases "compiles E VERTEX_SHADER"; cases "compiles E FRAGMENT_SHADER") (simp_all add: program_calls_def Let_def)

lemma start_implements:
  assumes "gl_calls s = start_calls E" "gl_names s = 6"
  shows "implements E s want_start"
  using assms by (auto simp: implements_def start_calls_def program_view window_calls_def object_calls_def Let_def
      view_start_def want_start_def the_program_def)

lemma gl_destroy_pictures [simp]: "gl_pictures E (gl_calls (snd (gl_destroy g s))) = gl_pictures E (gl_calls s)"
  by (simp add: gl_destroy_def gl_pictures_def)

lemma session_of_implementation:
  assumes "0 \<le> sdl_init E" "glad_loads E"
    and "\<And>s. implements E s want_start \<Longrightarrow> implements E (fold (gl_call E (started E)) vcs s) u"
  shows "gl_pictures E (gl_calls (gl_session E junk vcs)) = map (\<lambda>p. (the_program E, new_name E 3, p)) (w_pictures u)"
proof -
  from context_init_ok [OF assms(1,2)] obtain s where i: "context_init E junk gl_start = (True, started E, s)"
    "gl_names s = 6" "gl_calls s = start_calls E" .
  have "implements E (fold (gl_call E (started E)) vcs s) u" by (intro assms(3) start_implements i)
  then have "gl_pictures E (gl_calls (fold (gl_call E (started E)) vcs s)) = map (\<lambda>p. (the_program E, new_name E 3, p)) (w_pictures u)"
    by (simp add: implements_def gl_pictures_def Let_def)
  then show ?thesis by (simp add: gl_session_def i(1))
qed

lemma session_pictures:
  assumes "0 \<le> sdl_init E" "glad_loads E" "all_proper (tex_name E) vcs want_start"
  shows "gl_pictures E (gl_calls (gl_session E junk vcs)) =
    map (\<lambda>p. (the_program E, new_name E 3, p)) (pictures (tex_name E) vcs)"
  unfolding pictures_def using assms by (intro session_of_implementation session_implements)

lemma larger_update_pictures:
  assumes "0 \<le> sdl_init E" "glad_loads E" "all_proper (tex_name E) vcs want_start"
    and "size_in (fold (want (tex_name E)) vcs want_start) i = Some (mw, mh)" "mw < w \<or> mh < h"
  shows "gl_pictures E (gl_calls (gl_session E junk (vcs @ [UpdateTexture i w h d, Draw]))) =
    map (\<lambda>p. (the_program E, new_name E 3, p)) (pictures (tex_name E) (vcs @ [UseTexture i, Draw]))"
  unfolding pictures_def
proof (rule session_of_implementation [OF assms(1,2)])
  fix s
  assume "implements E s want_start"
  moreover obtain old where "w_image (fold (want (tex_name E)) vcs want_start) i = Some (mw, mh, old)" using assms(4) by auto
  ultimately have "implements E (gl_call E (started E) (UpdateTexture i w h d) (fold (gl_call E (started E)) vcs s))
      (want (tex_name E) (UseTexture i) (fold (want (tex_name E)) vcs want_start))"
    using assms(3,5) by (intro larger_update_implements session_implements)
  from gl_call_implements [OF this, of Draw] show "implements E (fold (gl_call E (started E)) (vcs @ [UpdateTexture i w h d, Draw]) s)
      (fold (want (tex_name E)) (vcs @ [UseTexture i, Draw]) want_start)"
    by simp
qed

text \<open>Longer sequences of calls.\<close>

lemma pictures_append:
  "pictures name (vcs @ [UpdateTexture i w h d, Draw]) = pictures name vcs @ [Some (w, h, Some d)]"
  "pictures name (vcs @ [Viewport x y]) = pictures name vcs"
  "pictures name [CreateTexture w h data] = []"
  by (simp_all add: pictures_def want_start_def Let_def)

lemma all_proper_append [simp]:
  "all_proper name (vcs @ cs) s \<longleftrightarrow> all_proper name vcs s \<and> all_proper name cs (fold (want name) vcs s)"
  by (induction vcs arbitrary: s) simp_all

text \<open>
  C23: the back end implements the interface. It starts exactly when SDL does and the loader finds
  OpenGL, whether or not the shaders compile and link; otherwise it shows nothing. Given any sequence of resizes,
  texture creations, selections, draws, and updates of a texture's own size, it shows one picture per draw,
  and each is drawn with the vertices of the rectangle, the image that was stored last in the texture
  created, updated or selected last, and the program if it linked: without a linked program every draw
  is made with no program, and what it shows is not defined. An update that is wider or higher than
  its texture stores nothing, and the draw after it shows the old image.
\<close>

theorem session_shows_pictures:
  assumes "all_proper (\<lambda>k. new_name E (6 + k)) vcs want_start"
  shows "fst (context_init E junk gl_start) = (0 \<le> sdl_init E \<and> glad_loads E) \<and>
   gl_pictures E (gl_calls (gl_session E junk vcs)) =
     (if fst (context_init E junk gl_start)
      then map (\<lambda>p. (if links E then new_name E 0 else 0, new_name E 3, p)) (pictures (\<lambda>k. new_name E (6 + k)) vcs) else []) \<and>
   (\<forall>i mw mh w h d. size_in (fold (want (\<lambda>k. new_name E (6 + k))) vcs want_start) i = Some (mw, mh) \<and> (mw < w \<or> mh < h) \<longrightarrow>
      gl_pictures E (gl_calls (gl_session E junk (vcs @ [UpdateTexture i w h d, Draw]))) =
      gl_pictures E (gl_calls (gl_session E junk (vcs @ [UseTexture i, Draw]))))"
proof (cases "0 \<le> sdl_init E \<and> glad_loads E")
  case True
  then have ok: "0 \<le> sdl_init E" "glad_loads E" by simp_all
  have "all_proper (tex_name E) (vcs @ [UseTexture i, Draw]) want_start"
    if "size_in (fold (want (tex_name E)) vcs want_start) i = Some (mw, mh)" for i mw mh
    using assms that by auto
  then have "\<forall>i mw mh w h d. size_in (fold (want (tex_name E)) vcs want_start) i = Some (mw, mh) \<and> (mw < w \<or> mh < h) \<longrightarrow>
      gl_pictures E (gl_calls (gl_session E junk (vcs @ [UpdateTexture i w h d, Draw]))) =
      gl_pictures E (gl_calls (gl_session E junk (vcs @ [UseTexture i, Draw])))"
    using larger_update_pictures [OF ok assms] session_pictures [OF ok] by metis
  moreover have "fst (context_init E junk gl_start)" using context_init_ok [OF ok, of junk] by fastforce
  ultimately show ?thesis using session_pictures [OF ok assms, of junk] True unfolding the_program_def by simp
next
  case False
  then have "sdl_init E < 0 \<or> \<not> glad_loads E" by auto
  from context_init_fails [OF this] obtain g s where i: "context_init E junk gl_start = (False, g, s)" "\<not> gl_initialized g"
    "gl_calls s = (if sdl_init E < 0 then [SdlInit] else window_calls @ [DeleteContext, DestroyWindow, SdlQuit])" .
  then have "gl_pictures E (gl_calls (gl_session E junk vcs)) = []" for vcs using False
    by (auto simp: gl_session_def gl_destroy_def gl_pictures_def window_calls_def view_start_def)
  then show ?thesis using i(1) False by simp
qed

text \<open>A texture of two by two pixels is updated and drawn, then an image of four by four is put into it, with
  a program that links and with one that does not.\<close>

theorem session_shows_pictures_witness:
  "\<forall>ok d d'. let E = env_example\<lparr>links := ok\<rparr>; vcs = [CreateTexture 2 2 None, UpdateTexture 7 2 2 d, Draw];
       picture = (if ok then 1 else 0, 4, Some (2, 2, Some d))
     in gl_pictures E (gl_calls (gl_session E (started E) vcs)) = [picture] \<and>
        gl_pictures E (gl_calls (gl_session E (started E) (vcs @ [UpdateTexture 7 4 4 d', Draw]))) =
        gl_pictures E (gl_calls (gl_session E (started E) (vcs @ [UseTexture 7, Draw])))"
proof (intro allI)
  fix ok d d'
  let ?E = "env_example\<lparr>links := ok\<rparr>" and ?vcs = "[CreateTexture 2 2 None, UpdateTexture 7 2 2 d, Draw]"
  have n: "new_name ?E 0 = 1" "new_name ?E 3 = 4" "new_name ?E 6 = 7" "0 \<le> sdl_init ?E" "glad_loads ?E" "links ?E = ok"
    by (simp_all add: env_example_def)
  then have p: "all_proper (\<lambda>k. new_name ?E (6 + k)) ?vcs want_start" by (simp add: want_start_def Let_def)
  have s: "size_in (fold (want (\<lambda>k. new_name ?E (6 + k))) ?vcs want_start) 7 = Some (2, 2) \<and> ((2 :: nat) < 4 \<or> (2 :: nat) < 4)"
    and q: "pictures (\<lambda>k. new_name ?E (6 + k)) ?vcs = [Some (2, 2, Some d)]"
    using n by (simp_all add: want_start_def pictures_def Let_def)
  note t = session_shows_pictures [OF p, of "started ?E"]
  have "gl_pictures ?E (gl_calls (gl_session ?E (started ?E) ?vcs)) = [(if ok then 1 else 0, 4, Some (2, 2, Some d))]"
    using t [THEN conjunct1] t [THEN conjunct2, THEN conjunct1] n unfolding q by simp
  moreover note t [THEN conjunct2, THEN conjunct2, rule_format, OF s, of d']
  ultimately show "let E = ?E; vcs = ?vcs; picture = (if ok then 1 else 0, 4, Some (2, 2, Some d))
     in gl_pictures E (gl_calls (gl_session E (started E) vcs)) = [picture] \<and>
        gl_pictures E (gl_calls (gl_session E (started E) (vcs @ [UpdateTexture 7 4 4 d', Draw]))) =
        gl_pictures E (gl_calls (gl_session E (started E) (vcs @ [UseTexture 7, Draw])))"
    unfolding Let_def by (rule conjI)
qed

end
