(* ===== verification/MainProgram.thy ===== *)
theory MainProgram
  imports DebugMachine CmdLine OpenGl
begin

text \<open>
  The main program, \<^verbatim>\<open>emu/main.cpp\<close>: the arguments, the ROM file, the event loop. What the program
  gets from its surroundings is a record \<open>host\<close>: the arguments, the contents of the files, the answers of
  the graphics libraries, the lines typed at the debugger, and the events each polling loop finds.

  The event loop runs as long as it is given events: a list of polls that is used up before the
  program quits is \<open>OutOfFuel\<close>. It is written over the operations of the machine, because with the
  option \<^verbatim>\<open>-d\<close> the machine runs with the debugger attached.
\<close>

section \<open>The event loop\<close>






section \<open>The program\<close>
















section \<open>The loop shows every frame\<close>

definition shown :: "(nat \<Rightarrow> uint32) \<Rightarrow> vcontext \<Rightarrow> image list" where
  "shown name ctx = pictures name (video_calls ctx)"

lemma shown_calls [simp]:
  "shown name (impl_call Draw (impl_call (UpdateTexture i w h d) ctx)) = shown name ctx @ [Some (w, h, Some d)]"
  "shown name (context_resize x y ctx) = shown name ctx"
  "shown name (impl_call (CreateTexture w h data) context_new) = []"
  by (simp_all add: shown_def impl_call_def context_resize_def context_new_def pictures_append)









section \<open>From the command line to the screen\<close>
























end
