(* ===== verification/Picture.thy ===== *)
theory Picture
  imports Machine
begin

text \<open>
  The picture the machine shows: the facts of the locale \<open>rendering\<close> with the video memory of the
  machine, its character memory, its mirrored name tables and its palettes.
\<close>

unbundle bit_operations_syntax

text \<open>The byte at an address of the video bus, in a machine with mirroring \<open>mir\<close>.\<close>

definition video_byte :: "mirroring \<Rightarrow> memside \<Rightarrow> ppu \<Rightarrow> uint16 \<Rightarrow> uint8" where
  "video_byte mir m p a =
     (if a < 0x2000 then ha_elems (c_chrrom (ms_cart m)) (unat a)
      else if a < 0x3F00 then p_vrammem p (unat (the (decode mir a)))
      else p_palmem p (unat (a AND 0x1F)))"

lemma reads_video_byte:
  assumes "chr_ok (ms_cart m)" "mir \<noteq> OTHER" "vram_wired mir m"
  shows "picture.reads ns m (video_byte mir m p) p"
  unfolding picture.reads_def
proof (intro allI impI)
  fix a :: uint16
  assume a: "a < 0x4000"
  have r: "vread (emu_ppu_ports ns m) a p = run_vreader (fst (vram_handlers mir a)) a (ms_cart m) p"
    using a assms(3) by (simp add: emu_ppu_ports_def bus_read_def vram_wired_def)
  consider "a < 0x2000" | "\<not> a < 0x2000" "a < 0x3F00" | "\<not> a < 0x2000" "\<not> a < 0x3F00" by blast
  then show "vread (emu_ppu_ports ns m) a p = Some (video_byte mir m p a)"
  proof cases
    case 1
    then have "unat a < ha_len (c_chrrom (ms_cart m))" using assms(1) by (simp add: chr_ok_def word_less_nat_alt)
    then show ?thesis using 1 by (simp add: r vram_handlers_def read_chrrom_def ha_get_def video_byte_def)
  next
    case 2
    then show ?thesis using decode_total [OF assms(2), of a]
      by (auto simp: r vram_handlers_def nt_read_def video_byte_def)
  next
    case 3
    then show ?thesis by (simp add: r vram_handlers_def pal_read_def unat_and_0x1F video_byte_def)
  qed
qed

text \<open>
  C7: the picture as a function of the video memory. From the first cycle of a frame on, with the background
  shown, a vertical position inside a name table and a fine scroll below 7, the cycles of the 240 visible lines have a
  result and draw each pixel from column 26 on by this rule: two bits, one of each plane of the tiles fetched, select
  one of the four entries of the first palette, and the pixel is white if that entry is 0x30 and
  black otherwise. Line \<open>y\<close> fetches its tiles \<open>y\<close> rows below the first line in the plane of the name tables, and
  from two tiles right of the temporary address on (line 0: from the current address on). The
  bits are those of the function \<open>shown_bit\<close>: with fine scroll 0, of eight pixels the first
  repeats bit 6 of the tile before and the next seven are bits 0 to 6 of the tile. Attributes have no influence.
\<close>

theorem frame_picture:
  assumes "chr_ok (ms_cart m)" "mir \<noteq> OTHER" "vram_wired mir m"
    and "ppu_ok p" "p_cycles p mod 341 = 1" "p_lines p mod 262 = 0" "p_screen p = Some cv"
    and "unat (v_fine_x (p_vram p)) < 7" "io_bg_show (p_io p)" "unat (coarse_y (addr_of p)) < 30"
  shows "\<exists>p' cv'. ppu_runs (emu_ppu_ports ns m) (341 * 239 + 256) p e = Some (p', e) \<and> p_screen p' = Some cv' \<and>
    (\<forall>x y. 26 \<le> x \<and> x < 256 \<and> y < 240 \<longrightarrow>
       pixel cv' x y = rgba (if frame_color (video_byte mir m p) p x y = 0x30 then 0xFFFFFFFF else 0)) \<and>
    (\<forall>y n. vpos (tile_addr (at_row p y) n) = (vpos (addr_of p) + y) mod 480 \<and>
       hpos (tile_addr (at_row p y) n) = ((if y = 0 then hpos (addr_of p) else hpos (tmp_of p) + 2) + n) mod 64)"
proof -
  obtain p' cv' where f: "ppu_runs (emu_ppu_ports ns m) (341 * 239 + 256) p e = Some (p', e)" "p_screen p' = Some cv'"
    "drawn_above (video_byte mir m p) p 240 cv'"
    using picture.frame_pixels [OF reads_video_byte [OF assms(1-3)] assms(4-8), of ns e] by blast
  have "hstep (at_row p y) = inc_x" "addr_of (at_row p y) = row_addr p y" for y
    using assms(9) by (simp_all add: at_row_def fun_eq_iff hstep_def)
  then have t: "tile_addr (at_row p y) n = (inc_x ^^ n) (row_addr p y)" for y n by (simp add: tile_addr_def)
  have "vpos (tile_addr (at_row p y) n) = (vpos (addr_of p) + y) mod 480 \<and>
    hpos (tile_addr (at_row p y) n) = ((if y = 0 then hpos (addr_of p) else hpos (tmp_of p) + 2) + n) mod 64" for y n
    using hpos_steps [of n "row_addr p y"] same_vertical_vpos [of "(inc_x ^^ n) (row_addr p y)" "row_addr p y"]
      row_position [OF assms(9,10), of y] by (simp add: t mod_simps)
  then show ?thesis using f by (auto simp: drawn_above_def shade_def)
qed

text \<open>
  A machine whose tiles have only bit 0 set, in both planes, and whose palette is white for entry 3
  alone: the picture has white columns, among them column 27, and black ones, among them column 26.
\<close>

definition dots_mem :: memside where
  "dots_mem = demo_mem\<lparr>ms_cart := (ms_cart demo_mem)\<lparr>c_chrrom := rom_of (replicate 0x2000 1)\<rparr>\<rparr>"

definition dots_ppu :: ppu where
  "dots_ppu = ppu_zero\<lparr>p_cycles := 1, p_screen := Some (canvas_new (\<lambda>_. 0) 256 240), p_palmem := (\<lambda>_. 0)(3 := 0x30),
     p_io := (p_io ppu_zero)\<lparr>io_bg_show := True\<rparr>\<rparr>"

lemma dots_regs:
  "p_cycles dots_ppu = 1" "p_lines dots_ppu = 0" "p_screen dots_ppu = Some (canvas_new (\<lambda>_. 0) 256 240)"
  "addr_of dots_ppu = 0" "v_fine_x (p_vram dots_ppu) = 0" "io_bg_show (p_io dots_ppu)" "\<not> io_bg_pt_addr (p_io dots_ppu)"
  "p_vrammem dots_ppu = (\<lambda>_. 0)" "p_palmem dots_ppu = (\<lambda>_. 0)(3 := 0x30)"
  by (simp_all add: dots_ppu_def ppu_zero_def)

lemma less_0x2000:
  fixes a :: uint16
  assumes "\<And>n. bit a n \<Longrightarrow> n < 13"
  shows "a < 0x2000"
proof -
  have "take_bit 13 a = a" using assms by (intro bit_word_eqI) (auto simp: bit_simps)
  then have "unat a = take_bit 13 (unat a)" by (metis unsigned_take_bit_eq)
  also have "\<dots> < 2 ^ 13" by (rule take_bit_nat_less_exp)
  finally show ?thesis by (simp add: word_less_nat_alt)
qed

lemma pattern_addr_bounds: "low_addr b t v < 0x2000" "high_addr b t v < 0x2000"
proof -
  have eight: "bit (8 :: uint16) n \<Longrightarrow> n < 13" for n using bit_exp_iff [of 3 n, where ?'a = uint16] by simp
  show "low_addr b t v < 0x2000" "high_addr b t v < 0x2000"
    by (rule less_0x2000; auto simp: low_addr_def high_addr_def field_get_defs bit_simps bit_bf_get
        dest: bit_imp_le_length intro: eight)+
qed

lemma dots_color: "frame_color (video_byte VERT dots_mem dots_ppu) dots_ppu x y =
  (if line_bit (\<lambda>_. 1) dots_ppu x then 0x30 else 0)"
proof -
  let ?R = "video_byte VERT dots_mem dots_ppu" and ?r = "at_row dots_ppu y"
  have chr: "?R a = 1" if "a < 0x2000" for a
    using that by (simp add: video_byte_def dots_mem_def rom_of_def word_less_nat_alt)
  then have "tile_low ?R ?r = (\<lambda>_. 1)" "tile_high ?R ?r = (\<lambda>_. 1)"
    by (simp_all add: fun_eq_iff tile_low_def tile_high_def pattern_addr_bounds)
  moreover have "line_bit T ?r x = line_bit T dots_ppu x" for T by (simp add: line_bit_def at_row_def)
  moreover have "?R 0x3F00 = 0" "?R 0x3F03 = 0x30" by (simp_all add: video_byte_def dots_regs)
  ultimately show ?thesis by (simp add: frame_color_def line_color_def)
qed

theorem frame_picture_witness:
  "\<exists>p' cv'. ppu_runs (emu_ppu_ports (\<lambda>_. 0) dots_mem) (341 * 239 + 256) dots_ppu (demo_cpu, False) = Some (p', (demo_cpu, False)) \<and>
     p_screen p' = Some cv' \<and> pixel cv' 26 100 = rgba 0 \<and> pixel cv' 27 100 = rgba 0xFFFFFFFF"
proof -
  let ?cv = "canvas_new (\<lambda>_. 0) 256 240"
  have "chr_ok (ms_cart dots_mem)" by (simp add: dots_mem_def chr_ok_def rom_of_def)
  moreover have "vram_wired VERT dots_mem"
    using vrambus2_handlers [where jv = "\<lambda>_. 0" and mir = VERT] by (simp add: vram_wired_def dots_mem_def demo_mem_def)
  moreover have "canvas_ok ?cv" "tw ?cv = 256" "th ?cv = 240" by (simp_all add: canvas_ok_new) (simp_all add: canvas_new_def)
  then have "ppu_ok dots_ppu" by (simp add: ppu_ok_def timing_ok_def screen_ok_def fine_ok_def dots_ppu_def ppu_zero_def)
  moreover have "p_cycles dots_ppu mod 341 = 1" "p_lines dots_ppu mod 262 = 0" "unat (v_fine_x (p_vram dots_ppu)) < 7"
    "unat (coarse_y (addr_of dots_ppu)) < 30" by (simp_all add: dots_regs coarse_y_def bf_get_def)
  moreover have "line_bit (\<lambda>_. 1) dots_ppu 26 = False" "line_bit (\<lambda>_. 1) dots_ppu 27 = True"
    by (simp_all add: line_bit_def shown_bit_def dots_regs bit_1_iff)
  ultimately show ?thesis
    using frame_picture [of dots_mem VERT dots_ppu ?cv "\<lambda>_. 0" "(demo_cpu, False)"]
    by (fastforce simp: dots_regs dots_color)
qed

end
