(* ===== verification/FramePicture.thy ===== *)
theory FramePicture
  imports Picture
begin

text \<open>
  The picture of a frame of the machine. \<open>Emulator::run\<close> lets the processor execute an instruction and
  the picture unit catch up. When the processor leaves the picture unit alone, the unit runs through
  its cycles as if it were on its own, up to the interrupt that ends the frame, and the screen then
  holds the picture of theory \<open>Picture\<close>.
\<close>

unbundle bit_operations_syntax

section \<open>The picture unit on its own\<close>

text \<open>The state after \<open>n\<close> cycles, and whether the interrupt was signalled.\<close>

definition unit_runs :: "(int \<Rightarrow> uint8) \<Rightarrow> memside \<Rightarrow> nat \<Rightarrow> ppu \<Rightarrow> (ppu \<times> bool) option" where
  "unit_runs ns m n p = map_option (\<lambda>(p', x). (p', snd x)) (ppu_runs (emu_ppu_ports ns m) n p (cpu_default, False))"

lemma ppu_run_env:
  "\<exists>r b. \<forall>x. map_option (\<lambda>(p', x'). (p', snd x')) (ppu_run (emu_ppu_ports ns m) p x) = map_option (\<lambda>p'. (p', b \<or> snd x)) r"
proof -
  let ?P = "emu_ppu_ports ns m" and ?l = "p_lines p mod 262" and ?c = "p_cycles p mod 341"
  have c: "?c \<le> 340" using mod_less_divisor [of 341 "p_cycles p"] by linarith
  have "\<exists>r b. \<forall>x. map_option (\<lambda>(p', x'). (p', snd x')) (lcycle ?P ?l ?c p x) = map_option (\<lambda>p'. (p', b \<or> snd x)) r"
  proof (cases "?l = 241 \<and> ?c = 1")
    case True
    then show ?thesis by (intro exI [of _ "Some (with_io (\<lambda>i. i\<lparr>io_vblank := True\<rparr>) p)"] exI [of _ True])
        (simp add: lcycle_def vblank_begin_def emu_ppu_ports_def)
  next
    case False
    define r where "r = map_option fst (lcycle ?P ?l ?c p (cpu_default, False))"
    have "lcycle ?P ?l ?c p x = map_option (\<lambda>p'. (p', x)) r" for x
      using False c by (auto simp: r_def lcycle_def Let_def option.map_comp split: Option.bind_splits)
    then show ?thesis by (intro exI [of _ r] exI [of _ False]) (simp add: option.map_comp comp_def)
  qed
  then obtain r b where r: "map_option (\<lambda>(p', x'). (p', snd x')) (lcycle ?P ?l ?c p x) = map_option (\<lambda>p'. (p', b \<or> snd x)) r" for x
    by blast
  have "map_option (\<lambda>(p', x'). (p', snd x')) (ppu_run ?P p x) = map_option (\<lambda>p'. (p', b \<or> snd x)) (map_option tick r)" for x
    using r [of x] by (cases "lcycle ?P ?l ?c p x"; cases r) (auto simp: ppu_run_def tick_def Let_def)
  then show ?thesis by blast
qed

lemma ppu_runs_env:
  "\<exists>r. \<forall>x. map_option (\<lambda>(p', x'). (p', snd x')) (ppu_runs (emu_ppu_ports ns m) n p x) =
     map_option (\<lambda>(p', b). (p', b \<or> snd x)) r"
proof (induction n arbitrary: p)
  case 0
  show ?case by (intro exI [of _ "Some (p, False)"]) simp
next
  case (Suc n)
  obtain r b where r: "map_option (\<lambda>(p', x'). (p', snd x')) (ppu_run (emu_ppu_ports ns m) p x) =
    map_option (\<lambda>p'. (p', b \<or> snd x)) r" for x using ppu_run_env by blast
  show ?case
  proof (cases r)
    case None
    then have "ppu_run (emu_ppu_ports ns m) p x = None" for x using r [of x] by simp
    then show ?thesis by (intro exI [of _ None]) simp
  next
    case (Some q)
    obtain s where s: "map_option (\<lambda>(p', x'). (p', snd x')) (ppu_runs (emu_ppu_ports ns m) n q x) =
      map_option (\<lambda>(p', b). (p', b \<or> snd x)) s" for x using Suc.IH by blast
    have "map_option (\<lambda>(p', x'). (p', snd x')) (ppu_runs (emu_ppu_ports ns m) (Suc n) p x) =
      map_option (\<lambda>(p', c). (p', (c \<or> b) \<or> snd x)) s" for x
    proof -
      obtain y where "ppu_run (emu_ppu_ports ns m) p x = Some (q, y)" "snd y = (b \<or> snd x)"
        using r [of x] Some by auto
      then show ?thesis using s [of y] by (simp add: disj_assoc)
    qed
    then show ?thesis by (intro exI [of _ "map_option (\<lambda>(p', c). (p', c \<or> b)) s"]) (simp add: option.map_comp comp_def case_prod_unfold)
  qed
qed

lemma unit_runs_iff:
  "map_option (\<lambda>(p', x'). (p', snd x')) (ppu_runs (emu_ppu_ports ns m) n p x) =
   map_option (\<lambda>(p', b). (p', b \<or> snd x)) (unit_runs ns m n p)"
proof -
  obtain r where r: "map_option (\<lambda>(p', x'). (p', snd x')) (ppu_runs (emu_ppu_ports ns m) n p x) =
     map_option (\<lambda>(p', b). (p', b \<or> snd x)) r" for x using ppu_runs_env by blast
  have "unit_runs ns m n p = r" using r [of "(cpu_default, False)"] by (cases r) (auto simp: unit_runs_def)
  then show ?thesis using r by simp
qed

lemma unit_runs_some:
  assumes "ppu_runs (emu_ppu_ports ns m) n p x = Some (p', x')"
  obtains b where "unit_runs ns m n p = Some (p', b)" "snd x' = (b \<or> snd x)"
  using assms unit_runs_iff [of ns m n p x] that by (cases "unit_runs ns m n p") auto

lemma unit_runs_add:
  "unit_runs ns m (k + n) p = do { (q, b) \<leftarrow> unit_runs ns m k p; (r, c) \<leftarrow> unit_runs ns m n q; Some (r, c \<or> b) }"
proof (cases "ppu_runs (emu_ppu_ports ns m) k p (cpu_default, False)")
  case None
  then show ?thesis by (simp add: unit_runs_def ppu_runs_add)
next
  case (Some qx)
  obtain q x where [simp]: "qx = (q, x)" by (cases qx)
  have "unit_runs ns m (k + n) p = map_option (\<lambda>(p', x'). (p', snd x')) (ppu_runs (emu_ppu_ports ns m) n q x)"
    using Some by (simp add: unit_runs_def ppu_runs_add)
  moreover have "unit_runs ns m k p = Some (q, snd x)" using Some by (simp add: unit_runs_def)
  ultimately show ?thesis using unit_runs_iff [of ns m n q x] by (cases "unit_runs ns m n q") auto
qed

lemma unit_runs_ports: "ms_vrambus m' = ms_vrambus m \<Longrightarrow> ms_cart m' = ms_cart m \<Longrightarrow> unit_runs ns m' = unit_runs ns m"
  by (simp add: fun_eq_iff unit_runs_def emu_ppu_ports_def)

section \<open>From the last pixel to the interrupt\<close>

lemma step_screens:
  "p_screen (shift_fill P q) = p_screen q" "p_screen (shift_run q) = p_screen q"
  "p_screen (inc_v_horzpos q) = p_screen q" "p_screen (inc_v_vertpos q) = p_screen q"
  "p_screen (copy_v_horzpos q) = p_screen q" "p_screen (copy_v_vertpos q) = p_screen q" "p_screen (vblank_end q) = p_screen q"
  by (simp_all add: shift_fill_def shift_run_def inc_v_horzpos_def inc_v_vertpos_def copy_v_horzpos_def copy_v_vertpos_def
      vblank_end_def with_io_def with_addr_def with_vram_def Let_def)

lemma background_screen: "background_cycle P j q = Some q' \<Longrightarrow> p_screen q' = p_screen q"
  by (auto simp: background_cycle_def fetch_nt_def fetch_attr_def fetch_lowbg_def fetch_highbg_def
      split: if_splits Option.bind_splits)

lemma ccycle_screen:
  assumes "ccycle P c p = Some q" "4 \<le> c \<Longrightarrow> c \<le> 256 \<Longrightarrow> \<forall>p1. ppu_output P p = Some p1 \<longrightarrow> p_screen p1 = p_screen p"
  shows "p_screen q = p_screen p"
proof -
  define A where "A = (if 4 \<le> c \<and> c \<le> 256 then ppu_output P p else Some p)"
  define tail where "tail p2 = (let p = (if c mod 8 = 1 \<and> c \<noteq> 1 then shift_fill P p2 else p2);
      p = (if c mod 8 \<noteq> 1 then shift_run p else p); p = (if c mod 8 = 0 \<and> c \<noteq> 256 then inc_v_horzpos p else p)
    in if c = 256 then inc_v_vertpos p else p)" for p2
  have t: "p_screen (tail p2) = p_screen p2" for p2 by (simp add: tail_def Let_def step_screens)
  have a: "A = Some p1 \<Longrightarrow> p_screen p1 = p_screen p" for p1 using assms(2) by (auto simp: A_def split: if_splits)
  define C where "C \<longleftrightarrow> 1 \<le> c \<and> c \<le> 256 \<or> 321 \<le> c \<and> c \<le> 340"
  define body where "body = (if C then A \<bind> (\<lambda>p1. background_cycle P (c mod 8) p1 \<bind> (\<lambda>p2. Some (tail p2))) else Some p)"
  have "ccycle P c p = body \<bind> (\<lambda>p. Some (if c = 257 then copy_v_horzpos p else p))"
    by (simp only: ccycle_def A_def tail_def body_def C_def Let_def)
  then obtain r where r: "body = Some r" "q = (if c = 257 then copy_v_horzpos r else r)" using assms(1) by (cases body) auto
  have "p_screen r = p_screen p"
  proof (cases C)
    case True
    then obtain p1 p2 where "A = Some p1" "background_cycle P (c mod 8) p1 = Some p2" "r = tail p2"
      using r(1) unfolding body_def by (auto elim!: bind_SomeE)
    then show ?thesis using a t background_screen by metis
  next
    case False
    then show ?thesis using r(1) by (simp add: body_def)
  qed
  then show ?thesis by (simp add: r(2) step_screens)
qed

lemma ppu_run_no_draw:
  assumes "ppu_run P p x = Some (p', x')" "\<not> (p_lines p mod 262 < 240 \<and> p_cycles p mod 341 < 256)"
  shows "p_screen p' = p_screen p"
proof -
  define l c where "l = p_lines p mod 262" and "c = p_cycles p mod 341"
  have l: "\<not> (l < 240 \<and> c < 256)" "l < 262" and c: "c \<le> 340"
    using assms(2) mod_less_divisor [of 341 "p_cycles p"] by (simp_all add: l_def c_def)
  have "p_screen q = p_screen p" if "ppu_output P p = Some q" "c = 256 \<or> \<not> l < 240" for q
    using that by (auto simp: ppu_output_def Let_def l_def c_def split: option.splits if_splits Option.bind_splits)
  then have "p_screen q = p_screen p" if "ccycle P c p = Some q" for q using ccycle_screen [OF that] l by fastforce
  then have f: "p_screen q = p_screen p" if "run_cyclefunc P (cycletab ! c) p = Some q" for q
    using that c by (auto simp: cycletab_nth split: if_splits)
  have b: "begin_frame q = Some q' \<Longrightarrow> p_screen q' = p_screen q" for q q'
    by (auto simp: begin_frame_def Let_def split: if_splits)
  have "p_screen q = p_screen p" if "lcycle P l c p x = Some (q, y)" for q y
  proof (cases "run_cyclefunc P (cycletab ! c) p")
    case None
    then show ?thesis using that by (auto simp: lcycle_def vblank_begin_def with_io_def split: if_splits Option.bind_splits)
  next
    case (Some r)
    then show ?thesis using that f [OF Some] b
      by (auto simp: lcycle_def vblank_begin_def with_io_def step_screens Let_def split: if_splits Option.bind_splits)
  qed
  then show ?thesis using assms(1) l(2) by (auto simp: ppu_run_def Let_def l_def c_def split: Option.bind_splits)
qed

lemma unit_run:
  assumes "video_good m" "ppu_ok p" "frame_pos p < 89341"
  shows "\<exists>q. unit_runs ns m 1 p = Some (q, frame_pos p = 82182) \<and> ppu_ok q \<and> frame_pos q = frame_pos p + 1 \<and>
    (81756 \<le> frame_pos p \<longrightarrow> p_screen q = p_screen p)"
proof -
  have t: "timing_ok p" using assms(2) by (simp add: ppu_ok_def)
  obtain q where q: "ppu_run (emu_ppu_ports ns m) p (cpu_default, False) = Some (q, if at_nmi p then signal_nmi (cpu_default, False) else (cpu_default, False))"
    "ppu_ok q" "p_cycles q = (if at_frame_end p \<and> p_odd_frame p then 1 else p_cycles p + 1)"
    using video.ppu_run_step [OF assms(1,2)] by blast
  have "unit_runs ns m 1 p = Some (q, at_nmi p)" using q(1) by (simp add: unit_runs_def)
  moreover have "frame_pos q = frame_pos p + 1"
    using q(3) at_frame_end_pos [OF t] assms(3) by (auto simp: frame_pos_def mod_Suc)
  moreover have "p_screen q = p_screen p" if "81756 \<le> frame_pos p"
    using ppu_run_no_draw [OF q(1)] that frame_pos_split [OF t] by fastforce
  ultimately show ?thesis using q(2) at_nmi_pos [OF t] by auto
qed

text \<open>From the first cycle of a frame: when the interrupt comes, and that the screen does not change after the last line.\<close>

lemma unit_frame:
  assumes "video_good m" "ppu_ok p" "frame_pos p = 1" "n \<le> 89000"
  shows "\<exists>q. unit_runs ns m n p = Some (q, 82181 < n) \<and> ppu_ok q \<and> frame_pos q = n + 1"
  using assms(4)
proof (induction n)
  case 0
  then show ?case using assms(2,3) by (simp add: unit_runs_def)
next
  case (Suc n)
  then obtain q where q: "unit_runs ns m n p = Some (q, 82181 < n)" "ppu_ok q" "frame_pos q = n + 1" by auto
  obtain r where r: "unit_runs ns m 1 q = Some (r, frame_pos q = 82182)" "ppu_ok r" "frame_pos r = frame_pos q + 1"
    using unit_run [OF assms(1) q(2)] q(3) Suc.prems by fastforce
  then show ?case using unit_runs_add [of ns m n 1 p] q by auto
qed

lemma unit_rest:
  assumes "video_good m" "ppu_ok p" "frame_pos p = 81756" "n \<le> 1000"
  shows "\<exists>q b. unit_runs ns m n p = Some (q, b) \<and> ppu_ok q \<and> frame_pos q = 81756 + n \<and> p_screen q = p_screen p"
  using assms(4)
proof (induction n)
  case 0
  then show ?case using assms(2,3) by (auto simp: unit_runs_def)
next
  case (Suc n)
  then obtain q b where q: "unit_runs ns m n p = Some (q, b)" "ppu_ok q" "frame_pos q = 81756 + n" "p_screen q = p_screen p" by auto
  obtain r where r: "unit_runs ns m 1 q = Some (r, frame_pos q = 82182)" "ppu_ok r" "frame_pos r = frame_pos q + 1"
    "p_screen r = p_screen q" using unit_run [OF assms(1) q(2)] q(3) Suc.prems by fastforce
  then show ?case using unit_runs_add [of ns m n 1 p] q by auto
qed

text \<open>The screen after the frame, up to the interrupt and a little longer.\<close>

lemma unit_picture:
  assumes "chr_ok (ms_cart m)" "mir \<noteq> OTHER" "vram_wired mir m" "ppu_ok p" "frame_pos p = 1" "has_screen p"
    and "unat (v_fine_x (p_vram p)) < 7" "81755 \<le> n" "n \<le> 82700"
  shows "\<exists>q b cv. unit_runs ns m n p = Some (q, b) \<and> p_screen q = Some cv \<and> drawn_above (video_byte mir m p) p 240 cv"
proof -
  have good: "video_good m" using assms(1-3) by (auto simp: video_good_def)
  have "timing_ok p" using assms(4) by (simp add: ppu_ok_def)
  then have "341 * (p_lines p mod 262) + p_cycles p mod 341 = 1" using frame_pos_split assms(5) by simp
  then have pos: "p_cycles p mod 341 = 1" "p_lines p mod 262 = 0" by (auto simp: add_is_1)
  obtain cv0 where "p_screen p = Some cv0" using assms(6) by (auto simp: has_screen_def)
  from picture.frame_pixels [OF reads_video_byte [OF assms(1-3)] assms(4) pos this assms(7), of ns "(cpu_default, False)"]
  obtain r cv where r: "ppu_runs (emu_ppu_ports ns m) 81755 p (cpu_default, False) = Some (r, (cpu_default, False))"
    "p_screen r = Some cv" "drawn_above (video_byte mir m p) p 240 cv" by auto
  obtain r' where r': "unit_runs ns m 81755 p = Some (r', False)" "ppu_ok r'" "frame_pos r' = 81756"
    using unit_frame [OF good assms(4,5), of 81755 ns] by auto
  then have [simp]: "r' = r" using r(1) by (simp add: unit_runs_def)
  have "n - 81755 \<le> 1000" using assms(9) by linarith
  then obtain q b where "unit_runs ns m (n - 81755) r = Some (q, b)" "p_screen q = p_screen r"
    using unit_rest [OF good r'(2,3), of "n - 81755" ns] by auto
  then show ?thesis using unit_runs_add [of ns m 81755 "n - 81755" p] r' r(2,3) assms(8) by simp
qed

section \<open>The machine\<close>

text \<open>The next instruction leaves the picture unit alone; the two cycle counters agree.\<close>

definition calm :: "(int \<Rightarrow> uint8) \<Rightarrow> emulator \<Rightarrow> bool" where
  "calm ns e \<longleftrightarrow>
     (\<forall>c m. cpu_run (emu_ports ns None) (e_cpu e) (e_mem e) = Some (c, m) \<longrightarrow> ms_ppu m = ms_ppu (e_mem e))"

definition in_step :: "emulator \<Rightarrow> bool" where
  "in_step e \<longleftrightarrow> emu_ok e \<and> e_cycle e = to_int (r_cycles (e_cpu e))"

definition same_ports :: "memside \<Rightarrow> memside \<Rightarrow> bool" where
  "same_ports m m' \<longleftrightarrow> ms_vrambus m' = ms_vrambus m \<and> ms_cart m' = ms_cart m"

lemma calm_step:
  assumes "in_step e" "calm ns e" "emu_run ns None e = Some e'"
  shows "\<exists>k b. k \<le> 21 \<and> unit_runs ns (e_mem e) k (ms_ppu (e_mem e)) = Some (ms_ppu (e_mem e'), b) \<and>
    e_nmi e' = (b \<or> e_nmi e) \<and> in_step e' \<and> same_ports (e_mem e) (e_mem e')"
proof -
  have ok: "emu_ok e" "e_cycle e = to_int (r_cycles (e_cpu e))" using assms(1) by (simp_all add: in_step_def)
  obtain c m where cm: "cpu_run (emu_ports ns None) (e_cpu e) (e_mem e) = Some (c, m)"
    using assms(3) by (auto simp: emu_run_def elim!: bind_SomeE)
  have m: "ms_ppu m = ms_ppu (e_mem e)" "ms_vrambus m = ms_vrambus (e_mem e)" "ms_cart m = ms_cart (e_mem e)"
    using assms(2) cm cpu_run_mem_step [OF cm] by (simp_all add: calm_def mem_step_def)
  let ?d = "to_int (r_cycles c) - e_cycle e"
  have "int_fits ?d" using assms(3) cm by (auto simp: emu_run_def Let_def split: if_splits)
  moreover obtain n where n: "n \<le> 7" "r_cycles c = r_cycles (e_cpu e) + of_nat n" using cpu_run_progress [OF cm] by blast
  ultimately have d: "?d = int n" using to_int_add [of n "r_cycles (e_cpu e)"] ok(2) by (auto simp: int_fits_def split: if_splits)
  have good: "video_good m" "ppu_ok (ms_ppu m)"
    using mem_step_good [OF cpu_run_mem_step [OF cm]] ok(1) by (simp_all add: emu_ok_def)
  obtain p x where px: "ppu_runs (emu_ppu_ports ns m) (nat (?d * 3)) (ms_ppu m) (c, e_nmi e) = Some (p, x)" "r_cycles (fst x) = r_cycles c"
    using video_runs [OF good] by (metis fst_conv)
  have e': "e' = e\<lparr>e_cpu := fst x, e_mem := m\<lparr>ms_ppu := p\<rparr>, e_nmi := snd x, e_cycle := to_int (r_cycles c)\<rparr>"
    using assms(3) cm px(1) by (auto simp: emu_run_def Let_def case_prod_unfold split: if_splits)
  obtain b where b: "unit_runs ns m (nat (?d * 3)) (ms_ppu m) = Some (p, b)" "snd x = (b \<or> e_nmi e)"
    using unit_runs_some [OF px(1)] by auto
  have "unit_runs ns m = unit_runs ns (e_mem e)" using m(2,3) by (rule unit_runs_ports)
  then have "unit_runs ns (e_mem e) (3 * n) (ms_ppu (e_mem e)) = Some (ms_ppu (e_mem e'), b)"
    using b(1) m(1) unfolding d by (simp add: e' nat_mult_distrib mult.commute)
  moreover have "in_step e'" using emu_run_step(1) [OF ok(1) assms(3)] px(2) by (simp add: in_step_def e')
  ultimately show ?thesis using n(1) b(2) m by (intro exI [of _ "3 * n"] exI [of _ b]) (simp add: e' same_ports_def)
qed

text \<open>The states of a frame: the unit has run \<open>n\<close> cycles on its own; after the interrupt not much longer.\<close>

definition on_its_own :: "(int \<Rightarrow> uint8) \<Rightarrow> emulator \<Rightarrow> nat \<Rightarrow> emulator \<Rightarrow> bool" where
  "on_its_own ns e n e1 \<longleftrightarrow> in_step e1 \<and> same_ports (e_mem e) (e_mem e1) \<and>
     unit_runs ns (e_mem e) n (ms_ppu (e_mem e)) = Some (ms_ppu (e_mem e1), e_nmi e1) \<and>
     (e_nmi e1 \<longrightarrow> (\<exists>k q. n \<le> k + 21 \<and> unit_runs ns (e_mem e) k (ms_ppu (e_mem e)) = Some (q, False)))"

lemma frame_on_its_own:
  assumes "in_frame ns e e1" "in_step e" "\<not> e_nmi e" "\<forall>e1. in_frame ns e e1 \<and> \<not> e_nmi e1 \<longrightarrow> calm ns e1"
  shows "\<exists>n. on_its_own ns e n e1"
  using assms
proof (induction rule: in_frame.induct)
  case start
  then show ?case by (intro exI [of _ 0]) (simp add: on_its_own_def same_ports_def unit_runs_def)
next
  case (step e1 e2)
  then obtain n where n: "in_step e1" "same_ports (e_mem e) (e_mem e1)"
    "unit_runs ns (e_mem e) n (ms_ppu (e_mem e)) = Some (ms_ppu (e_mem e1), False)" by (auto simp: on_its_own_def)
  have "calm ns e1" using step by blast
  from calm_step [OF n(1) this step.hyps(3)] obtain k b where k: "k \<le> 21"
    "unit_runs ns (e_mem e1) k (ms_ppu (e_mem e1)) = Some (ms_ppu (e_mem e2), b)" "e_nmi e2 = b" "in_step e2"
    "same_ports (e_mem e1) (e_mem e2)" using step.hyps(2) by auto
  have "unit_runs ns (e_mem e1) = unit_runs ns (e_mem e)" using n(2) by (intro unit_runs_ports) (simp_all add: same_ports_def)
  then have "unit_runs ns (e_mem e) (n + k) (ms_ppu (e_mem e)) = Some (ms_ppu (e_mem e2), e_nmi e2)"
    using unit_runs_add [of ns "e_mem e" n k] n(3) k(2,3) by simp
  moreover have "same_ports (e_mem e) (e_mem e2)" using n(2) k(5) by (simp add: same_ports_def)
  moreover have "\<exists>i q. n + k \<le> i + 21 \<and> unit_runs ns (e_mem e) i (ms_ppu (e_mem e)) = Some (q, False)"
    using n(3) k(1) by (intro exI [of _ n] exI [of _ "ms_ppu (e_mem e1)"]) simp
  ultimately have "on_its_own ns e (n + k) e2" using k(4) by (simp only: on_its_own_def) simp
  then show ?case by blast
qed

text \<open>When the interrupt has just come, counted from the first cycle of the frame.\<close>

lemma interrupt_time:
  assumes "on_its_own ns e n e1" "e_nmi e1" "video_good (e_mem e)"
    and "unit_runs ns (e_mem e) j (ms_ppu (e_mem e)) = Some (p, False)" "ppu_ok p" "frame_pos p = 1"
  shows "j + 82181 < n \<and> n \<le> j + 82202"
proof -
  let ?U = "\<lambda>n. unit_runs ns (e_mem e) n"
  have f: "k \<le> 89000 \<Longrightarrow> \<exists>q. ?U (j + k) (ms_ppu (e_mem e)) = Some (q, 82181 < k)" for k
    using unit_frame [OF assms(3,5,6), of k ns] unit_runs_add [of ns "e_mem e" j k] assms(4) by auto
  have n: "?U n (ms_ppu (e_mem e)) = Some (ms_ppu (e_mem e1), True)" using assms(1,2) by (simp add: on_its_own_def)
  have "j + 82181 < n"
  proof (rule ccontr)
    assume "\<not> j + 82181 < n"
    then consider "n < j" | "j \<le> n" "n - j \<le> 82181" by linarith
    then show False
    proof cases
      case 1
      then show ?thesis using unit_runs_add [of ns "e_mem e" n "j - n" "ms_ppu (e_mem e)"] n assms(4)
        by (auto split: Option.bind_splits)
    next
      case 2
      then show ?thesis using f [of "n - j"] n by auto
    qed
  qed
  moreover obtain k q where k: "n \<le> k + 21" "?U k (ms_ppu (e_mem e)) = Some (q, False)"
    using assms(1,2) by (auto simp: on_its_own_def)
  have "k \<le> j + 82181"
  proof (rule ccontr)
    assume "\<not> k \<le> j + 82181"
    then have "k = (j + 82182) + (k - (j + 82182))" by linarith
    moreover obtain r where "?U (j + 82182) (ms_ppu (e_mem e)) = Some (r, True)" using f [of 82182] by auto
    ultimately show False using unit_runs_add [of ns "e_mem e" "j + 82182" "k - (j + 82182)" "ms_ppu (e_mem e)"] k(2)
      by (auto split: Option.bind_splits)
  qed
  ultimately show ?thesis using k(1) by linarith
qed

text \<open>
  C6: the picture of a frame of the whole machine. Let \<open>e\<close> be the machine at an instruction shortly
  before a frame starts, and let the picture unit reach the first cycle of the frame as \<open>p\<close>. When the
  processor leaves the picture unit alone until the interrupt, \<^verbatim>\<open>run_frame\<close> returns with the screen that
  the video memory of \<open>p\<close> describes: every pixel from column 26 on is that of theory \<open>PpuLine\<close>,
  for a fine scroll below 7.
\<close>

theorem run_frame_picture:
  assumes "emu_ok e" "e_cycle e = to_int (r_cycles (e_cpu e))" "\<not> e_quit e" "\<not> e_nmi e"
    and "mir \<noteq> OTHER" "vram_wired mir (e_mem e)" "has_screen (ms_ppu (e_mem e))"
    and "ppu_runs (emu_ppu_ports ns (e_mem e)) j (ms_ppu (e_mem e)) (e_cpu e, False) = Some (p, (c, False))"
    and "frame_pos p = 1" "unat (v_fine_x (p_vram p)) < 7"
    and "\<forall>e1. in_frame ns e e1 \<and> \<not> e_nmi e1 \<longrightarrow> runnable ns e1 \<and> calm ns e1"
  shows "\<exists>e' cv. run_frame ns None 29782 e = Done e' \<and> p_screen (ms_ppu (e_mem e')) = Some cv \<and>
    (\<forall>x y. 26 \<le> x \<and> x < 256 \<and> y < 240 \<longrightarrow>
       pixel cv x y = rgba (if frame_color (video_byte mir (e_mem e) p) p x y = 0x30 then 0xFFFFFFFF else 0))"
proof -
  have good: "video_good (e_mem e)" "chr_ok (ms_cart (e_mem e))" "ppu_ok (ms_ppu (e_mem e))"
    using assms(1) by (simp_all add: emu_ok_def video_good_def)
  have p: "ppu_ok p" "has_screen p" using video_runs [OF good(1,3)] assms(7,8) by (metis Pair_inject option.inject)+
  have j: "unit_runs ns (e_mem e) j (ms_ppu (e_mem e)) = Some (p, False)" using unit_runs_some [OF assms(8)] by auto
  obtain e1 where e1: "in_frame ns e e1" "e_nmi e1" "run_frame ns None 29782 e = Done (e1\<lparr>e_nmi := False\<rparr>)"
    using run_frame_done [OF assms(1,3)] assms(11) by blast
  have "in_step e" using assms(1,2) by (simp add: in_step_def)
  then obtain n where n: "on_its_own ns e n e1" using frame_on_its_own [OF e1(1) _ assms(4)] assms(11) by blast
  have b: "j \<le> n" "81755 \<le> n - j" "n - j \<le> 82700" using interrupt_time [OF n e1(2) good(1) j p(1) assms(9)] by linarith+
  from unit_picture [OF good(2) assms(5,6) p(1) assms(9) p(2) assms(10) b(2,3), of ns] obtain q s cv where
    q: "unit_runs ns (e_mem e) (n - j) p = Some (q, s)" "p_screen q = Some cv" "drawn_above (video_byte mir (e_mem e) p) p 240 cv"
    by blast
  have "ms_ppu (e_mem e1) = q"
    using n unit_runs_add [of ns "e_mem e" j "n - j" "ms_ppu (e_mem e)"] j q(1) b(1) by (simp add: on_its_own_def)
  then show ?thesis using e1(3) q(2,3) by (auto simp: drawn_above_def shade_def)
qed

text \<open>The small machine with a screen, tiles without a pixel, and a white background: all its pixels become white.\<close>

definition show_ppu :: ppu where
  "show_ppu = ppu_zero\<lparr>p_screen := Some (canvas_new (\<lambda>_. 0) 256 240), p_palmem := (\<lambda>_. 0)(0 := 0x30)\<rparr>"

definition show_machine :: emulator where
  "show_machine = demo\<lparr>e_mem := demo_mem\<lparr>ms_ppu := show_ppu\<rparr>\<rparr>"

lemma show_simps [simp]:
  "e_mem show_machine = demo_mem\<lparr>ms_ppu := show_ppu\<rparr>" "e_cpu show_machine = e_cpu demo" "\<not> e_quit show_machine"
  "\<not> e_nmi show_machine" "e_cycle show_machine = e_cycle demo"
  by (simp_all add: show_machine_def demo_def)

lemma show_nop_state: "nop_state show_machine 0"
proof -
  have c: "canvas_ok (canvas_new (\<lambda>_. 0) 256 240)" by (simp add: canvas_ok_new)
  have "tw (canvas_new (\<lambda>_. 0) 256 240) = 256" "th (canvas_new (\<lambda>_. 0) 256 240) = 240" by (simp_all add: canvas_new_def)
  with c have "ppu_ok show_ppu" by (simp add: ppu_ok_def timing_ok_def screen_ok_def fine_ok_def show_ppu_def ppu_zero_def)
  moreover have "video_good (demo_mem\<lparr>ms_ppu := show_ppu\<rparr>)"
    using demo_video_good by (simp add: video_good_def vram_wired_def)
  moreover have "synced show_machine" using demo_ok by (simp add: emu_ok_def synced_def)
  ultimately have "emu_ok show_machine" by (simp add: emu_ok_def)
  then show ?thesis using demo_nop_state until_nmi_bound [of show_ppu] by (auto simp: nop_state_def)
qed

lemma nop_state_calm: "nop_state e k \<Longrightarrow> calm ns e"
proof -
  assume "nop_state e k"
  then obtain p where p: "e_mem e = demo_mem\<lparr>ms_ppu := p\<rparr>" "e_cpu e = nop_cpu k" "k < 30000" by (auto simp: nop_state_def)
  from nop_runs [OF p, of ns] show ?thesis by (simp add: calm_def)
qed

lemma show_color: "frame_color (video_byte VERT (demo_mem\<lparr>ms_ppu := q\<rparr>) (show_ppu\<lparr>p_cycles := 1\<rparr>)) (show_ppu\<lparr>p_cycles := 1\<rparr>) x y = 0x30"
proof -
  let ?p = "show_ppu\<lparr>p_cycles := 1\<rparr>"
  let ?R = "video_byte VERT (demo_mem\<lparr>ms_ppu := q\<rparr>) ?p" and ?r = "at_row ?p y"
  have "?R a = 0" if "a < 0x2000" for a
    using that by (simp add: video_byte_def demo_mem_def rom_of_def word_less_nat_alt)
  then have "tile_low ?R ?r = (\<lambda>_. 0)" "tile_high ?R ?r = (\<lambda>_. 0)"
    by (simp_all add: fun_eq_iff tile_low_def tile_high_def pattern_addr_bounds)
  moreover have "?R 0x3F00 = 0x30" by (simp add: video_byte_def) (simp add: show_ppu_def)
  ultimately show ?thesis by (simp add: frame_color_def line_color_def line_bit_def shown_bit_def)
qed

theorem run_frame_picture_witness:
  "\<exists>e' cv. run_frame (\<lambda>_. 0) None 29782 show_machine = Done e' \<and> p_screen (ms_ppu (e_mem e')) = Some cv \<and>
     pixel cv 26 0 = rgba 0xFFFFFFFF \<and> pixel cv 255 239 = rgba 0xFFFFFFFF"
proof -
  let ?m = "demo_mem\<lparr>ms_ppu := show_ppu\<rparr>" and ?p = "show_ppu\<lparr>p_cycles := 1\<rparr>"
  have s: "emu_ok show_machine" "e_cycle show_machine = to_int (r_cycles (e_cpu show_machine))"
    using show_nop_state by (simp_all add: nop_state_def)
  have w: "vram_wired VERT (e_mem show_machine)"
    using vrambus2_handlers [where jv = "\<lambda>_. 0" and mir = VERT] by (simp add: vram_wired_def demo_mem_def)
  have run: "ppu_runs (emu_ppu_ports (\<lambda>_. 0) (e_mem show_machine)) 1 (ms_ppu (e_mem show_machine)) (e_cpu show_machine, False) =
    Some (?p, (e_cpu show_machine, False))"
    by (simp add: ppu_run_def lcycle_def cycletab_nth show_ppu_def ppu_zero_def)
  have p: "has_screen (ms_ppu (e_mem show_machine))" "frame_pos ?p = 1" "unat (v_fine_x (p_vram ?p)) < 7"
    by (simp_all add: has_screen_def frame_pos_def show_ppu_def ppu_zero_def)
  have "\<forall>e1. in_frame (\<lambda>_. 0) show_machine e1 \<and> \<not> e_nmi e1 \<longrightarrow> runnable (\<lambda>_. 0) e1 \<and> calm (\<lambda>_. 0) e1"
    using nop_in_frame [OF _ show_nop_state] nop_state_runnable nop_state_calm by blast
  from run_frame_picture [OF s _ _ _ w p(1) run p(2,3) this] show ?thesis
    by (fastforce simp: show_color simp del: One_nat_def)
qed

end
