(* ===== verification/CpuProgram.thy ===== *)
theory CpuProgram
  imports Machine
begin

text \<open>
  Programs on the machine. The processor on the machine's bus implements the documented 6502
  (through the interpretation of the locale \<open>cpu_memory\<close>), and so does the whole machine: the picture
  unit that runs between the instructions changes nothing a program sees in plain memory, so a
  frame of \<^verbatim>\<open>Emulator::run_frame\<close> executes the program of the specification up to the vertical blank.
\<close>

unbundle bit_operations_syntax

section \<open>One instruction of the processor\<close>

definition program_view :: "cpu \<Rightarrow> memside \<Rightarrow> mos" where
  "program_view c m = mos_of (plain_mem (mem_peek m)) c"

text \<open>
  C5: the processor of the machine implements the documented 6502. For every documented opcode but
  \<^verbatim>\<open>BRK\<close>, one call of \<^verbatim>\<open>run\<close> with no interrupt due has a result, and registers, flags, program counter and
  memory afterwards are those of the specification: same decoding, same effective address, same
  arithmetic, same stack. The conditions: opcode, operands and the accessed address lie outside the
  registers of the picture unit, a stored-to address in RAM or the sound registers, a modified one in
  RAM, a zero page operand plus its index and both bytes of a pointer stay in the zero page, and bit 5 of the status is set when \<^verbatim>\<open>PHP\<close> pushes it.
  Overflow after \<^verbatim>\<open>SBC\<close>, and negative and zero after \<^verbatim>\<open>BIT\<close> and \<^verbatim>\<open>TXS\<close>, are not compared.
\<close>

theorem cpu_implements_6502:
  assumes "mem_ok m" "\<not> execnmi c" "\<not> execirq c" "plain (r_pc c)" "decode6502 (mem_peek m (r_pc c)) = Some e"
    and "ordinary e ((program_view c m)\<lparr>pPC := r_pc c + 1\<rparr>)" "e = IMPLD I_php \<Longrightarrow> f_unused (r_flags c)"
  shows "\<exists>c' m' s. cpu_run (emu_ports ns None) c m = Some (c', m') \<and> mem_ok m' \<and>
    mos_step (program_view c m) = Some s \<and> blur e (program_view c' m') = blur e s"
  using mem.run_refines [OF assms(1-5)] assms(6,7) unfolding program_view_def by blast

section \<open>One instruction of the machine\<close>

abbreviation emu_view :: "emulator \<Rightarrow> mos" where
  "emu_view e \<equiv> program_view (e_cpu e) (e_mem e)"

text \<open>The picture unit touches the processor by raising the interrupt line, and no memory a program sees.\<close>

lemma ppu_runs_line:
  assumes "video_good m" "ppu_ok p" "ppu_runs (emu_ppu_ports ns m) n p x = Some (p', x')"
  shows "x' = x \<or> x' = signal_nmi x"
  using assms(2,3)
proof (induction n arbitrary: p x)
  case (Suc n)
  obtain q where q: "ppu_run (emu_ppu_ports ns m) p x = Some (q, if at_nmi p then signal_nmi x else x)" "ppu_ok q"
    using video.ppu_run_step [OF assms(1) Suc.prems(1)] by blast
  have "signal_nmi (signal_nmi x) = signal_nmi x"
    by (simp add: signal_nmi_def fire_nmi_def case_prod_unfold)
  moreover have "x' = (if at_nmi p then signal_nmi x else x) \<or> x' = signal_nmi (if at_nmi p then signal_nmi x else x)"
    using Suc.IH [OF q(2)] Suc.prems(2) q(1) by simp
  ultimately show ?case by (cases "at_nmi p") auto
qed simp

lemma program_view_ppu [simp]: "program_view c (m\<lparr>ms_ppu := p\<rparr>) = program_view c m"
proof -
  have "mem_peek (m\<lparr>ms_ppu := p\<rparr>) = mem_peek m" by (rule ext) (simp add: mem_peek_def)
  then show ?thesis by (simp add: program_view_def)
qed

lemma program_view_nmi [simp]: "program_view (fire_nmi c) m = program_view c m"
  by (simp add: program_view_def fire_nmi_def mos_of_def)

text \<open>How far the processor is ahead of the counter of the machine.\<close>

definition ahead :: "nat \<Rightarrow> emulator \<Rightarrow> bool" where
  "ahead k e \<longleftrightarrow> k < 2 ^ 16 \<and> e_cycle e = to_int (r_cycles (e_cpu e) - of_nat k)"

lemma counter_advances:
  assumes "ahead k e" "r_cycles c = r_cycles (e_cpu e) + of_nat n" "n \<le> 7" "e_cycle e + int k + 7 < 2 ^ 31"
  shows "to_int (r_cycles c) = e_cycle e + int k + int n"
proof -
  have c: "r_cycles c = r_cycles (e_cpu e) - of_nat k + of_nat (n + k)" using assms(2) by simp
  have "n + k < 2 ^ 31" using assms(1,3) by (simp add: ahead_def)
  from to_int_add [OF this, of "r_cycles (e_cpu e) - of_nat k"] show ?thesis
    using assms(1,3,4) unfolding c ahead_def by simp
qed

lemma emu_run_tame:
  assumes "emu_ok e" "mem_ok (e_mem e)" "undisturbed (e_cpu e)" "tame_step (emu_view e)"
    and "ahead k e" "e_cycle e + int k + 7 < 2 ^ 31"
  shows "\<exists>e'. emu_run ns None e = Some e' \<and> emu_ok e' \<and> mem_ok (e_mem e') \<and> (e_nmi e' \<or> undisturbed (e_cpu e')) \<and>
    mos_step (emu_view e) = Some (emu_view e') \<and> ahead 0 e' \<and> e_cycle e' \<le> e_cycle e + int k + 7 \<and>
    e_quit e' = e_quit e \<and> (e_nmi e' \<or> until_nmi (ms_ppu (e_mem e')) + 3 \<le> until_nmi (ms_ppu (e_mem e)))"
proof -
  obtain c m where cm: "cpu_run (emu_ports ns None) (e_cpu e) (e_mem e) = Some (c, m)" "mem_ok m" "undisturbed c"
    "mos_step (emu_view e) = Some (program_view c m)"
    using mem.tame_step_refines [OF assms(2,3), of ns] assms(4) unfolding program_view_def by blast
  obtain n where n: "1 \<le> n" "n \<le> 7" "r_cycles c = r_cycles (e_cpu e) + of_nat n"
    using cpu_run_progress [OF cm(1)] by blast
  have t: "to_int (r_cycles c) = e_cycle e + int k + int n" by (rule counter_advances [OF assms(5) n(3,2) assms(6)])
  have "k < 2 ^ 16" using assms(5) by (simp add: ahead_def)
  then have "int_fits (to_int (r_cycles c) - e_cycle e)" unfolding t using n(2) by (simp add: int_fits_def)
  then have "runnable ns e" by (simp add: runnable_def cm(1))
  then obtain e' where e': "emu_run ns None e = Some e'" using emu_run_runnable [OF assms(1)] by blast
  note s = emu_run_step [OF assms(1) e']
  have good: "video_good m" "ppu_ok (ms_ppu m)"
    using mem_step_good [OF cpu_run_mem_step [OF cm(1)]] assms(1) by (simp_all add: emu_ok_def)
  obtain p x where px: "ppu_runs (emu_ppu_ports ns m) (nat ((to_int (r_cycles c) - e_cycle e) * 3)) (ms_ppu m) (c, e_nmi e) = Some (p, x)"
    "e' = e\<lparr>e_cpu := fst x, e_mem := m\<lparr>ms_ppu := p\<rparr>, e_nmi := snd x, e_cycle := to_int (r_cycles c)\<rparr>"
    using e' cm(1) by (auto simp: emu_run_def Let_def split: if_splits elim!: bind_SomeE)
  have x: "x = (c, e_nmi e) \<or> x = (fire_nmi c, True)"
    using ppu_runs_line [OF good px(1)] by (simp add: signal_nmi_def)
  have "mem_ok (m\<lparr>ms_ppu := p\<rparr>)" using cm(2) by (simp add: mem_ok_def ram_wired_def)
  moreover have "ahead 0 e'" using x by (auto simp: ahead_def px(2) fire_nmi_def)
  ultimately show ?thesis using e' s x cm(3,4) n(2) t by (intro exI [of _ e']) (auto simp: px(2))
qed

section \<open>One frame\<close>

lemma run_until_nmi_program:
  assumes "emu_ok e" "mem_ok (e_mem e)" "undisturbed (e_cpu e)" "tame n (emu_view e)"
    and "ahead k e" "e_cycle e + int k + 7 * int n < 2 ^ 31" "until_nmi (ms_ppu (e_mem e)) < 3 * n"
  shows "\<exists>e' j. run_until_nmi ns None (n + 1) e = Done e' \<and> e_nmi e' \<and> emu_ok e' \<and> mem_ok (e_mem e') \<and>
    e_quit e' = e_quit e \<and> j \<le> n \<and> mos_run j (emu_view e) = Some (emu_view e')"
  using assms
proof (induction n arbitrary: e k)
  case (Suc n)
  show ?case
  proof (cases "e_nmi e")
    case True
    then show ?thesis using Suc.prems(1,2) by (intro exI [of _ e] exI [of _ 0]) simp
  next
    case False
    have "tame_step (emu_view e)" "e_cycle e + int k + 7 < 2 ^ 31" using Suc.prems(4,6) by simp_all
    from emu_run_tame [OF Suc.prems(1-3) this(1) Suc.prems(5) this(2), of ns] obtain e' where
      e': "emu_run ns None e = Some e'" "emu_ok e'" "mem_ok (e_mem e')" "e_nmi e' \<or> undisturbed (e_cpu e')"
      "mos_step (emu_view e) = Some (emu_view e')" "ahead 0 e'" "e_cycle e' \<le> e_cycle e + int k + 7"
      "e_quit e' = e_quit e" "e_nmi e' \<or> until_nmi (ms_ppu (e_mem e')) + 3 \<le> until_nmi (ms_ppu (e_mem e))" by blast
    show ?thesis
    proof (cases "e_nmi e'")
      case True
      then show ?thesis using e' False by (intro exI [of _ e'] exI [of _ "Suc 0"]) simp
    next
      case no: False
      have "tame n (emu_view e')" using Suc.prems(4) e'(5) by simp
      moreover have "e_cycle e' + int 0 + 7 * int n < 2 ^ 31" using Suc.prems(6) e'(7) by simp
      moreover have "until_nmi (ms_ppu (e_mem e')) < 3 * n" using Suc.prems(7) e'(9) no by simp
      ultimately obtain e2 j where "run_until_nmi ns None (n + 1) e' = Done e2" "e_nmi e2" "emu_ok e2" "mem_ok (e_mem e2)"
        "e_quit e2 = e_quit e'" "j \<le> n" "mos_run j (emu_view e') = Some (emu_view e2)"
        using Suc.IH [OF e'(2,3) _ _ e'(6)] e'(4) no by blast
      then show ?thesis using e' False by (intro exI [of _ e2] exI [of _ "Suc j"]) simp
    qed
  qed
qed simp

text \<open>
  C4: a frame of the machine executes the program. When its next 29,781 instructions on the documented
  processor satisfy the conditions of the previous property and are none of \<^verbatim>\<open>SBC\<close>, \<^verbatim>\<open>BIT\<close>, \<^verbatim>\<open>TXS\<close> and \<^verbatim>\<open>BRK\<close>, no
  undocumented opcode and no indexed zero page access that would wrap, when the status bytes they pull have bit 5 set, no interrupt is due and the cycle counter is not about to
  overflow, then \<^verbatim>\<open>run_frame\<close> returns, and what the program sees afterwards is what the specification
  reaches after some number of its steps: the picture unit that ran in between did not interfere.
\<close>

theorem run_frame_program:
  assumes "emu_ok e" "mem_ok (e_mem e)" "undisturbed (e_cpu e)" "\<not> e_quit e" "tame 29781 (emu_view e)"
    and "ahead k e" "e_cycle e + int k + 7 * 29781 < 2 ^ 31"
  shows "\<exists>e' j. run_frame ns None 29782 e = Done e' \<and> emu_ok e' \<and> mem_ok (e_mem e') \<and> j \<le> 29781 \<and>
    mos_run j (emu_view e) = Some (emu_view e')"
proof -
  have "until_nmi (ms_ppu (e_mem e)) < 3 * 29781" using until_nmi_bound [of "ms_ppu (e_mem e)"] by simp
  moreover have "e_cycle e + int k + 7 * int 29781 < 2 ^ 31" using assms(7) by simp
  ultimately obtain e1 j where "run_until_nmi ns None (29781 + 1) e = Done e1" "emu_ok e1" "mem_ok (e_mem e1)"
    "j \<le> 29781" "mos_run j (emu_view e) = Some (emu_view e1)"
    using run_until_nmi_program [OF assms(1-3,5,6)] by blast
  then show ?thesis using assms(4)
    by (intro exI [of _ "e1\<lparr>e_nmi := False\<rparr>"] exI [of _ j]) (simp add: run_frame_def emu_ok_def synced_def)
qed

section \<open>Witnesses\<close>

text \<open>An addition in RAM.\<close>

definition adc_mem :: memside where
  "adc_mem = demo_mem\<lparr>ms_ram := (\<lambda>_. 0)(0x200 := 0x69, 0x201 := 5)\<rparr>"

lemma adc_mem_ok: "mem_ok adc_mem"
  using demo_mem_ok by (simp add: adc_mem_def mem_ok_def ram_wired_def)

lemma adc_mem_peek: "mem_peek adc_mem 0x200 = 0x69" "mem_peek adc_mem 0x201 = 5"
  by (simp_all add: adc_mem_def mem_peek_def)

theorem cpu_implements_6502_witness:
  "\<exists>c' m'. cpu_run (emu_ports (\<lambda>_. 0) None) (demo_cpu\<lparr>r_pc := 0x200, r_acc := 0xFE\<rparr>) adc_mem = Some (c', m') \<and>
     pA (program_view c' m') = 3 \<and> pC (program_view c' m') \<and> pPC (program_view c' m') = 0x202"
proof -
  let ?c = "demo_cpu\<lparr>r_pc := 0x200, r_acc := 0xFE\<rparr>"
  have d: "decode6502 (mem_peek adc_mem (r_pc ?c)) = Some (READ I_adc Imm)"
    by (simp add: adc_mem_peek decode_defs)
  obtain c' m' s where r: "cpu_run (emu_ports (\<lambda>_. 0) None) ?c adc_mem = Some (c', m')"
    "mos_step (program_view ?c adc_mem) = Some s" "program_view c' m' = s"
    using cpu_implements_6502 [OF adc_mem_ok _ _ _ d, of "\<lambda>_. 0"]
    by (auto simp: program_view_def operands_plain_def operand_bytes_def)
  have "\<not> pC (program_view ?c adc_mem)" by (simp add: program_view_def ps_default_def)
  then have "pA s = 3 \<and> pC s \<and> pPC s = 0x202" using r(2) d
    by (auto simp: mos_step_def mos_adc_def program_view_def adc_mem_peek skip_operand_def operand_bytes_def nz_def Let_def)
  with r show ?thesis by blast
qed

text \<open>A cartridge full of \<^verbatim>\<open>NOP\<close>.\<close>

lemma decode_nop: "decode6502 0xEA = Some (IMPLD I_nop)"
  by (simp add: decode_defs)

lemma tame_nops:
  assumes "\<And>a. 0x8000 \<le> a \<Longrightarrow> pM s a = 0xEA" "0x8000 \<le> unat (pPC s)" "unat (pPC s) + n < 65536"
  shows "tame n s"
  using assms
proof (induction n arbitrary: s)
  case (Suc n)
  have u: "unat (pPC s + 1) = unat (pPC s) + 1" using unat_step [of "pPC s" 1] Suc.prems(3) by simp
  have i: "pM s (pPC s) = 0xEA" using Suc.prems(1,2) by (simp add: word_le_nat_alt)
  have "plain (pPC s)" using Suc.prems(2) by (simp add: word_le_nat_alt)
  then have "tame_step s" by (auto simp: tame_step_def i decode_nop)
  moreover have "mos_step s = Some (s\<lparr>pPC := pPC s + 1\<rparr>)" by (simp add: mos_step_def i decode_nop)
  moreover have "tame n (s\<lparr>pPC := pPC s + 1\<rparr>)" using Suc.prems u by (intro Suc.IH) simp_all
  ultimately show ?case by simp
qed simp

theorem run_frame_program_witness:
  "\<exists>e' j. run_frame (\<lambda>_. 0) None 29782 demo = Done e' \<and> j \<le> 29781 \<and> mos_run j (emu_view demo) = Some (emu_view e')"
proof -
  have "tame 29781 (emu_view demo)"
  proof (rule tame_nops)
    fix a :: uint16 assume "0x8000 \<le> a"
    then have "plain a" "\<not> a < 0x8000" by (simp_all add: word_le_nat_alt word_less_nat_alt)
    then show "pM (emu_view demo) a = 0xEA" by (simp add: program_view_def demo_def demo_peek)
  qed (simp_all add: program_view_def demo_def cpu_default_def)
  moreover have "undisturbed (e_cpu demo)" by (simp add: undisturbed_def demo_def cpu_default_def ps_default_def)
  moreover have "ahead 0 demo" by (simp add: ahead_def demo_def cpu_default_def to_int_def)
  moreover have "mem_ok (e_mem demo)" "\<not> e_quit demo" "e_cycle demo = 0" using demo_mem_ok by (simp_all add: demo_def)
  ultimately show ?thesis using run_frame_program [OF demo_ok, of 0 "\<lambda>_. 0"] by auto
qed

end
