(* ===== verification/CpuDepartures.thy ===== *)
theory CpuDepartures
  imports CpuProgram
begin

text \<open>
  Where the processor of \<^verbatim>\<open>emu/core/cpu.cpp\<close> departs from the documented 6502, exactly: for every
  instruction and every state, when the code and the specification of theory \<open>Mos6502\<close> agree, and what the
  code does instead when they do not.
\<close>

unbundle bit_operations_syntax

section \<open>Flags\<close>

text \<open>
  When an instruction of the code has the flags of the processor. \<^verbatim>\<open>SBC\<close> sets overflow by the rule of addition: right
  exactly when the sign of the accumulator stays. \<^verbatim>\<open>BIT\<close> takes negative from the zero of accumulator AND
  operand, and zero from the operand. \<^verbatim>\<open>TXS\<close> sets negative and zero, which the processor leaves alone.
  The state is past the opcode.
\<close>

fun flags_agree :: "entry \<Rightarrow> mos \<Rightarrow> bool" where
  "flags_agree (READ I_sbc md) s \<longleftrightarrow> (sint (pA (mos_sbc (pM s (eff_addr md s)) s)) < 0) = (sint (pA s) < 0)"
| "flags_agree (READ I_bit md) s \<longleftrightarrow>
     (let v = pM s (eff_addr md s) in (pA s AND v = 0) = bit v 7 \<and> (v = 0) = (pA s AND v = 0))"
| "flags_agree (TRANSFER r R_sp) s \<longleftrightarrow> (sint (mos_reg r s) < 0) = pN s \<and> (mos_reg r s = 0) = pZ s"
| "flags_agree e s \<longleftrightarrow> True"

lemma signed_difference:
  fixes a v k :: int
  assumes "0 \<le> a \<and> a < 256" "0 \<le> v \<and> v < 256" "0 \<le> k \<and> k \<le> 1"
  shows "((128 \<le> a) \<noteq> bit (a + (255 - v) + k) 7 \<and> (128 \<le> a) \<noteq> (128 \<le> v)) \<longleftrightarrow> \<not> signed_fits (sgn8 a - sgn8 v - (1 - k))"
proof -
  have s: "0 \<le> a + (255 - v) + k" "a + (255 - v) + k < 512" using assms by linarith+
  show ?thesis unfolding bit_7_cases [OF s] signed_fits_def sgn8_def using assms by auto
qed

lemma sbc_overflow_agrees:
  "f_ov (r_flags (instr_sbc v c)) = pV (mos_sbc v (mos_of M c)) \<longleftrightarrow>
   (sint (pA (mos_sbc v (mos_of M c))) < 0) = (sint (r_acc c) < 0)"
proof -
  define s where "s = uint (r_acc c) + (255 - uint v) + of_bool (f_carry (r_flags c))"
  let ?d = "uint (r_acc c) - uint v - (1 - of_bool (f_carry (r_flags c)))"
  note b = byte_range [of "r_acc c"] byte_range [of v] carry_range [of "f_carry (r_flags c)"]
  have s: "0 \<le> s" "s < 512" using b unfolding s_def by linarith+
  have d: "word_of_int ?d = (word_of_int s :: uint8)" by (simp add: s_def)
  have code: "f_ov (r_flags (instr_sbc v c)) =
    (bit (uint (r_acc c)) 7 \<noteq> bit s 7 \<and> bit (uint (r_acc c)) 7 = bit (uint v) 7)"
    unfolding instr_sbc_def s_def set_flags_def Let_def overflow_bits and_0x80 uint_not by simp
  have spec: "pV (mos_sbc v (mos_of M c)) = (\<not> signed_fits (sint (r_acc c) - sint v - (1 - of_bool (f_carry (r_flags c)))))"
    "pA (mos_sbc v (mos_of M c)) = word_of_int ?d"
    unfolding mos_sbc_def nz_def Let_def mos_of_fields by simp_all
  have neg: "(sint (r_acc c) < 0) = (128 \<le> uint (r_acc c))" using b by (auto simp: sint_byte)
  have r: "(sint (pA (mos_sbc v (mos_of M c))) < 0) = bit s 7" unfolding spec(2) d using neg_byte [OF s] by simp
  have V: "pV (mos_sbc v (mos_of M c)) = ((128 \<le> uint (r_acc c)) \<noteq> bit s 7 \<and> (128 \<le> uint (r_acc c)) \<noteq> (128 \<le> uint v))"
    unfolding spec(1) sint_sgn8 s_def using signed_difference [OF b] by blast
  show ?thesis unfolding code r V neg bit_uint_7 by blast
qed

lemma mos_eq_but_V: "s\<lparr>pV := False\<rparr> = t\<lparr>pV := False\<rparr> \<Longrightarrow> s = t \<longleftrightarrow> pV s = pV t" for s t :: mos
  by (cases s; cases t) auto

lemma mos_eq_but_NZ: "s\<lparr>pN := False, pZ := False\<rparr> = t\<lparr>pN := False, pZ := False\<rparr> \<Longrightarrow> s = t \<longleftrightarrow> pN s = pN t \<and> pZ s = pZ t"
  for s t :: mos
  by (cases s; cases t) auto

lemma sbc_agrees: "mos_of M (instr_sbc v c) = mos_sbc v (mos_of M c) \<longleftrightarrow>
    (sint (pA (mos_sbc v (mos_of M c))) < 0) = (sint (r_acc c) < 0)"
  using mos_eq_but_V [OF mos_of_sbc [of M v c]] sbc_overflow_agrees [of v c M] by simp

lemma bit_agrees: "mos_of M (instr_bit v c) = mos_read I_bit v (mos_of M c) \<longleftrightarrow>
    (r_acc c AND v = 0) = bit v 7 \<and> (v = 0) = (r_acc c AND v = 0)"
proof -
  have "pN (mos_of M (instr_bit v c)) = (r_acc c AND v = 0)" "pZ (mos_of M (instr_bit v c)) = (v = 0)"
    by (simp_all add: instr_bit_def set_flags_def)
  moreover have "pN (mos_read I_bit v (mos_of M c)) = bit v 7" "pZ (mos_read I_bit v (mos_of M c)) = (r_acc c AND v = 0)" by simp_all
  ultimately show ?thesis using mos_eq_but_NZ [OF mos_of_bit [of M v c]] by metis
qed

lemma txs_agrees: "mos_of M (instr_transfer v R_sp c) = mos_transfer R_sp v (mos_of M c) \<longleftrightarrow>
    (sint v < 0) = f_neg (r_flags c) \<and> (v = 0) = f_zero (r_flags c)"
proof -
  have "(mos_of M (instr_transfer v R_sp c))\<lparr>pN := False, pZ := False\<rparr> = (mos_transfer R_sp v (mos_of M c))\<lparr>pN := False, pZ := False\<rparr>"
    using mos_instr_transfer [of R_x R_sp M v c] by simp
  moreover have "pN (mos_of M (instr_transfer v R_sp c)) = (sint v < 0)" "pZ (mos_of M (instr_transfer v R_sp c)) = (v = 0)"
    by (simp_all only: instr_transfer_def mos_of_internal mos_set_zn nz_def) simp_all
  moreover have "pN (mos_transfer R_sp v (mos_of M c)) = f_neg (r_flags c)" "pZ (mos_transfer R_sp v (mos_of M c)) = f_zero (r_flags c)"
    by simp_all
  ultimately show ?thesis using mos_eq_but_NZ by metis
qed

lemma read_agrees:
  assumes "mos_of M c1 = skip_operand md s" "pM s = M"
  shows "mos_of M (instr_read i (M (eff_addr md s)) c1) = skip_operand md (mos_read i (M (eff_addr md s)) s) \<longleftrightarrow> flags_agree (READ i md) s"
proof -
  let ?v = "M (eff_addr md s)"
  have r: "skip_operand md (mos_read i ?v s) = mos_read i ?v (mos_of M c1)" by (simp only: assms(1) skip_operand_read)
  have f: "r_acc c1 = pA s" using arg_cong [OF assms(1), of pA] by (simp add: skip_operand_def)
  consider "i = I_sbc" | "i = I_bit" | "i \<noteq> I_sbc" "i \<noteq> I_bit" by blast
  then show ?thesis
  proof cases
    case 1
    have "pA (mos_sbc ?v (mos_of M c1)) = pA (mos_sbc ?v s)"
      unfolding assms(1) using skip_operand_read [of I_sbc ?v md s] by (simp add: skip_operand_def)
    then show ?thesis unfolding r using sbc_agrees [of M ?v c1] f by (simp add: 1 assms(2))
  next
    case 2
    then show ?thesis unfolding r using bit_agrees [of M ?v c1] f by (simp add: assms(2) Let_def)
  next
    case 3
    then have "mos_of M (instr_read i ?v c1) = mos_read i ?v (mos_of M c1)"
      using mos_instr_read [of i md M ?v c1] by (cases i) simp_all
    then show ?thesis unfolding r using 3 by (cases i) simp_all
  qed
qed

lemma exact_agree: "exact e \<Longrightarrow> flags_agree e s"
  by (cases e rule: exact.cases) simp_all

lemma not_exact:
  assumes "\<not> exact e"
  obtains md where "e = READ I_sbc md" | md where "e = READ I_bit md" | r where "e = TRANSFER r R_sp"
  using assms by (cases e rule: exact.cases) auto

section \<open>Whole instructions\<close>

lemma status_byte_bit_5: "bit (status_byte s) 5"
  by (cases "pC s"; cases "pZ s"; cases "pI s"; cases "pD s"; cases "pV s"; cases "pN s") (simp_all add: status_byte_def)

lemma nes_write_stack [simp]:
  "nes_write (stack_addr s) v M (stack_addr t) = (if s = t then v else M (stack_addr t))"
  by (auto simp: nes_write_def)

text \<open>Indexing that leaves the zero page, as the code adds.\<close>

lemma leaves_page:
  fixes b x :: uint8
  assumes "256 \<le> unat b + unat x"
  shows "(ucast b + ucast x :: uint16) = ucast (b + x) + 0x100" "(ucast b + ucast x :: uint16) < 0x2000"
proof -
  have l: "unat b < 256" "unat x < 256" by (rule unat_uint8_less)+
  have "(unat b + unat x) mod 256 = (unat b + unat x - 256) mod 256" using assms by (rule le_mod_geq)
  also have "\<dots> = unat b + unat x - 256" using l by (intro mod_less) linarith
  finally have s: "unat (b + x) = unat b + unat x - 256" by (simp add: unat_word_ariths)
  have "unat b + unat x < 65536" using l by linarith
  then have u: "unat (ucast b + ucast x :: uint16) = unat b + unat x" by (simp add: unat_word_ariths)
  then show "(ucast b + ucast x :: uint16) = ucast (b + x) + 0x100"
    using s assms l by (simp add: word_unat_eq_iff unat_word_ariths)
  have "unat b + unat x < 8192" using l by linarith
  then show "(ucast b + ucast x :: uint16) < 0x2000" using u by (simp add: word_less_nat_alt)
qed

context cpu_memory begin

lemma exec_agrees:
  assumes "inv m" "map_of execute_tab i = Some e" "ordinary e (view c m)"
    and "e = IMPLD I_php \<Longrightarrow> f_unused (r_flags c)"
  shows "\<exists>c' m'. exec_entry P e c m = Some (c', m') \<and> inv m' \<and> (view c' m' = mos_exec e (view c m) \<longleftrightarrow> flags_agree e (view c m))"
proof (cases "exact e")
  case True
  then show ?thesis using exec_refines [OF assms] by (auto simp: exact_blur exact_agree)
next
  case False
  have read: ?thesis if rd: "e = READ f md" for f md
  proof -
    let ?a = "eff_addr md (view c m)"
    obtain c1 c' where r: "addrmode_read P md (instr_read f) c m = Some (c', m)"
      "view c1 m = skip_operand md (view c m)" "view c' m = view (instr_read f (peek m ?a) c1) m"
      using read_refines [OF assms(1) entry_modes(1) [OF assms(2) rd], of c "instr_read f"] assms(3) rd by auto
    have v: "plain_mem (peek m) ?a = peek m ?a" using assms(3) rd by simp
    show ?thesis using r(1,3) assms(1) read_agrees [OF r(2), of f] by (simp add: rd v)
  qed
  from False show ?thesis
  proof (cases rule: not_exact)
    case (1 md)
    then show ?thesis by (rule read)
  next
    case (2 md)
    then show ?thesis by (rule read)
  next
    case (3 r)
    then show ?thesis using assms(1) txs_agrees [of "plain_mem (peek m)" "get_reg r c" c] by simp
  qed
qed

lemma run_agrees:
  assumes "inv m" "\<not> execnmi c" "\<not> execirq c" "plain (r_pc c)" "decode6502 (peek m (r_pc c)) = Some e"
    and "ordinary e ((view c m)\<lparr>pPC := r_pc c + 1\<rparr>)" "e = IMPLD I_php \<Longrightarrow> f_unused (r_flags c)"
  shows "\<exists>c' m' s. cpu_run P c m = Some (c', m') \<and> mos_step (view c m) = Some s \<and>
    (view c' m' = s \<longleftrightarrow> flags_agree e ((view c m)\<lparr>pPC := r_pc c + 1\<rparr>))"
  using exec_agrees [of m "peek m (r_pc c)" e "(cycle c)\<lparr>r_pc := r_pc c + 1\<rparr>"] assms run_entry [OF assms(1-5)]
  by (auto simp: dispatch_regular mos_step_def)

lemma php_agrees:
  assumes "inv m"
  shows "\<exists>c' m'. instr_php P c m = Some (c', m') \<and> (view c' m' = mos_implied I_php (view c m) \<longleftrightarrow> f_unused (r_flags c))"
proof (cases "f_unused (r_flags c)")
  case True
  then show ?thesis using implied_refines [OF assms, of I_php c] by auto
next
  case False
  let ?b = "ps_to_uint8 ((r_flags c)\<lparr>f_breakf := True\<rparr>)"
  have "bit ?b 5 \<noteq> bit (status_byte (view c m)) 5" using False by (simp add: bit_ps_to_uint8 status_byte_bit_5)
  then have b: "?b \<noteq> status_byte (view c m)" by metis
  obtain c' where c': "instr_php P c m = Some (c', put (stack_addr (r_sp c)) ?b m)"
    using assms by (simp add: instr_php_def push_put Let_def)
  have "pM (view c' (put (stack_addr (r_sp c)) ?b m)) (stack_addr (r_sp c)) = ?b" using assms by simp
  moreover have "pM (mos_implied I_php (view c m)) (stack_addr (r_sp c)) = status_byte (view c m)"
    by (simp add: mos_push_def stack_addr_mos)
  ultimately have "view c' (put (stack_addr (r_sp c)) ?b m) \<noteq> mos_implied I_php (view c m)" using b by metis
  then show ?thesis using c' False by blast
qed

lemma plp_copies:
  assumes "inv m"
  shows "\<exists>c'. instr_plp P c m = Some (c', m) \<and> f_unused (r_flags c') = bit (peek m (stack_addr (r_sp c + 1))) 5"
  using assms by (simp add: instr_plp_def pull_eq Let_def ps_of_uint8_bits)

lemma brk_pushes:
  assumes "inv m"
  shows "\<exists>c' m'. instr_brk P c m = Some (c', m') \<and> pM (view c' m') (stack_addr (r_sp c - 1)) = low (r_pc c) \<and>
    pM (mos_implied I_brk (view c m)) (stack_addr (r_sp c - 1)) = low (r_pc c + 1)"
proof -
  have "peek (pushed3 (set_break True c) m) (stack_addr (r_sp c - 1)) = low (r_pc c)"
    using pushed3_peek(3) [OF assms, of "set_break True c"] by (simp add: set_break_def set_flags_def)
  moreover have "r_sp c - 2 \<noteq> r_sp c - 1" "r_sp c \<noteq> r_sp c - 1" by simp_all
  ultimately show ?thesis using assms
    by (simp add: instr_brk_def interrupt_eq mos_push_def stack_addr_mos Let_def diff_diff_eq)
qed

lemma zero_page_read:
  assumes "inv m" "md = Zerox \<or> md = Zeroy" "plain (r_pc c)" "\<not> in_page md (view c m)"
  shows "\<exists>c1 c'. addrmode_read P md f c m = Some (c', m) \<and> view c1 m = skip_operand md (view c m) \<and>
    view c' m = view (f (peek m (eff_addr md (view c m) + 0x100)) c1) m"
  using assms leaves_page
  by - (elim disjE; simp add: addrmode_read_defs fetch_low_eq op_low_def operand_bytes_def skip_operand_def not_less Let_def;
    (rule exI, rule conjI [rotated], rule refl, simp)?)

end

section \<open>On the machine\<close>

text \<open>
  C16: where the processor of the machine departs from the documented 6502, exactly. Under the conditions of
  theory \<open>CpuProgram\<close> an instruction leaves registers, flags and memory as the 6502 does if and only if: for \<^verbatim>\<open>SBC\<close> the sign of
  the accumulator stays; for \<^verbatim>\<open>BIT\<close> bit 7 of the operand says whether accumulator AND operand is zero, and that is zero
  only with the operand; for \<^verbatim>\<open>TXS\<close> the flags already describe X; for \<^verbatim>\<open>PHP\<close> bit 5 of the status is set; and without
  condition for all others. \<^verbatim>\<open>PLP\<close> copies bit 5 from the byte it pulls. \<^verbatim>\<open>BRK\<close> pushes the low byte of the address after
  its opcode where the 6502 pushes that of the address after the padding byte. A read indexed in the zero page
  whose address leaves the page goes to the address 256 above the one the 6502 reads.
\<close>

theorem departures_exact:
  assumes "mem_ok m" "\<not> execnmi c" "\<not> execirq c" "plain (r_pc c)" "decode6502 (mem_peek m (r_pc c)) = Some e"
  shows "let s0 = (program_view c m)\<lparr>pPC := r_pc c + 1\<rparr> in \<exists>s. mos_step (program_view c m) = Some s \<and>
    (ordinary e s0 \<and> e \<noteq> IMPLD I_php \<longrightarrow>
      (\<exists>c' m'. cpu_run (emu_ports ns None) c m = Some (c', m') \<and> (program_view c' m' = s \<longleftrightarrow> flags_agree e s0))) \<and>
    (e = IMPLD I_php \<longrightarrow>
      (\<exists>c' m'. cpu_run (emu_ports ns None) c m = Some (c', m') \<and> (program_view c' m' = s \<longleftrightarrow> f_unused (r_flags c)))) \<and>
    (e = IMPLD I_plp \<longrightarrow>
      (\<exists>c' m'. cpu_run (emu_ports ns None) c m = Some (c', m') \<and>
         f_unused (r_flags c') = bit (mem_peek m (stack_addr (r_sp c + 1))) 5)) \<and>
    (e = IMPLD I_brk \<longrightarrow>
      (\<exists>c' m'. cpu_run (emu_ports ns None) c m = Some (c', m') \<and>
         pM (program_view c' m') (stack_addr (r_sp c - 1)) = low (r_pc c + 1) \<and> pM s (stack_addr (r_sp c - 1)) = low (r_pc c + 2))) \<and>
    (\<forall>i md. e = READ i md \<and> md \<in> {Zerox, Zeroy} \<and> plain (r_pc c + 1) \<and> \<not> in_page md s0 \<longrightarrow>
      (\<exists>c1 c'. cpu_run (emu_ports ns None) c m = Some (c', m) \<and> program_view c1 m = skip_operand md s0 \<and>
         program_view c' m = program_view (instr_read i (mem_peek m (eff_addr md s0 + 0x100)) c1) m))"
proof -
  let ?c = "(cycle c)\<lparr>r_pc := r_pc c + 1\<rparr>" and ?P = "emu_ports ns None"
  have v: "(program_view c m)\<lparr>pPC := r_pc c + 1\<rparr> = program_view ?c m" by (simp add: program_view_def)
  have run: "cpu_run ?P c m = exec_entry ?P e ?c m" by (rule mem.run_entry [OF assms])
  have step: "mos_step (program_view c m) = Some (mos_exec e (program_view ?c m))"
    using assms(4,5) by (simp add: mos_step_def program_view_def)
  have 1: "ordinary e (program_view ?c m) \<and> e \<noteq> IMPLD I_php \<longrightarrow>
    (\<exists>c' m'. exec_entry ?P e ?c m = Some (c', m') \<and> (program_view c' m' = mos_exec e (program_view ?c m) \<longleftrightarrow> flags_agree e (program_view ?c m)))"
    using mem.exec_agrees [OF assms(1), of "mem_peek m (r_pc c)" e ?c] assms(5) unfolding program_view_def dispatch_regular by blast
  have 2: "e = IMPLD I_php \<longrightarrow>
    (\<exists>c' m'. exec_entry ?P e ?c m = Some (c', m') \<and> (program_view c' m' = mos_exec e (program_view ?c m) \<longleftrightarrow> f_unused (r_flags c)))"
    using mem.php_agrees [OF assms(1), of ns ?c] by (auto simp: program_view_def)
  have 3: "e = IMPLD I_plp \<longrightarrow>
    (\<exists>c' m'. exec_entry ?P e ?c m = Some (c', m') \<and> f_unused (r_flags c') = bit (mem_peek m (stack_addr (r_sp c + 1))) 5)"
    using mem.plp_copies [OF assms(1), of ns ?c] by auto
  have 4: "e = IMPLD I_brk \<longrightarrow>
    (\<exists>c' m'. exec_entry ?P e ?c m = Some (c', m') \<and> pM (program_view c' m') (stack_addr (r_sp c - 1)) = low (r_pc c + 1) \<and>
       pM (mos_exec e (program_view ?c m)) (stack_addr (r_sp c - 1)) = low (r_pc c + 2))"
    using mem.brk_pushes [OF assms(1), of ns ?c] by (auto simp: program_view_def add.assoc simp del: mos_implied.simps)
  have 5: "\<forall>i md. e = READ i md \<and> md \<in> {Zerox, Zeroy} \<and> plain (r_pc c + 1) \<and> \<not> in_page md (program_view ?c m) \<longrightarrow>
    (\<exists>c1 c'. exec_entry ?P e ?c m = Some (c', m) \<and> program_view c1 m = skip_operand md (program_view ?c m) \<and>
       program_view c' m = program_view (instr_read i (mem_peek m (eff_addr md (program_view ?c m) + 0x100)) c1) m)"
    using mem.zero_page_read [OF assms(1), of _ ?c ns] unfolding program_view_def by fastforce
  show ?thesis unfolding Let_def v run step using 1 2 3 4 5 by blast
qed

text \<open>\<^verbatim>\<open>SBC\<close> of 1 without carry from -128 overflows, and the code does not say so.\<close>

definition sbc_mem :: memside where
  "sbc_mem = demo_mem\<lparr>ms_ram := (\<lambda>_. 0)(0x200 := 0xE9, 0x201 := 1)\<rparr>"

theorem departures_exact_witness:
  "\<exists>c' m' s. cpu_run (emu_ports (\<lambda>_. 0) None) (demo_cpu\<lparr>r_pc := 0x200, r_acc := 0x80\<rparr>) sbc_mem = Some (c', m') \<and>
     mos_step (program_view (demo_cpu\<lparr>r_pc := 0x200, r_acc := 0x80\<rparr>) sbc_mem) = Some s \<and> program_view c' m' \<noteq> s"
proof -
  let ?c = "demo_cpu\<lparr>r_pc := 0x200, r_acc := 0x80\<rparr>"
  have m: "mem_ok sbc_mem" using demo_mem_ok by (simp add: sbc_mem_def mem_ok_def ram_wired_def)
  have p: "mem_peek sbc_mem 0x200 = 0xE9" "mem_peek sbc_mem 0x201 = 1" by (simp_all add: sbc_mem_def mem_peek_def)
  have d: "decode6502 (mem_peek sbc_mem (r_pc ?c)) = Some (READ I_sbc Imm)" by (simp add: p decode_defs)
  let ?s = "(program_view ?c sbc_mem)\<lparr>pPC := r_pc ?c + 1\<rparr>"
  have "ordinary (READ I_sbc Imm) ?s" by (simp add: program_view_def operands_plain_def operand_bytes_def)
  moreover have "\<not> flags_agree (READ I_sbc Imm) ?s"
    by (simp add: program_view_def p mos_sbc_def nz_def Let_def ps_default_def)
  ultimately show ?thesis
    using departures_exact [OF m _ _ _ d, of "\<lambda>_. 0"] unfolding Let_def by auto
qed

end
