(* ===== verification/FileStream.thy ===== *)
theory FileStream
  imports File
begin

text \<open>
  The streams under a \<^verbatim>\<open>File\<close>, \<^verbatim>\<open>emu/util/file.hpp\<close> and \<^verbatim>\<open>emu/util/file.cpp\<close>: a \<^verbatim>\<open>FILE\<close> of the C library with
  its contents, position, the one character that can be pushed back, and the two indicators. The
  methods of \<^verbatim>\<open>File\<close> take the pointer \<^verbatim>\<open>filbuf\<close>, an option; a call of the C library with a null pointer,
  which is undefined, has no result. The functions over the list of the bytes still to come in
  theory \<open>File\<close> are what these compute on the rest of a stream that is read.
\<close>

section \<open>Streams of the C library\<close>

record cstream =
  s_bytes :: "uint8 list"
  s_pos :: nat
  s_back :: "uint8 option"
  s_eof :: bool
  s_err :: bool
  s_readable :: bool
  s_writable :: bool
  s_append :: bool
  s_fd :: int

definition fgetc :: "cstream \<Rightarrow> uint8 option \<times> cstream" where
  "fgetc st =
     (if \<not> s_readable st then (None, st\<lparr>s_err := True\<rparr>)
      else if s_eof st then (None, st)
      else case s_back st of
             Some b \<Rightarrow> (Some b, st\<lparr>s_back := None\<rparr>)
           | None \<Rightarrow> if s_pos st < length (s_bytes st) then (Some (s_bytes st ! s_pos st), st\<lparr>s_pos := s_pos st + 1\<rparr>)
                     else (None, st\<lparr>s_eof := True\<rparr>))"

text \<open>One character of push-back is guaranteed; pushing back \<^verbatim>\<open>EOF\<close> fails and changes nothing.\<close>

definition fungetc :: "uint8 option \<Rightarrow> cstream \<Rightarrow> uint8 option \<times> cstream" where
  "fungetc c st =
     (if c = None \<or> s_back st \<noteq> None then (None, st) else (c, st\<lparr>s_back := c, s_eof := False\<rparr>))"

primrec fread :: "nat \<Rightarrow> cstream \<Rightarrow> uint8 list \<times> cstream" where
  "fread 0 st = ([], st)"
| "fread (Suc n) st =
     (case fgetc st of
        (None, st) \<Rightarrow> ([], st)
      | (Some b, st) \<Rightarrow> (let (bs, st) = fread n st in (b # bs, st)))"

text \<open>Writing past the end fills the gap with zeros; a stream opened to append writes at its end.\<close>

definition fputc :: "uint8 \<Rightarrow> cstream \<Rightarrow> uint8 option \<times> cstream" where
  "fputc v st =
     (if \<not> s_writable st then (None, st\<lparr>s_err := True\<rparr>)
      else let p = (if s_append st then length (s_bytes st) else s_pos st);
               bs = s_bytes st @ replicate (p + 1 - length (s_bytes st)) 0
           in (Some v, st\<lparr>s_bytes := bs[p := v], s_pos := p + 1\<rparr>))"

primrec fwrite :: "uint8 list \<Rightarrow> cstream \<Rightarrow> nat \<times> cstream" where
  "fwrite [] st = (0, st)"
| "fwrite (b # bs) st =
     (case fputc b st of
        (None, st) \<Rightarrow> (0, st)
      | (Some _, st) \<Rightarrow> (let (n, st) = fwrite bs st in (n + 1, st)))"

datatype whence = SEEK_SET | SEEK_CUR | SEEK_END

definition fseek :: "int \<Rightarrow> whence \<Rightarrow> cstream \<Rightarrow> int \<times> cstream" where
  "fseek offset origin st =
     (let base = (case origin of SEEK_SET \<Rightarrow> 0
                  | SEEK_CUR \<Rightarrow> int (s_pos st) - (if s_back st = None then 0 else 1)
                  | SEEK_END \<Rightarrow> int (length (s_bytes st)))
      in if base + offset < 0 then (-1, st)
         else (0, st\<lparr>s_pos := nat (base + offset), s_back := None, s_eof := False\<rparr>))"

section \<open>The methods of the class\<close>

type_synonym filptr = "cstream option"

definition file_eof :: "filptr \<Rightarrow> bool" where
  "file_eof p = (case p of None \<Rightarrow> True | Some st \<Rightarrow> s_eof st)"

definition file_error :: "filptr \<Rightarrow> bool" where
  "file_error p = (case p of None \<Rightarrow> True | Some st \<Rightarrow> s_err st)"

text \<open>\<^verbatim>\<open>fflush\<close> of a null pointer is defined: it flushes every stream. Written bytes are in the contents at once.\<close>

definition file_flush :: "filptr \<Rightarrow> int \<times> filptr" where
  "file_flush p = (0, p)"

definition file_seek :: "int \<Rightarrow> whence \<Rightarrow> filptr \<Rightarrow> (int \<times> cstream) option" where
  "file_seek offset origin p = map_option (fseek offset origin) p"

definition file_fd :: "filptr \<Rightarrow> int option" where
  "file_fd p = map_option s_fd p"

definition file_bread :: "nat \<Rightarrow> filptr \<Rightarrow> (uint8 list \<times> cstream) option" where
  "file_bread nb p = map_option (fread nb) p"

definition file_getc :: "filptr \<Rightarrow> (uint8 option \<times> cstream) option" where
  "file_getc p = map_option fgetc p"

definition file_ungetc :: "uint8 option \<Rightarrow> filptr \<Rightarrow> (uint8 option \<times> cstream) option" where
  "file_ungetc c p = map_option (fungetc c) p"

definition file_bwrite :: "uint8 list \<Rightarrow> filptr \<Rightarrow> (nat \<times> cstream) option" where
  "file_bwrite buf p = map_option (fwrite buf) p"

definition file_putc :: "uint8 \<Rightarrow> filptr \<Rightarrow> (uint8 option \<times> cstream) option" where
  "file_putc c p = map_option (fputc c) p"

text \<open>
  \<^verbatim>\<open>print\<close> writes the text the formatting library makes of its arguments; the library throws when not
  all of it could be written.
\<close>

definition file_print :: "string \<Rightarrow> filptr \<Rightarrow> cstream option" where
  "file_print formatted p =
     (case p of
        None \<Rightarrow> None
      | Some st \<Rightarrow> (let (n, st) = fwrite (bytes_of formatted) st in if n = length formatted then Some st else None))"

section \<open>What is left to read\<close>

definition remaining :: "cstream \<Rightarrow> stream" where
  "remaining st =
     (if s_eof st then [] else (case s_back st of None \<Rightarrow> [] | Some b \<Rightarrow> [b]) @ drop (s_pos st) (s_bytes st))"

text \<open>A stream open for reading; the end indicator is only set at the end.\<close>

definition reading :: "cstream \<Rightarrow> bool" where
  "reading st \<longleftrightarrow> s_readable st \<and> (s_eof st \<longrightarrow> s_back st = None \<and> length (s_bytes st) \<le> s_pos st)"

lemma fgetc_remaining:
  assumes "reading st"
  shows "fst (fgetc st) = fst (getc (remaining st))" "remaining (snd (fgetc st)) = snd (getc (remaining st))"
    "reading (snd (fgetc st))" "s_back (snd (fgetc st)) = None \<or> fst (fgetc st) = None"
    "fst (fgetc st) = None \<Longrightarrow> s_eof (snd (fgetc st))"
  using assms
  by (auto simp: fgetc_def getc_def remaining_def reading_def Cons_nth_drop_Suc [symmetric] split: option.splits)

lemma fungetc_remaining:
  assumes "reading st" "s_back st = None \<or> c = None"
  shows "remaining (snd (fungetc c st)) = ungetc c (remaining st)" "reading (snd (fungetc c st))"
  using assms by (auto simp: fungetc_def ungetc_def remaining_def reading_def split: option.splits)

lemma fgetc_shorter: "fgetc st = (Some b, st') \<Longrightarrow> length (remaining st') < length (remaining st)"
  by (auto simp: fgetc_def remaining_def split: if_splits option.splits)

section \<open>Words, lines and the whole file\<close>

text \<open>The loops over \<^verbatim>\<open>c = getc()\<close>, on the stream itself.\<close>

function fskip :: "(uint8 \<Rightarrow> bool) \<Rightarrow> cstream \<Rightarrow> uint8 option \<times> cstream" where
  "fskip t st =
     (case fgetc st of
        (None, st') \<Rightarrow> (None, st')
      | (Some c, st') \<Rightarrow> if t c then fskip t st' else (Some c, st'))"
  by pat_completeness auto
termination
  by (relation "measure (\<lambda>(t, st). length (remaining st))") (auto dest: fgetc_shorter [OF sym])

function ftake :: "(uint8 \<Rightarrow> bool) \<Rightarrow> stream \<Rightarrow> cstream \<Rightarrow> stream \<times> uint8 option \<times> cstream" where
  "ftake t str st =
     (case fgetc st of
        (None, st') \<Rightarrow> (str, None, st')
      | (Some c, st') \<Rightarrow> if t c then ftake t (str @ [c]) st' else (str, Some c, st'))"
  by pat_completeness auto
termination
  by (relation "measure (\<lambda>(t, str, st). length (remaining st))") (auto dest: fgetc_shorter [OF sym])

declare fskip.simps [simp del] ftake.simps [simp del]

definition fgetword :: "cstream \<Rightarrow> bool \<times> stream \<times> cstream" where
  "fgetword st =
     (let (c, st) = fskip is_space st;
          st = snd (fungetc c st);
          (str, c, st) = ftake (\<lambda>c. \<not> is_delim c) [] st;
          st = snd (fungetc c st)
      in (c \<noteq> None, str, st))"

definition fgetline :: "uint8 \<Rightarrow> cstream \<Rightarrow> bool \<times> stream \<times> cstream" where
  "fgetline delim st =
     (let (c, st) = fskip is_space st;
          st = snd (fungetc c st);
          (str, c, st) = ftake (\<lambda>c. c \<noteq> delim) [] st
      in (c \<noteq> None, str, st))"

definition file_getword :: "filptr \<Rightarrow> (bool \<times> stream \<times> cstream) option" where
  "file_getword p = map_option fgetword p"

definition file_getline :: "uint8 \<Rightarrow> filptr \<Rightarrow> (bool \<times> stream \<times> cstream) option" where
  "file_getline delim p = map_option (fgetline delim) p"

text \<open>A loop leaves a stream from which its last character can be pushed back.\<close>

lemma fskip_remaining:
  assumes "reading st" "fskip t st = (c, st')"
  shows "skip_loop t (remaining st) = (c, remaining st')" "reading st'" "s_back st' = None \<or> c = None"
proof -
  have "skip_loop t (remaining st) = (c, remaining st') \<and> reading st' \<and> (s_back st' = None \<or> c = None)"
    using assms
  proof (induction t st rule: fskip.induct)
    case (1 t st)
    obtain c0 st0 where g: "fgetc st = (c0, st0)" by fastforce
    note r = fgetc_remaining [OF "1.prems"(1), unfolded g fst_conv snd_conv]
    have l: "getc (remaining st) = (c0, remaining st0)" using r(1,2) by (simp add: prod_eq_iff)
    show ?case
    proof (cases c0)
      case None
      then show ?thesis using "1.prems"(2) r(3,4) l by (simp add: fskip.simps [of t st] skip_loop.simps [of t "remaining st"] g)
    next
      case (Some b)
      then show ?thesis using "1.prems"(2) "1.IH" [OF g [symmetric] Some _ r(3)] r(3,4) l
        by (auto simp: fskip.simps [of t st] skip_loop.simps [of t "remaining st"] g split: if_splits)
    qed
  qed
  then show "skip_loop t (remaining st) = (c, remaining st')" "reading st'" "s_back st' = None \<or> c = None" by auto
qed

lemma ftake_remaining:
  assumes "reading st" "ftake t str st = (str', c, st')"
  shows "take_loop t str (remaining st) = (str', c, remaining st')" "reading st'" "s_back st' = None \<or> c = None"
proof -
  have "take_loop t str (remaining st) = (str', c, remaining st') \<and> reading st' \<and> (s_back st' = None \<or> c = None)"
    using assms
  proof (induction t str st rule: ftake.induct)
    case (1 t str st)
    obtain c0 st0 where g: "fgetc st = (c0, st0)" by fastforce
    note r = fgetc_remaining [OF "1.prems"(1), unfolded g fst_conv snd_conv]
    have l: "getc (remaining st) = (c0, remaining st0)" using r(1,2) by (simp add: prod_eq_iff)
    show ?case
    proof (cases c0)
      case None
      then show ?thesis using "1.prems"(2) r(3,4) l by (simp add: ftake.simps [of t str st] take_loop.simps [where s = "remaining st"] g)
    next
      case (Some b)
      then show ?thesis using "1.prems"(2) "1.IH" [OF g [symmetric] Some _ r(3)] r(3,4) l
        by (auto simp: ftake.simps [of t str st] take_loop.simps [where s = "remaining st"] g split: if_splits)
    qed
  qed
  then show "take_loop t str (remaining st) = (str', c, remaining st')" "reading st'" "s_back st' = None \<or> c = None" by auto
qed

lemma fgetword_remaining:
  assumes "reading st" "fgetword st = (ok, str, st')"
  shows "getword (remaining st) = (ok, str, remaining st')" "reading st'"
proof -
  obtain c1 st1 where 1: "fskip is_space st = (c1, st1)" by fastforce
  note s1 = fskip_remaining [OF assms(1) 1]
  note u1 = fungetc_remaining [OF s1(2,3)]
  obtain w c2 st2 where 2: "ftake (\<lambda>c. \<not> is_delim c) [] (snd (fungetc c1 st1)) = (w, c2, st2)"
    by (metis prod.collapse)
  note s2 = ftake_remaining [OF u1(2) 2]
  note u2 = fungetc_remaining [OF s2(2,3)]
  have "ok = (c2 \<noteq> None)" "str = w" "st' = snd (fungetc c2 st2)"
    using assms(2) by (auto simp: fgetword_def 1 2 Let_def)
  then show "getword (remaining st) = (ok, str, remaining st')" "reading st'"
    using s1(1) s2(1) u1(1) u2 by (simp_all add: getword_def Let_def)
qed

lemma fgetline_remaining:
  assumes "reading st" "fgetline delim st = (ok, str, st')"
  shows "getline delim (remaining st) = (ok, str, remaining st')" "reading st'"
proof -
  obtain c1 st1 where 1: "fskip is_space st = (c1, st1)" by fastforce
  note s1 = fskip_remaining [OF assms(1) 1]
  note u1 = fungetc_remaining [OF s1(2,3)]
  obtain w c2 st2 where 2: "ftake (\<lambda>c. c \<noteq> delim) [] (snd (fungetc c1 st1)) = (w, c2, st2)"
    by (metis prod.collapse)
  note s2 = ftake_remaining [OF u1(2) 2]
  have "ok = (c2 \<noteq> None)" "str = w" "st' = st2" using assms(2) by (auto simp: fgetline_def 1 2 Let_def)
  then show "getline delim (remaining st) = (ok, str, remaining st')" "reading st'"
    using s1(1) s2 u1(1) by (simp_all add: getline_def Let_def)
qed

text \<open>\<^verbatim>\<open>getall\<close>: the loop over \<^verbatim>\<open>getline\<close> ends on every stream, because a line that is found is consumed.\<close>

lemma fgetc_some: "fgetc st = (Some b, st') \<Longrightarrow> \<not> s_eof st' \<and> s_back st' = None"
  by (auto simp: fgetc_def split: if_splits option.splits)

lemma fgetc_none: "fgetc st = (None, st') \<Longrightarrow> length (remaining st') \<le> length (remaining st)"
  by (auto simp: fgetc_def remaining_def split: if_splits option.splits)

lemma fskip_shorter:
  "fskip t st = (c, st') \<Longrightarrow> length (remaining (snd (fungetc c st'))) \<le> length (remaining st)"
proof (induction t st rule: fskip.induct)
  case (1 t st)
  obtain c0 st0 where g: "fgetc st = (c0, st0)" by fastforce
  show ?case
  proof (cases c0)
    case None
    then show ?thesis using "1.prems" g fgetc_none [of st st0] by (auto simp: fskip.simps [of t st] fungetc_def)
  next
    case (Some b)
    have s: "length (remaining st0) < length (remaining st)" "\<not> s_eof st0" "s_back st0 = None"
      using g Some fgetc_shorter fgetc_some by blast+
    show ?thesis
    proof (cases "t b")
      case True
      then have "fskip t st0 = (c, st')" using "1.prems" g Some by (simp add: fskip.simps [of t st])
      then show ?thesis using "1.IH" [OF g [symmetric] Some True] s(1) by simp
    next
      case False
      then have "c = Some b" "st' = st0" using "1.prems" g Some by (simp_all add: fskip.simps [of t st])
      then show ?thesis using s by (simp add: fungetc_def remaining_def)
    qed
  qed
qed

lemma ftake_shorter: "ftake t str st = (w, Some c, st') \<Longrightarrow> length (remaining st') < length (remaining st)"
proof (induction t str st rule: ftake.induct)
  case (1 t str st)
  obtain c0 st0 where g: "fgetc st = (c0, st0)" by fastforce
  then obtain b where b: "c0 = Some b" using "1.prems" by (cases c0) (simp_all add: ftake.simps [of t str st])
  have s: "length (remaining st0) < length (remaining st)" using g b fgetc_shorter by blast
  show ?case using "1.prems" "1.IH" [OF g [symmetric] b] s by (auto simp: ftake.simps [of t str st] g b split: if_splits)
qed

lemma fgetline_shorter:
  assumes "fgetline delim st = (True, str, st')"
  shows "length (remaining st') < length (remaining st)"
proof -
  obtain c1 st1 where 1: "fskip is_space st = (c1, st1)" by fastforce
  obtain w c2 where 2: "ftake (\<lambda>c. c \<noteq> delim) [] (snd (fungetc c1 st1)) = (w, c2, st')" "c2 \<noteq> None"
    using assms by (auto simp: fgetline_def 1 Let_def split: prod.splits)
  then show ?thesis using fskip_shorter [OF 1] ftake_shorter by fastforce
qed

function fgetall :: "stream \<Rightarrow> cstream \<Rightarrow> stream \<times> cstream" where
  "fgetall str st =
     (case fgetline 0x0A st of
        (ok, tmp, st') \<Rightarrow> if ok then fgetall (str @ tmp @ [0x0A]) st' else (str, st'))"
  by pat_completeness auto
termination
  by (relation "measure (\<lambda>(str, st). length (remaining st))") (auto dest: fgetline_shorter [OF sym])

declare fgetall.simps [simp del]

definition file_getall :: "filptr \<Rightarrow> (stream \<times> cstream) option" where
  "file_getall p = map_option (fgetall []) p"

lemma fgetall_remaining:
  "reading st \<Longrightarrow> fst (fgetall str st) = getall str (remaining st) \<and> reading (snd (fgetall str st))"
proof (induction str st rule: fgetall.induct)
  case (1 str st)
  obtain ok tmp st' where g: "fgetline 0x0A st = (ok, tmp, st')" by (metis prod_cases3)
  note r = fgetline_remaining [OF "1.prems" g]
  show ?case using "1.IH" [OF g [symmetric] refl] r
    by (simp add: fgetall.simps [of str st] getall.simps [of str "remaining st"] g)
qed

lemma fread_remaining:
  assumes "reading st"
  shows "fst (fread n st) = take n (remaining st)" "remaining (snd (fread n st)) = drop n (remaining st)"
    "reading (snd (fread n st))"
proof -
  have "fst (fread n st) = take n (remaining st) \<and> remaining (snd (fread n st)) = drop n (remaining st) \<and> reading (snd (fread n st))"
    using assms
  proof (induction n arbitrary: st)
    case (Suc n)
    obtain c st0 where g: "fgetc st = (c, st0)" by fastforce
    note r = fgetc_remaining [OF Suc.prems, unfolded g fst_conv snd_conv]
    show ?case using Suc.IH [OF r(3)] r(1-3) g
      by (cases "remaining st") (auto simp: getc_def case_prod_unfold Let_def)
  qed simp
  then show "fst (fread n st) = take n (remaining st)" "remaining (snd (fread n st)) = drop n (remaining st)"
    "reading (snd (fread n st))" by blast+
qed

section \<open>Writing\<close>

lemma fputc_at:
  assumes "s_writable st" "\<not> s_append st" "s_pos st \<le> length (s_bytes st)"
  shows "fputc v st = (Some v, st\<lparr>s_bytes := take (s_pos st) (s_bytes st) @ v # drop (Suc (s_pos st)) (s_bytes st),
    s_pos := s_pos st + 1\<rparr>)"
proof (cases "s_pos st < length (s_bytes st)")
  case True
  then show ?thesis using assms by (simp add: fputc_def Let_def upd_conv_take_nth_drop)
next
  case False
  then show ?thesis using assms by (simp add: fputc_def Let_def list_update_append)
qed

lemma fwrite_at:
  assumes "s_writable st" "\<not> s_append st" "s_pos st \<le> length (s_bytes st)"
  shows "fwrite bs st = (length bs, st\<lparr>s_bytes := take (s_pos st) (s_bytes st) @ bs @ drop (s_pos st + length bs) (s_bytes st),
    s_pos := s_pos st + length bs\<rparr>)"
  using assms
proof (induction bs arbitrary: st)
  case (Cons b bs)
  let ?st = "st\<lparr>s_bytes := take (s_pos st) (s_bytes st) @ b # drop (Suc (s_pos st)) (s_bytes st), s_pos := s_pos st + 1\<rparr>"
  have "s_pos ?st \<le> length (s_bytes ?st)" using Cons.prems(3) by simp
  then show ?case using Cons.IH [of ?st] Cons.prems by (simp add: fputc_at min_def add.commute)
qed simp

section \<open>Properties\<close>

text \<open>
  C37: reading through the C stream is reading from the list of the bytes still to come. On an open
  stream that is read, \<^verbatim>\<open>getword\<close>, \<^verbatim>\<open>getline\<close>, \<^verbatim>\<open>bread\<close> and \<^verbatim>\<open>getall\<close> have a result, return what the functions
  on that list return, and leave a stream whose rest is theirs: every character they look at and
  do not want is pushed back exactly once.
\<close>

theorem reading_refines:
  assumes "reading st"
  shows "(\<exists>ok w st'. file_getword (Some st) = Some (ok, w, st') \<and> reading st' \<and>
      getword (remaining st) = (ok, w, remaining st')) \<and>
    (\<exists>ok l st'. file_getline delim (Some st) = Some (ok, l, st') \<and> reading st' \<and>
      getline delim (remaining st) = (ok, l, remaining st')) \<and>
    (\<exists>bs st'. file_bread nb (Some st) = Some (bs, st') \<and> reading st' \<and>
      bread nb (remaining st) = (bs, remaining st')) \<and>
    (\<exists>str st'. file_getall (Some st) = Some (str, st') \<and> reading st' \<and> str = getall [] (remaining st))"
proof (intro conjI)
  obtain ok w st' where "fgetword st = (ok, w, st')" by (metis prod_cases3)
  with fgetword_remaining [OF assms this] show "\<exists>ok w st'. file_getword (Some st) = Some (ok, w, st') \<and> reading st' \<and>
      getword (remaining st) = (ok, w, remaining st')" by (auto simp: file_getword_def)
next
  obtain ok l st' where "fgetline delim st = (ok, l, st')" by (metis prod_cases3)
  with fgetline_remaining [OF assms this] show "\<exists>ok l st'. file_getline delim (Some st) = Some (ok, l, st') \<and> reading st' \<and>
      getline delim (remaining st) = (ok, l, remaining st')" by (auto simp: file_getline_def)
next
  show "\<exists>bs st'. file_bread nb (Some st) = Some (bs, st') \<and> reading st' \<and> bread nb (remaining st) = (bs, remaining st')"
    using fread_remaining [OF assms, of nb] by (cases "fread nb st") (simp add: file_bread_def bread_def)
next
  show "\<exists>str st'. file_getall (Some st) = Some (str, st') \<and> reading st' \<and> str = getall [] (remaining st)"
    using fgetall_remaining [OF assms, of "[]"] by (cases "fgetall [] st") (simp add: file_getall_def)
qed

definition demo_stream :: "uint8 list \<Rightarrow> cstream" where
  "demo_stream bs = \<lparr>s_bytes = bs, s_pos = 0, s_back = None, s_eof = False, s_err = False, s_readable = True,
     s_writable = True, s_append = False, s_fd = 3\<rparr>"

theorem reading_refines_witness:
  "\<exists>st'. file_getline 0x0A (Some (demo_stream [0x20, 0x61, 0x0A, 0x62])) = Some (True, [0x61], st') \<and> remaining st' = [0x62]"
proof -
  have r: "reading (demo_stream [0x20, 0x61, 0x0A, 0x62])" by (simp add: reading_def demo_stream_def)
  have "remaining (demo_stream [0x20, 0x61, 0x0A, 0x62]) = [0x20, 0x61, 0x0A, 0x62]"
    by (simp add: remaining_def demo_stream_def)
  then have "getline 0x0A (remaining (demo_stream [0x20, 0x61, 0x0A, 0x62])) = (True, [0x61], [0x62])"
    by (simp add: getline_eq is_space_def)
  with reading_refines [OF r, where delim = "0x0A" and nb = "0"] show ?thesis by auto
qed

text \<open>
  What is written is read back. On a stream open for both, \<^verbatim>\<open>bwrite\<close> of a buffer, \<^verbatim>\<open>seek\<close> back to where
  it began and \<^verbatim>\<open>bread\<close> of its length return the buffer; the bytes before and behind it are unchanged, and
  the file grows when the buffer reaches past its end.
\<close>

theorem write_seek_read:
  assumes "s_readable st" "s_writable st" "\<not> s_append st" "s_pos st \<le> length (s_bytes st)"
  shows "\<exists>st1 st2 st3. file_bwrite buf (Some st) = Some (length buf, st1) \<and>
    file_seek (int (s_pos st)) SEEK_SET (Some st1) = Some (0, st2) \<and>
    file_bread (length buf) (Some st2) = Some (buf, st3) \<and>
    s_bytes st1 = take (s_pos st) (s_bytes st) @ buf @ drop (s_pos st + length buf) (s_bytes st)"
proof -
  let ?b = "take (s_pos st) (s_bytes st) @ buf @ drop (s_pos st + length buf) (s_bytes st)"
  let ?st = "st\<lparr>s_bytes := ?b, s_pos := s_pos st, s_back := None, s_eof := False\<rparr>"
  have "reading ?st" "remaining ?st = buf @ drop (s_pos st + length buf) (s_bytes st)"
    using assms(1,4) by (simp_all add: reading_def remaining_def)
  with fread_remaining(1) [of ?st "length buf"] have "fst (fread (length buf) ?st) = buf" by simp
  then show ?thesis using fwrite_at [OF assms(2-4), of buf]
    by (cases "fread (length buf) ?st") (simp add: file_bwrite_def file_seek_def file_bread_def fseek_def)
qed

theorem write_seek_read_witness:
  "\<exists>st1 st2 st3. file_bwrite [7, 8] (Some (demo_stream [1])) = Some (2, st1) \<and>
     file_seek 0 SEEK_SET (Some st1) = Some (0, st2) \<and> file_bread 2 (Some st2) = Some ([7, 8], st3) \<and> s_bytes st1 = [7, 8]"
  using write_seek_read [of "demo_stream [1]" "[7, 8]"] by (simp add: demo_stream_def numeral_2_eq_2)

end
