(* ===== verification/EasyRandom.thy ===== *)
theory EasyRandom
  imports Prelude
begin

text \<open>
  Random numbers, \<^verbatim>\<open>emu/util/easyrandom.cpp\<close>: one generator and one mutex shared by all threads. The
  engine \<^verbatim>\<open>std::mt19937\<close> with the distribution \<^verbatim>\<open>dist8\<close> is a parameter \<open>draw\<close> (a byte and the next state), its
  seeding a parameter \<open>mk\<close>. Threads take steps one at a time: a call of \<^verbatim>\<open>random8\<close> waits for the mutex, uses
  the generator and releases the mutex when it returns; a call of \<^verbatim>\<open>seed\<close> uses the generator without it.
  Using the generator is a state of the thread, so two threads can be seen in it at once.
\<close>

section \<open>Threads\<close>

datatype phase = Idle | Waiting | Drawing | Returning uint8 | Seeding

record 'g rnd =
  generator :: 'g
  rnd_mutex :: "nat option"
  phase_of :: "nat \<Rightarrow> phase"
  drawn :: "uint8 list"

definition rnd_init :: "'g \<Rightarrow> 'g rnd" where
  "rnd_init g = \<lparr>generator = g, rnd_mutex = None, phase_of = (\<lambda>_. Idle), drawn = []\<rparr>"

definition set_phase :: "nat \<Rightarrow> phase \<Rightarrow> 'g rnd \<Rightarrow> 'g rnd" where
  "set_phase t p s = s\<lparr>phase_of := (phase_of s)(t := p)\<rparr>"

text \<open>The steps of a thread in \<^verbatim>\<open>random8\<close>.\<close>

inductive random8 :: "('g \<Rightarrow> uint8 \<times> 'g) \<Rightarrow> nat \<Rightarrow> 'g rnd \<Rightarrow> 'g rnd \<Rightarrow> bool" for draw t where
  call: "phase_of s t = Idle \<Longrightarrow> random8 draw t s (set_phase t Waiting s)"
| lock: "phase_of s t = Waiting \<Longrightarrow> rnd_mutex s = None \<Longrightarrow>
    random8 draw t s (set_phase t Drawing (s\<lparr>rnd_mutex := Some t\<rparr>))"
| use: "phase_of s t = Drawing \<Longrightarrow> draw (generator s) = (v, g) \<Longrightarrow>
    random8 draw t s (set_phase t (Returning v) (s\<lparr>generator := g, drawn := drawn s @ [v]\<rparr>))"
| unlock: "phase_of s t = Returning v \<Longrightarrow> random8 draw t s (set_phase t Idle (s\<lparr>rnd_mutex := None\<rparr>))"

text \<open>The steps of a thread in \<^verbatim>\<open>seed\<close>, with the number the random device gives.\<close>

inductive seed :: "(nat \<Rightarrow> 'g) \<Rightarrow> nat \<Rightarrow> 'g rnd \<Rightarrow> 'g rnd \<Rightarrow> bool" for mk t where
  enter: "phase_of s t = Idle \<Longrightarrow> seed mk t s (set_phase t Seeding s)"
| finish: "phase_of s t = Seeding \<Longrightarrow> seed mk t s (set_phase t Idle (s\<lparr>generator := mk rd\<rparr>))"

inductive reachable :: "('g \<Rightarrow> uint8 \<times> 'g) \<Rightarrow> (nat \<Rightarrow> 'g) \<Rightarrow> nat set \<Rightarrow> 'g \<Rightarrow> 'g rnd \<Rightarrow> bool" for draw mk seeders g where
  init: "reachable draw mk seeders g (rnd_init g)"
| rnd: "reachable draw mk seeders g s \<Longrightarrow> random8 draw t s s' \<Longrightarrow> reachable draw mk seeders g s'"
| reseed: "reachable draw mk seeders g s \<Longrightarrow> t \<in> seeders \<Longrightarrow> seed mk t s s' \<Longrightarrow> reachable draw mk seeders g s'"

text \<open>Two threads use the generator at the same time, and at least one of them changes it: a data race.\<close>

definition uses_generator :: "phase \<Rightarrow> bool" where
  "uses_generator p \<longleftrightarrow> p = Drawing \<or> p = Seeding"

definition racing :: "'g rnd \<Rightarrow> bool" where
  "racing s \<longleftrightarrow> (\<exists>t u. t \<noteq> u \<and> uses_generator (phase_of s t) \<and> uses_generator (phase_of s u))"

section \<open>Without seeding\<close>

text \<open>What one thread alone would draw.\<close>

primrec draws :: "('g \<Rightarrow> uint8 \<times> 'g) \<Rightarrow> nat \<Rightarrow> 'g \<Rightarrow> uint8 list \<times> 'g" where
  "draws draw 0 g = ([], g)"
| "draws draw (Suc n) g = (let (vs, g) = draws draw n g; (v, g) = draw g in (vs @ [v], g))"

definition holds_lock :: "phase \<Rightarrow> bool" where
  "holds_lock p \<longleftrightarrow> p = Drawing \<or> (\<exists>v. p = Returning v)"

definition locked_inv :: "('g \<Rightarrow> uint8 \<times> 'g) \<Rightarrow> 'g \<Rightarrow> 'g rnd \<Rightarrow> bool" where
  "locked_inv draw g s \<longleftrightarrow> (\<forall>t. holds_lock (phase_of s t) \<longleftrightarrow> rnd_mutex s = Some t) \<and>
     (\<forall>t. phase_of s t \<noteq> Seeding) \<and> draws draw (length (drawn s)) g = (drawn s, generator s)"

lemma locked_once:
  "locked_inv draw g s \<Longrightarrow> holds_lock (phase_of s t) \<Longrightarrow> holds_lock (phase_of s u) \<Longrightarrow> t = u"
  by (auto simp: locked_inv_def)

lemma holds_lock_simps [simp]:
  "\<not> holds_lock Idle" "\<not> holds_lock Waiting" "holds_lock Drawing" "holds_lock (Returning v)" "\<not> holds_lock Seeding"
  by (simp_all add: holds_lock_def)

lemma locked_inv_step:
  assumes "random8 draw t s s'" "locked_inv draw g s"
  shows "locked_inv draw g s'"
proof -
  have l: "holds_lock (phase_of s t) = (rnd_mutex s = Some t)" using assms(2) unfolding locked_inv_def by blast
  show ?thesis using assms(1)
  proof (cases rule: random8.cases)
    case (unlock v)
    then have "rnd_mutex s = Some t" using l by simp
    then show ?thesis using unlock assms(2) by (simp add: locked_inv_def set_phase_def)
  qed (use l assms(2) in \<open>auto simp: locked_inv_def set_phase_def split: if_splits\<close>)
qed

lemma reachable_locked: "reachable draw mk {} g s \<Longrightarrow> locked_inv draw g s"
proof (induction rule: reachable.induct)
  case init
  show ?case by (simp add: locked_inv_def rnd_init_def holds_lock_def)
qed (auto intro: locked_inv_step)

text \<open>
  C38: calls of \<^verbatim>\<open>random8\<close> from any number of threads are safe: whenever no thread seeds, at most one
  thread is in the generator, and the bytes handed out, in the order of their draws, are those one
  thread alone would have drawn from the same generator.
\<close>

theorem random8_threads:
  assumes "reachable draw mk {} g s"
  shows "\<not> racing s \<and> drawn s = fst (draws draw (length (drawn s)) g)"
proof -
  have i: "locked_inv draw g s" by (rule reachable_locked [OF assms])
  have "holds_lock (phase_of s t)" if "uses_generator (phase_of s t)" for t
    using that i by (auto simp: locked_inv_def uses_generator_def holds_lock_def)
  then have "t = u" if "uses_generator (phase_of s t)" "uses_generator (phase_of s u)" for t u
    using locked_once [OF i] that by blast
  then show ?thesis using i by (auto simp: racing_def locked_inv_def)
qed

text \<open>Two threads draw from a generator that counts.\<close>

definition count_draw :: "nat \<Rightarrow> uint8 \<times> nat" where
  "count_draw n = (of_nat n, n + 1)"

lemma reach_steps:
  assumes "reachable draw mk S g s"
  shows "phase_of s t = Idle \<Longrightarrow> reachable draw mk S g (set_phase t Waiting s)"
    "phase_of s t = Waiting \<Longrightarrow> rnd_mutex s = None \<Longrightarrow> reachable draw mk S g (set_phase t Drawing (s\<lparr>rnd_mutex := Some t\<rparr>))"
    "phase_of s t = Drawing \<Longrightarrow> reachable draw mk S g
      (set_phase t (Returning (fst (draw (generator s)))) (s\<lparr>generator := snd (draw (generator s)), drawn := drawn s @ [fst (draw (generator s))]\<rparr>))"
    "phase_of s t = Idle \<Longrightarrow> t \<in> S \<Longrightarrow> reachable draw mk S g (set_phase t Seeding s)"
  using reachable.rnd [OF assms random8.call] reachable.rnd [OF assms random8.lock]
    reachable.rnd [OF assms random8.use, of t "fst (draw (generator s))" "snd (draw (generator s))"]
    reachable.reseed [OF assms _ seed.enter] by simp_all

lemma set_phase_simps [simp]:
  "phase_of (set_phase t p s) u = (if u = t then p else phase_of s u)" "rnd_mutex (set_phase t p s) = rnd_mutex s"
  "generator (set_phase t p s) = generator s" "drawn (set_phase t p s) = drawn s"
  by (simp_all add: set_phase_def)

text \<open>Thread \<open>t\<close> in the generator, the others idle.\<close>

definition in_generator :: "nat \<Rightarrow> 'g \<Rightarrow> 'g rnd" where
  "in_generator t g = set_phase t Drawing ((set_phase t Waiting (rnd_init g))\<lparr>rnd_mutex := Some t\<rparr>)"

lemma reach_in_generator: "reachable draw mk S g (in_generator t g)"
  unfolding in_generator_def
  by (intro reach_steps(1,2) reachable.init) (simp_all add: rnd_init_def)

theorem random8_threads_witness:
  "\<exists>s. reachable count_draw (\<lambda>_. 0) {} 7 s \<and> drawn s = [7] \<and> phase_of s 2 = Waiting \<and> \<not> racing s \<and>
     drawn s = fst (draws count_draw 1 7)"
proof -
  let ?s = "set_phase 2 Waiting (in_generator 1 (7 :: nat))"
  have r: "reachable count_draw (\<lambda>_. 0) {} 7 ?s"
    by (intro reach_steps(1) reach_in_generator) (simp add: in_generator_def rnd_init_def)
  have d: "phase_of ?s 1 = Drawing" "generator ?s = 7" "drawn ?s = []" by (simp_all add: in_generator_def rnd_init_def)
  let ?u = "set_phase 1 (Returning 7) (?s\<lparr>generator := 8, drawn := [7]\<rparr>)"
  have u: "reachable count_draw (\<lambda>_. 0) {} 7 ?u"
    using reach_steps(3) [OF r d(1)] d by (simp add: count_draw_def)
  show ?thesis using random8_threads [OF u] u by (intro exI [of _ ?u]) (simp add: count_draw_def)
qed

section \<open>With seeding\<close>

text \<open>
  C39: \<^verbatim>\<open>seed\<close> is not safe beside \<^verbatim>\<open>random8\<close>: it does not take the mutex, so as soon as one thread may seed, a
  state is reachable in which it reinitialises the generator while another thread draws from it.
\<close>

theorem seed_races: "\<exists>s. reachable draw mk {t} g s \<and> racing s"
proof -
  let ?u = "Suc t"
  have "reachable draw mk {t} g (set_phase t Seeding (in_generator ?u g))"
    by (intro reach_steps(4) reach_in_generator) (simp_all add: in_generator_def rnd_init_def)
  moreover have "racing (set_phase t Seeding (in_generator ?u g))"
    unfolding racing_def by (intro exI [of _ t] exI [of _ ?u]) (simp add: uses_generator_def in_generator_def)
  ultimately show ?thesis by blast
qed

end
