(* ===== verification/Settings.thy ===== *)
theory Settings
  imports StringOps File
begin

text \<open>
  Configuration files, \<^verbatim>\<open>emu/util/settings.hpp\<close> and \<^verbatim>\<open>emu/util/settings.cpp\<close>. Warnings are collected in
  order. Of the standard library: the end of the number \<^verbatim>\<open>strtol\<close> reads with base 0, and
  \<^verbatim>\<open>std::stoi\<close>, whose exception for a value outside \<^verbatim>\<open>int\<close> is \<open>None\<close>; both only see strings that do
  not start with white space.
\<close>

section \<open>Values\<close>

datatype setting = SBool bool | SString string | SInt int
datatype setting_type = SETTINGTYPE_BOOL | SETTINGTYPE_STRING | SETTINGTYPE_NUMBER

text \<open>The index of the alternative a variant holds, as the enumeration numbers it.\<close>

primrec setting_index :: "setting \<Rightarrow> setting_type" where
  "setting_index (SBool b) = SETTINGTYPE_BOOL"
| "setting_index (SString s) = SETTINGTYPE_STRING"
| "setting_index (SInt i) = SETTINGTYPE_NUMBER"

record valid_setting =
  set_key :: string
  set_type :: setting_type
  set_def :: setting

datatype conf_warning = NotPair string | KeyNotFound string | InvalidType string

section \<open>Numbers\<close>

definition isdigit :: "char \<Rightarrow> bool" where
  "isdigit c \<longleftrightarrow> digit_value c < 10"

definition is_sign :: "char \<Rightarrow> bool" where
  "is_sign c \<longleftrightarrow> c = CHR ''+'' \<or> c = CHR ''-''"

definition skip_sign :: "string \<Rightarrow> string" where
  "skip_sign s = (case s of [] \<Rightarrow> [] | c # t \<Rightarrow> if is_sign c then t else s)"

definition strtol_base :: "string \<Rightarrow> nat \<times> string" where
  "strtol_base t =
     (case t of
        z # x # d # u \<Rightarrow>
          if z = CHR ''0'' \<and> (x = CHR ''x'' \<or> x = CHR ''X'') \<and> digit_value d < 16 then (16, d # u)
          else if z = CHR ''0'' then (8, t) else (10, t)
      | z # _ \<Rightarrow> if z = CHR ''0'' then (8, t) else (10, t)
      | [] \<Rightarrow> (10, t))"

text \<open>What \<^verbatim>\<open>endptr\<close> points to after \<^verbatim>\<open>strtol(s, &endptr, 0)\<close>.\<close>

definition strtol_end :: "string \<Rightarrow> string" where
  "strtol_end s =
     (let (base, t) = strtol_base (skip_sign s);
          ds = takeWhile (\<lambda>c. digit_value c < base) t
      in if ds = [] then s else drop (length ds) t)"

definition is_int :: "string \<Rightarrow> bool" where
  "is_int s \<longleftrightarrow> s \<noteq> [] \<and> (isdigit (hd s) \<or> is_sign (hd s)) \<and> strtol_end (takeWhile (\<lambda>c. c \<noteq> CHR 0x00) s) = []"

definition stoi :: "string \<Rightarrow> int option" where
  "stoi s =
     (let ds = takeWhile (\<lambda>c. digit_value c < 10) (skip_sign s);
          v = int (digits_value 10 ds);
          v = (if s \<noteq> [] \<and> hd s = CHR ''-'' then - v else v)
      in if ds \<noteq> [] \<and> - (2 ^ 31) \<le> v \<and> v < 2 ^ 31 then Some v else None)"

definition parse_value :: "string \<Rightarrow> setting option" where
  "parse_value s =
     (if s = ''true'' then Some (SBool True)
      else if s = ''false'' then Some (SBool False)
      else if is_int s then map_option SInt (stoi s)
      else Some (SString s))"

section \<open>Files\<close>

function read_pairs ::
  "stream \<Rightarrow> (string \<rightharpoonup> string) \<Rightarrow> conf_warning list \<Rightarrow> (string \<rightharpoonup> string) \<times> conf_warning list" where
  "read_pairs f kvmap ws =
     (case getline 0x0A f of
        (ok, line, f') \<Rightarrow>
          if \<not> ok then (kvmap, ws)
          else let line = text_of line in
            if line = [] \<or> hd line = CHR ''#'' then read_pairs f' kvmap ws
            else case strsplit line CHR ''='' of
                   [k, v] \<Rightarrow> read_pairs f' (kvmap(k \<mapsto> v)) ws
                 | _ \<Rightarrow> read_pairs f' kvmap (ws @ [NotPair line]))"
  by pat_completeness auto
termination
  by (relation "measure (\<lambda>(f, kvmap, ws). length f)") (auto dest: getline_shorter [OF sym])

declare read_pairs.simps [simp del]

primrec check_settings ::
  "(string \<rightharpoonup> string) \<Rightarrow> valid_setting list \<Rightarrow> (string \<rightharpoonup> setting) \<Rightarrow> conf_warning list \<Rightarrow>
   ((string \<rightharpoonup> setting) \<times> conf_warning list) option" where
  "check_settings kvmap [] smap ws = Some (smap, ws)"
| "check_settings kvmap (st # sts) smap ws =
     (case kvmap (set_key st) of
        None \<Rightarrow> check_settings kvmap sts (smap(set_key st \<mapsto> set_def st)) (ws @ [KeyNotFound (set_key st)])
      | Some t \<Rightarrow>
          do { value \<leftarrow> parse_value t;
               if setting_index value \<noteq> set_type st
               then check_settings kvmap sts (smap(set_key st \<mapsto> set_def st)) (ws @ [InvalidType (set_key st)])
               else check_settings kvmap sts (smap(set_key st \<mapsto> value)) ws })"

definition parse_conf ::
  "stream \<Rightarrow> valid_setting list \<Rightarrow> ((string \<rightharpoonup> setting) \<times> conf_warning list) option" where
  "parse_conf f valid_settings =
     (let (kvmap, ws) = read_pairs f Map.empty []
      in check_settings kvmap valid_settings Map.empty ws)"

section \<open>Reading pairs\<close>

definition pair_ok :: "string \<Rightarrow> string \<Rightarrow> bool" where
  "pair_ok k v \<longleftrightarrow> k \<noteq> [] \<and> v \<noteq> [] \<and> CHR ''='' \<notin> set (k @ v) \<and> CHR 0x0A \<notin> set (k @ v) \<and>
     hd k \<notin> {CHR '' '', CHR 0x09, CHR ''#''}"

definition pair_line :: "string \<times> string \<Rightarrow> string" where
  "pair_line = (\<lambda>(k, v). k @ CHR ''='' # v)"

definition conf_text :: "(string \<times> string) list \<Rightarrow> stream" where
  "conf_text ps = concat (map (\<lambda>p. bytes_of (pair_line p) @ [0x0A]) ps)"

lemma strsplit_pair: "pair_ok k v \<Longrightarrow> strsplit (k @ CHR ''='' # v) CHR ''='' = [k, v]"
  using strsplit_loop_join [of "[k, v]" "CHR ''=''" "[]" "[]"] by (simp add: pair_ok_def strsplit_def)

lemma getline_pair:
  assumes "pair_ok k v"
  shows "getline 0x0A (bytes_of (k @ CHR ''='' # v) @ 0x0A # f) = (True, bytes_of (k @ CHR ''='' # v), f)"
proof (rule getline_plain)
  show "plain_line (bytes_of (k @ CHR ''='' # v))"
    unfolding plain_line_bytes using assms by (cases k) (simp_all add: pair_ok_def)
qed

lemma read_pairs_step:
  assumes "pair_ok k v"
  shows "read_pairs (bytes_of (k @ CHR ''='' # v) @ 0x0A # f) kvmap ws = read_pairs f (kvmap(k \<mapsto> v)) ws"
proof -
  have "k \<noteq> []" "hd k \<noteq> CHR ''#''" using assms by (simp_all add: pair_ok_def)
  then show ?thesis
    by (subst read_pairs.simps)
       (simp only: getline_pair [OF assms] prod.case text_of_bytes Let_def strsplit_pair [OF assms], simp)
qed

lemma read_pairs_lines:
  assumes "\<forall>(k, v) \<in> set ps. pair_ok k v"
  shows "read_pairs (conf_text ps) kvmap ws = (kvmap ++ map_of (rev ps), ws)"
  using assms
proof (induction ps arbitrary: kvmap)
  case Nil
  then show ?case by (subst read_pairs.simps) (simp add: conf_text_def getline_eq Let_def)
next
  case (Cons p ps)
  obtain k v where p: "p = (k, v)" by fastforce
  have "conf_text (p # ps) = bytes_of (k @ CHR ''='' # v) @ 0x0A # conf_text ps"
    by (simp add: conf_text_def pair_line_def p)
  then show ?case using Cons read_pairs_step [of k v] by (simp add: p map_add_def fun_eq_iff split: option.splits)
qed

section \<open>The result is typed\<close>

definition setting_value :: "(string \<rightharpoonup> string) \<Rightarrow> valid_setting \<Rightarrow> setting" where
  "setting_value kvmap st =
     (case Option.bind (kvmap (set_key st)) parse_value of
        None \<Rightarrow> set_def st
      | Some v \<Rightarrow> if setting_index v = set_type st then v else set_def st)"

lemma check_settings_values:
  assumes "check_settings kvmap sts smap ws = Some (smap', ws')" "distinct (map set_key sts)"
  shows "(\<forall>k. k \<notin> set_key ` set sts \<longrightarrow> smap' k = smap k) \<and>
    (\<forall>st \<in> set sts. smap' (set_key st) = Some (setting_value kvmap st))"
  using assms
proof (induction sts arbitrary: smap ws)
  case (Cons st sts)
  from Cons.prems(1) obtain v ws1 where v: "check_settings kvmap sts (smap(set_key st \<mapsto> v)) ws1 = Some (smap', ws')"
    "v = setting_value kvmap st"
    by (auto simp: setting_value_def split: option.splits if_splits Option.bind_splits)
  from Cons.IH [OF v(1)] Cons.prems(2) v(2) show ?case by force
qed simp

text \<open>
  C40: \<^verbatim>\<open>parse_conf\<close> of a file of lines \<^verbatim>\<open>key=value\<close> gives every valid key, and no other, a value of the
  declared type: the value of the last line with that key when it has the type, else the default. (It has a result as
  long as no integer among the values is outside \<^verbatim>\<open>int\<close>, where \<^verbatim>\<open>std::stoi\<close> throws.)
\<close>

theorem parse_conf_typed:
  assumes "\<forall>(k, v) \<in> set ps. pair_ok k v" "distinct (map set_key sts)"
    and "\<forall>st \<in> set sts. setting_index (set_def st) = set_type st"
    and "parse_conf (conf_text ps) sts = Some (smap, ws)"
  shows "dom smap = set_key ` set sts \<and>
    (\<forall>st \<in> set sts. \<exists>v. smap (set_key st) = Some v \<and> setting_index v = set_type st \<and>
       v = (case Option.bind (map_of (rev ps) (set_key st)) parse_value of
              None \<Rightarrow> set_def st | Some v \<Rightarrow> if setting_index v = set_type st then v else set_def st))"
proof -
  have "check_settings (map_of (rev ps)) sts Map.empty [] = Some (smap, ws)"
    using assms(4) by (simp add: parse_conf_def read_pairs_lines [OF assms(1)])
  note v = check_settings_values [OF this assms(2)]
  have "setting_index (setting_value (map_of (rev ps)) st) = set_type st" if "st \<in> set sts" for st
    using assms(3) that by (simp add: setting_value_def split: option.splits)
  moreover have "k \<in> set_key ` set sts" if "smap k \<noteq> None" for k using v that by force
  ultimately show ?thesis using v unfolding setting_value_def [symmetric] by (auto simp: dom_def)
qed

definition demo_settings :: "valid_setting list" where
  "demo_settings = [\<lparr>set_key = ''foo'', set_type = SETTINGTYPE_NUMBER, set_def = SInt 0\<rparr>,
     \<lparr>set_key = ''bar'', set_type = SETTINGTYPE_BOOL, set_def = SBool False\<rparr>]"

lemma parse_value_12: "parse_value ''12'' = Some (SInt 12)"
  by (simp add: parse_value_def is_int_def strtol_end_def strtol_base_def skip_sign_def isdigit_def is_sign_def stoi_def
      digit_value_def digits_value_def)

theorem parse_conf_typed_witness:
  "\<exists>smap ws. parse_conf (conf_text [(''foo'', ''12''), (''bar'', ''7'')]) demo_settings = Some (smap, ws) \<and>
     smap ''foo'' = Some (SInt 12) \<and> dom smap = {''foo'', ''bar''}"
proof -
  let ?ps = "[(''foo'', ''12''), (''bar'', ''7'')]"
  have ok: "\<forall>(k, v) \<in> set ?ps. pair_ok k v" by (simp add: pair_ok_def)
  have 7: "parse_value ''7'' = Some (SInt 7)"
    by (simp add: parse_value_def is_int_def strtol_end_def strtol_base_def skip_sign_def isdigit_def is_sign_def stoi_def
        digit_value_def digits_value_def)
  have "\<exists>r. parse_conf (conf_text ?ps) demo_settings = Some r"
    by (simp add: parse_conf_def read_pairs_lines [OF ok] demo_settings_def parse_value_12 7)
  then obtain smap ws where r: "parse_conf (conf_text ?ps) demo_settings = Some (smap, ws)" by auto
  from parse_conf_typed [OF ok _ _ r] r show ?thesis
    by (simp add: demo_settings_def parse_value_12)
qed

text \<open>A number with a hexadecimal prefix passes the test, which reads with base 0, and is then
  converted with base 10.\<close>

lemma parse_value_hex: "parse_value ''0x10'' = Some (SInt 0)"
  by (simp add: parse_value_def is_int_def strtol_end_def strtol_base_def skip_sign_def isdigit_def is_sign_def stoi_def
      digit_value_def digits_value_def)

end
