(* ===== verification/Unsigned.thy ===== *)
theory Unsigned
  imports Prelude
begin

text \<open>
  The integers of arbitrary width, \<^verbatim>\<open>UInt<Bits>\<close> of \<^verbatim>\<open>emu/util/unsigned.hpp\<close>. A number is stored in the
  smallest of four unsigned types; \<open>store\<close> is the conversion to that type. Arithmetic happens in
  \<^verbatim>\<open>int\<close> when the type is narrower than \<^verbatim>\<open>int\<close>. \<open>None\<close> is an operation C++ gives no result: division
  by zero, a shift by the width of the promoted operand or more, an overflow of \<^verbatim>\<open>int\<close>. The width
  \<open>B\<close> is between 1 and 64, as the \<^verbatim>\<open>static_assert\<close> and the shift in \<^verbatim>\<open>cast\<close> require.
\<close>

unbundle bit_operations_syntax

definition inttype :: "nat \<Rightarrow> nat" where
  "inttype B = (if B \<le> 8 then 8 else if B \<le> 16 then 16 else if B \<le> 32 then 32 else 64)"

definition store :: "nat \<Rightarrow> int \<Rightarrow> int" where
  "store B v = v mod 2 ^ inttype B"

definition UInt_MAX :: "nat \<Rightarrow> int" where
  "UInt_MAX B = (2 ^ 64 - 1) div 2 ^ (64 - B)"

definition uint_cast :: "nat \<Rightarrow> int \<Rightarrow> int" where
  "uint_cast B val = store B val AND ((2 ^ 64 - 1) div 2 ^ (64 - B))"

text \<open>The width of the type the operands are promoted to.\<close>

definition promoted :: "nat \<Rightarrow> nat" where
  "promoted B = (if inttype B < 32 then 32 else inttype B)"

definition uint_assign :: "nat \<Rightarrow> int \<Rightarrow> int" where
  "uint_assign B val = uint_cast B val"

definition uint_add :: "nat \<Rightarrow> int \<Rightarrow> int \<Rightarrow> int" where
  "uint_add B num val = store B (num + uint_cast B val)"

definition uint_sub :: "nat \<Rightarrow> int \<Rightarrow> int \<Rightarrow> int" where
  "uint_sub B num val = store B (num - uint_cast B val)"

definition uint_mul :: "nat \<Rightarrow> int \<Rightarrow> int \<Rightarrow> int option" where
  "uint_mul B num val =
     (let p = num * uint_cast B val in
      if inttype B < 32 \<and> 2 ^ 31 \<le> p then None else Some (store B p))"

definition uint_div :: "nat \<Rightarrow> int \<Rightarrow> int \<Rightarrow> int option" where
  "uint_div B num val = (if uint_cast B val = 0 then None else Some (store B (num div uint_cast B val)))"

definition uint_mod :: "nat \<Rightarrow> int \<Rightarrow> int \<Rightarrow> int option" where
  "uint_mod B num val = (if uint_cast B val = 0 then None else Some (store B (num mod uint_cast B val)))"

definition uint_and :: "nat \<Rightarrow> int \<Rightarrow> int \<Rightarrow> int" where
  "uint_and B num val = store B (num AND uint_cast B val)"

text \<open>The free \<^verbatim>\<open>operator&\<close> works on a copy.\<close>

definition uint_band :: "nat \<Rightarrow> int \<Rightarrow> int \<Rightarrow> int" where
  "uint_band B n val = uint_and B n val"

definition uint_or :: "nat \<Rightarrow> int \<Rightarrow> int \<Rightarrow> int" where
  "uint_or B num val = store B (num OR uint_cast B val)"

definition uint_xor :: "nat \<Rightarrow> int \<Rightarrow> int \<Rightarrow> int" where
  "uint_xor B num val = store B (num XOR uint_cast B val)"

definition uint_shr :: "nat \<Rightarrow> int \<Rightarrow> int \<Rightarrow> int option" where
  "uint_shr B num val =
     (let k = uint_cast B val in
      if k < int (promoted B) then Some (store B (num div 2 ^ nat k)) else None)"

definition uint_shl :: "nat \<Rightarrow> int \<Rightarrow> int \<Rightarrow> int option" where
  "uint_shl B num val =
     (let k = uint_cast B val in
      if k < int (promoted B) then Some (store B (num * 2 ^ nat k mod 2 ^ promoted B)) else None)"

definition uint_inc :: "nat \<Rightarrow> int \<Rightarrow> int" where
  "uint_inc B num = uint_cast B (num + 1)"

definition uint_dec :: "nat \<Rightarrow> int \<Rightarrow> int" where
  "uint_dec B num = uint_cast B (num - 1)"

text \<open>The post-increments return the old number.\<close>

definition uint_postinc :: "nat \<Rightarrow> int \<Rightarrow> int \<times> int" where
  "uint_postinc B num = (num, uint_cast B (num + 1))"

definition uint_postdec :: "nat \<Rightarrow> int \<Rightarrow> int \<times> int" where
  "uint_postdec B num = (num, uint_cast B (num - 1))"

section \<open>The range\<close>

definition valid_width :: "nat \<Rightarrow> bool" where
  "valid_width B \<longleftrightarrow> 1 \<le> B \<and> B \<le> 64"

definition in_range :: "nat \<Rightarrow> int \<Rightarrow> bool" where
  "in_range B n \<longleftrightarrow> 0 \<le> n \<and> n < 2 ^ B"

lemma max_mask:
  assumes "B \<le> 64"
  shows "((2 :: int) ^ 64 - 1) div 2 ^ (64 - B) = mask B"
proof -
  have "drop_bit (64 - B) (mask 64 :: int) = mask B"
    using assms by (simp add: drop_bit_mask_eq)
  then show ?thesis by (simp only: drop_bit_eq_div mask_eq_exp_minus_1)
qed

lemma inttype_ge: "valid_width B \<Longrightarrow> B \<le> inttype B"
  by (simp add: valid_width_def inttype_def)

lemma uint_cast_eq:
  assumes "valid_width B"
  shows "uint_cast B v = v mod 2 ^ B"
proof -
  have "(2 :: int) ^ B dvd 2 ^ inttype B" using inttype_ge [OF assms] by (rule le_imp_power_dvd)
  then have "v mod 2 ^ inttype B mod 2 ^ B = v mod 2 ^ B" by (rule mod_mod_cancel)
  then show ?thesis using assms
    by (simp only: uint_cast_def max_mask valid_width_def store_def flip: take_bit_eq_mask)
       (simp only: take_bit_eq_mod)
qed

lemma in_range_mod [simp]: "in_range B (v mod 2 ^ B)"
  by (simp add: in_range_def)

lemma store_range:
  assumes "valid_width B" "in_range B v"
  shows "store B v = v"
proof -
  have "(2 :: int) ^ B \<le> 2 ^ inttype B" using inttype_ge [OF assms(1)] by (rule power_increasing) simp
  moreover have "0 \<le> v" "v < 2 ^ B" using assms(2) by (simp_all add: in_range_def)
  ultimately have "v < 2 ^ inttype B" by linarith
  then show ?thesis using \<open>0 \<le> v\<close> by (simp add: store_def mod_pos_pos_trivial)
qed

lemma in_range_bits:
  assumes "in_range B m" "in_range B n"
  shows "in_range B (m AND n)" "in_range B (m OR n)" "in_range B (m XOR n)"
proof -
  have t: "take_bit B x = x" if "in_range B x" for x
    using that by (simp add: in_range_def take_bit_int_eq_self)
  have r: "in_range B x" if "take_bit B x = x" for x
    by (metis that in_range_mod take_bit_eq_mod)
  show "in_range B (m AND n)" "in_range B (m OR n)" "in_range B (m XOR n)"
    using t [OF assms(1)] t [OF assms(2)] by (auto intro!: r simp: take_bit_and take_bit_or take_bit_xor)
qed

lemma in_range_shrink:
  assumes "in_range B n" "0 < k"
  shows "in_range B (n div k)" "in_range B (n mod k)"
proof -
  have "0 \<le> n" "1 \<le> k" using assms by (simp_all add: in_range_def)
  then have "n div k \<le> n div 1" by (intro zdiv_mono2) simp_all
  then have "n div k \<le> n" by simp
  moreover have "n mod k \<le> n" using assms by (simp add: in_range_def zmod_le_nonneg_dividend)
  moreover have "0 \<le> n div k" "0 \<le> n mod k" using assms \<open>0 \<le> n\<close> by (simp_all add: pos_imp_zdiv_nonneg_iff)
  moreover have "n < 2 ^ B" using assms(1) by (simp add: in_range_def)
  ultimately show "in_range B (n div k)" "in_range B (n mod k)" unfolding in_range_def by linarith+
qed

text \<open>
  Assignment, increment and decrement of a \<^verbatim>\<open>UInt<Bits>\<close> compute modulo two to the power \<^verbatim>\<open>Bits\<close>, and
  the bitwise, dividing and right-shifting assignments keep a number below that bound.
\<close>

theorem uint_ops_range:
  assumes "valid_width B" "in_range B num"
  shows "uint_assign B val = val mod 2 ^ B \<and> uint_inc B num = (num + 1) mod 2 ^ B \<and>
    uint_dec B num = (num - 1) mod 2 ^ B \<and>
    in_range B (uint_and B num val) \<and> in_range B (uint_or B num val) \<and> in_range B (uint_xor B num val) \<and>
    pred_option (in_range B) (uint_div B num val) \<and> pred_option (in_range B) (uint_mod B num val) \<and>
    pred_option (in_range B) (uint_shr B num val)"
proof -
  have c: "in_range B (uint_cast B v)" for v by (simp add: uint_cast_eq [OF assms(1)])
  note b = in_range_bits [OF assms(2) c [of val]]
  have d: "in_range B (num div k)" "in_range B (num mod k)" if "0 < k" for k
    using in_range_shrink [OF assms(2) that] .
  have p: "0 < uint_cast B val" if "uint_cast B val \<noteq> 0" using that c [of val] by (simp add: in_range_def)
  show ?thesis
    using assms(2) b d [OF p] d [of "2 ^ nat (uint_cast B val)"]
    by (simp add: uint_assign_def uint_inc_def uint_dec_def uint_and_def uint_or_def uint_xor_def uint_div_def
        uint_mod_def uint_shr_def Let_def store_range [OF assms(1)] uint_cast_eq [OF assms(1)])
qed

theorem uint_ops_range_witness: "uint_inc 5 31 = 0 \<and> in_range 5 (uint_or 5 31 255)"
  using uint_ops_range [of 5 31 255] by (simp add: valid_width_def in_range_def)

text \<open>The arithmetic assignments do not wrap at the width: a five-bit number becomes 32.\<close>

lemma uint_add_leaves_range: "uint_add 5 31 1 = 32" "uint_sub 5 0 1 = 255" "uint_mul 5 31 2 = Some 62" "uint_shl 5 31 3 = Some 248"
  by (simp_all add: uint_add_def uint_sub_def uint_mul_def uint_shl_def uint_cast_eq valid_width_def store_def
      inttype_def promoted_def Let_def)

end
