(* ===== verification/Spec2Isabelle.thy ===== *)
theory Spec2Isabelle
  imports MainProgram FramePicture CpuDepartures FileStream EasyRandom Settings Unsigned
begin

text \<open>
  A verification library of \<^verbatim>\<open>yanesemu\<close>, an emulator of the Nintendo Entertainment System written in
  C++ (sources under \<^verbatim>\<open>src/emu\<close>).

  \<^bold>\<open>The program.\<close> \<^verbatim>\<open>main.cpp\<close> reads the command line, opens a ROM file, gives it to an \<^verbatim>\<open>Emulator\<close> and runs
  frames in an event loop. The emulator owns the processor (\<^verbatim>\<open>CPU\<close>), the picture unit (\<^verbatim>\<open>PPU\<close>), the
  cartridge and two buses. A bus dispatches an address to handlers that the components register
  (\<^verbatim>\<open>attach_bus\<close>); through them the processor reaches its RAM, the registers of the picture unit and
  the program memory, and the picture unit reaches its own memories and the character memory.
  \<^verbatim>\<open>Emulator::run\<close> executes one instruction and then three cycles of the picture unit per cycle of the
  processor; at the start of the vertical blank the picture unit calls back, which ends the frame and
  raises the interrupt. The processor calls the debugger before each access; the debugger calls the
  command line interface.

  \<^bold>\<open>State and errors.\<close> Structures are records, enumerations datatypes, integers of 8 to 64 bits
  \<open>word\<close>s, \<^verbatim>\<open>int\<close> is \<open>int\<close> with its range written out where the program can leave it. Operations pass
  their state explicitly. An access out of range, a failed assertion, a null or unset callback, and
  signed overflow have no result: \<open>None\<close>, or \<open>Fault\<close> of the type \<open>outcome\<close> for loops, which also has
  \<open>OutOfFuel\<close>. Memory that was never written is a parameter, and every theorem holds for all of it.

  \<^bold>\<open>Theories and sources.\<close>

  \<^item> \<open>Prelude\<close>: types, collections and lemmas on lists, options and words shared by all theories.
  \<^item> \<open>Bits\<close>, \<open>Unsigned\<close>, \<open>HeapArray\<close>, \<open>StringOps\<close>, \<open>File\<close>, \<open>FileStream\<close>, \<open>EasyRandom\<close>, \<open>Settings\<close>, \<open>CmdLine\<close>: the utilities \<^verbatim>\<open>util/bits.hpp\<close>,
    \<^verbatim>\<open>unsigned.hpp\<close>, \<^verbatim>\<open>heaparray.hpp\<close>, \<^verbatim>\<open>stringops.*\<close>, \<^verbatim>\<open>file.*\<close> (twice), \<^verbatim>\<open>easyrandom.*\<close>, \<^verbatim>\<open>settings.*\<close>, \<^verbatim>\<open>cmdline.*\<close>. Shown: bit fields get
    what they were set to and copy assignment does not, wrap-around of the small integers, what the
    loops over arrays compute, what opening, closing and moving a file does and which lines it is read
    into, that reading through a stream of the C library is reading from the list of the bytes to come
    (refinement) and what is written is read back, that threads may draw random numbers together but
    not seed, that splitting undoes joining, that settings have their declared types, which options are found.
  \<^item> \<open>Bus\<close>: \<^verbatim>\<open>core/bus.*\<close>. The table implements a map from addresses to handlers (refinement), up to
    sixteen regions; the search for a free one then leaves its table.
  \<^item> \<open>InstrInfo\<close>: \<^verbatim>\<open>core/instrinfo.*\<close>, the decoder and disassembler and where a disassembly ends.
  \<^item> \<open>Cpu\<close>, \<open>Instructions\<close>: \<^verbatim>\<open>core/cpu.*\<close> and \<^verbatim>\<open>core/instructions.cpp\<close>, over a pair of functions for the bus
    and an abstract memory. \<open>CpuTheorems\<close> shows cycle counts, lengths and the agreement of the two
    decoders; \<open>CpuArith\<close> arithmetic and flags; \<open>CpuInvariant\<close> has the locale \<open>memory_invariant\<close> (what every
    access keeps a run keeps) and that every instruction returns; \<open>CpuMemory\<close> has the locale
    \<open>cpu_memory\<close> (a memory with RAM, plain addresses and inert ports) with calls, interrupts, power-up
    and the predicted next address. \<open>Mos6502\<close> is the documented 6502 as a specification, with its regular
    encoding of opcodes; \<open>CpuRefines\<close> shows in the locale \<open>cpu_memory\<close> that the code implements it, instruction
    by instruction and over programs; \<open>CpuSimulation\<close> has the locale \<open>cpu_simulation\<close> (when the accesses of two
    processors correspond, their runs do, either in both directions or only where the first has a result).
  \<^item> \<open>Canvas\<close>, \<open>Video\<close>: \<^verbatim>\<open>video/video.*\<close>, the frame and its pixels, textures and window.
  \<^item> \<open>OpenGl\<close>: \<^verbatim>\<open>video/opengl.*\<close>, the graphics back end, as the sequence of the calls it makes. It implements
    the interface \<^verbatim>\<open>Context::Impl\<close> (refinement), for calls that keep the size of a texture and over a model of OpenGL
    after its reference pages, and a ledger of the calls shows what is never released.
  \<^item> \<open>Ppu\<close>, \<open>PpuMain\<close>: \<^verbatim>\<open>core/ppu.*\<close> and \<^verbatim>\<open>core/ppumain.cpp\<close>: registers, memories, rendering and the timetable
    of a frame. \<open>PpuMain\<close> has the locale of a total video bus, in which a cycle always has a result and
    the counters stay in step; \<open>PpuTheorems\<close> shows registers, scrolling and name tables; \<open>PpuLine\<close> has the
    locale \<open>rendering\<close> (a video bus that answers by the memories of the unit), in which the fetches and shift
    registers are followed over a line and a frame. \<open>Picture\<close> states its result for the machine: the
    pixels of a frame as a function of the video memory; \<open>FramePicture\<close> shows that \<^verbatim>\<open>run_frame\<close> leaves this
    picture on the screen when the processor does not touch the picture unit meanwhile.
  \<^item> \<open>Cartridge\<close>: \<^verbatim>\<open>core/cartridge.*\<close>, the iNES format and the program banks.
  \<^item> \<open>Emulator\<close>: \<^verbatim>\<open>core/emulator.*\<close>, the wiring. It interprets the locales of the processor and the picture
    unit (\<open>video_bus\<close>, \<open>rendering\<close>) on the machine. \<open>EmulatorRun\<close> shows that a frame ends; \<open>Machine\<close> carries the facts of the
    locales to the machine and shows that it boots; \<open>CpuProgram\<close> shows that the machine, with the picture
    unit running between the instructions, executes a frame of a program as the documented 6502 does;
    \<open>CpuDepartures\<close> shows for each instruction exactly when it does not, and what the code does instead.
  \<^item> \<open>Debugger\<close>, \<open>CliDbg\<close>: \<^verbatim>\<open>core/debugger.*\<close> and \<^verbatim>\<open>core/clidbg.*\<close>, breakpoints, stepping, backtrace and the
    command loop. \<open>DebugMachine\<close> is the machine with the debugger attached; it interprets \<open>cpu_simulation\<close>
    three times and shows that an idle debugger leaves the run of a frame unchanged and that the command \<^verbatim>\<open>step\<close>
    executes one instruction and stops at the next.
  \<^item> \<open>MainProgram\<close>: \<^verbatim>\<open>main.cpp\<close>, from the command line to the pictures the graphics back end shows, which
    are the frames of the machine.

  \<^bold>\<open>Bounds and fuel.\<close> A frame of the picture unit has 341 times 262 cycles, and an instruction passes at
  least three, so \<open>run_frame\<close> with fuel 29782 ends (\<open>run_frame_returns\<close>). The command loop of the debugger gets
  one turn per byte of input and one more, and its disassemblies fuel 0xFFFE (\<open>repl_returns\<close>); it returns unless
  it is told to disassemble up to one of the last three addresses. A disassembly ends with as much fuel as
  it has addresses when its last address is at most 0xFFFC; up to 0xFFFF it never ends. The event loop runs as
  long as it is given polls. All other loops are functions with a termination proof.

  \<^bold>\<open>Parameters.\<close> Number formatting of the library \<^verbatim>\<open>fmt\<close>, decoding of image files, the answers of SDL2,
  GLAD and OpenGL, SDL events, what \<^verbatim>\<open>fopen\<close> and \<^verbatim>\<open>fclose\<close> answer, the contents of files, the random engine
  with its distribution and its seeds, uninitialised memory, and the result of the shifts by a negative
  count in the picture unit, which the language leaves undefined.

  \<^bold>\<open>Not modelled.\<close> \<^verbatim>\<open>core/palette.cpp\<close> (commented out), \<^verbatim>\<open>panic\<close> and \<^verbatim>\<open>dbgprint\<close> of \<^verbatim>\<open>util/debug.hpp\<close> (an operation that
  panics has no result; the other prints in debug builds), \<^verbatim>\<open>glCheckError\<close> (never called), the trace characters
  of \<^verbatim>\<open>PRINT_FRAME\<close> builds, the test programs and the vendored libraries. Ownership of memory is not
  modelled: arrays are values.

  \<^bold>\<open>Limits.\<close> The picture of a frame is stated for columns from 26 on (those to the left show tiles fetched at
  the end of the line before) and for frames in which the program leaves the picture unit alone. The
  comparison with the documented 6502 covers programs in RAM and cartridge memory between two
  interrupts; it excludes \<^verbatim>\<open>BRK\<close> and zero page accesses that would wrap, and for single instructions it does not compare the flags
  in which \<^verbatim>\<open>SBC\<close>, \<^verbatim>\<open>BIT\<close> and \<^verbatim>\<open>TXS\<close> depart from it; whole programs do not use these three. The debugger is shown to be
  transparent while it does not stop, for frames without \<^verbatim>\<open>RTS\<close>. Images have character ROM, and bit 4 of header byte 10 clear
  (the code accepts an image with the bit set and never loads its program memory). Where the operands of \<^verbatim>\<open>|\<close> are
  two reads, they are read from left to right; the language leaves the order open.
\<close>

end
